theory Spec2Isabelle
  imports Complex_Main "HOL-Library.Monad_Syntax"
begin

section \<open>Numbers\<close>

text \<open>
  Every number of the JavaScript sources is an IEEE double. The finite ones are modelled
  by \<^typ>\<open>real\<close>; rounding and overflow are not modelled, except for the integration
  step of a point mass, which is modelled a second time with every operation rounded
  (section \<open>The integration step in double precision\<close>). Division is the one
  operation of the modelled code that makes a non-finite value (\<^verbatim>\<open>NaN\<close>,
  \<^verbatim>\<open>Infinity\<close>) out of finite operands, when the divisor is zero. JavaScript
  does not raise there: the value is stored and spreads through every later sum and
  product. The model returns \<open>None\<close> at that point, for the division and for the
  operation around it, so \<open>Some\<close> means that every number computed was finite.
\<close>

definition js_div :: "real \<Rightarrow> real \<Rightarrow> real option" where
  "js_div a b = (if b = 0 then None else Some (a / b))"

section \<open>Point masses: class PhysicsEntity\<close>

text \<open>
  Objects with the properties \<^verbatim>\<open>x\<close> and \<^verbatim>\<open>y\<close> (the pointer, a point mass, a
  star, a body position) extend one record of two coordinates.
\<close>

record point =
  x :: real
  y :: real

text \<open>
  The fields of \<^verbatim>\<open>PhysicsEntity\<close>; the DOM element it is bound to is left out, it is
  only read for the initial rectangle and written by \<^verbatim>\<open>render\<close>.
\<close>

record PhysicsEntity = point +
  vx :: real
  vy :: real
  ax :: real
  ay :: real
  mass :: real
  damping :: real
  maxSpeed :: real
  originalX :: real
  originalY :: real

text \<open>The result of \<^verbatim>\<open>getBoundingClientRect\<close>.\<close>

record rect =
  rect_left :: real
  rect_top :: real
  rect_width :: real
  rect_height :: real

text \<open>
  The constructor. \<open>r1\<close> and \<open>r2\<close> are the two values \<^verbatim>\<open>Math.random()\<close> returns.
\<close>

definition new_PhysicsEntity :: "rect \<Rightarrow> real \<Rightarrow> real \<Rightarrow> real \<Rightarrow> PhysicsEntity" where
  "new_PhysicsEntity r m r1 r2 =
     \<lparr>x = rect_left r + rect_width r / 2,
      y = rect_top r + rect_height r / 2,
      vx = (r1 - 0.5) * 0.5,
      vy = (r2 - 0.5) * 0.5,
      ax = 0,
      ay = 0,
      mass = m,
      damping = 0.98,
      maxSpeed = 3,
      originalX = rect_left r + rect_width r / 2,
      originalY = rect_top r + rect_height r / 2\<rparr>"

definition applyForce :: "PhysicsEntity \<Rightarrow> real \<Rightarrow> real \<Rightarrow> PhysicsEntity option" where
  "applyForce e fx fy = do {
     qx \<leftarrow> js_div fx (mass e);
     qy \<leftarrow> js_div fy (mass e);
     Some (e\<lparr>ax := ax e + qx, ay := ay e + qy\<rparr>)
   }"

definition distanceTo :: "PhysicsEntity \<Rightarrow> real \<Rightarrow> real \<Rightarrow> real" where
  "distanceTo e px py =
     (let dx = px - x e; dy = py - y e in sqrt (dx * dx + dy * dy))"

subsection \<open>One integration step: PhysicsEntity.update\<close>

text \<open>
  \<^verbatim>\<open>update(dt)\<close> is modelled in the three parts its comments name. \<open>integrate\<close> is
  the part from the spring force to the position update.
\<close>

definition limitSpeed :: "PhysicsEntity \<Rightarrow> PhysicsEntity option" where
  "limitSpeed e =
     (let speed = sqrt (vx e * vx e + vy e * vy e) in
      if speed > maxSpeed e then do {
        qx \<leftarrow> js_div (vx e) speed;
        qy \<leftarrow> js_div (vy e) speed;
        Some (e\<lparr>vx := qx * maxSpeed e, vy := qy * maxSpeed e\<rparr>)
      } else Some e)"

definition integrate :: "PhysicsEntity \<Rightarrow> real \<Rightarrow> PhysicsEntity option" where
  "integrate e dt =
     (let springStrength = 0.0005;
          dx = originalX e - x e;
          dy = originalY e - y e
      in do {
        e1 \<leftarrow> applyForce e (dx * springStrength) (dy * springStrength);
        let e2 = e1\<lparr>vx := vx e1 + ax e1 * dt, vy := vy e1 + ay e1 * dt\<rparr>;
        let e3 = e2\<lparr>vx := vx e2 * damping e2, vy := vy e2 * damping e2\<rparr>;
        e4 \<leftarrow> limitSpeed e3;
        Some (e4\<lparr>x := x e4 + vx e4 * dt, y := y e4 + vy e4 * dt\<rparr>)
      })"

text \<open>
  The boundary check. \<open>innerWidth\<close> and \<open>innerHeight\<close> are what
  \<^verbatim>\<open>window.innerWidth\<close> and \<^verbatim>\<open>window.innerHeight\<close> hold at the call.
\<close>

definition boundaryBounce :: "PhysicsEntity \<Rightarrow> real \<Rightarrow> real \<Rightarrow> PhysicsEntity" where
  "boundaryBounce e innerWidth innerHeight =
     (let margin = 100;
          e1 = (if x e < margin then e\<lparr>x := margin, vx := vx e * (- 0.5)\<rparr>
                else if x e > innerWidth - margin
                then e\<lparr>x := innerWidth - margin, vx := vx e * (- 0.5)\<rparr>
                else e)
      in if y e1 < margin then e1\<lparr>y := margin, vy := vy e1 * (- 0.5)\<rparr>
         else if y e1 > innerHeight - margin
         then e1\<lparr>y := innerHeight - margin, vy := vy e1 * (- 0.5)\<rparr>
         else e1)"

definition update :: "PhysicsEntity \<Rightarrow> real \<Rightarrow> real \<Rightarrow> real \<Rightarrow> PhysicsEntity option" where
  "update e dt innerWidth innerHeight = do {
     e5 \<leftarrow> integrate e dt;
     let e6 = boundaryBounce e5 innerWidth innerHeight;
     Some (e6\<lparr>ax := 0, ay := 0\<rparr>)
   }"

text \<open>Repeated steps, one per frame, each with its time delta and viewport size.\<close>

fun updates :: "PhysicsEntity \<Rightarrow> (real \<times> real \<times> real) list \<Rightarrow> PhysicsEntity option" where
  "updates e [] = Some e"
| "updates e ((dt, innerWidth, innerHeight) # frames) =
     (case update e dt innerWidth innerHeight of
        None \<Rightarrow> None
      | Some e' \<Rightarrow> updates e' frames)"

section \<open>The integration step in double precision\<close>

text \<open>
  The numbers of \<^verbatim>\<open>PhysicsEntity.update\<close> once more, as the doubles the program
  computes (IEEE 754 binary64, rounding to nearest, ties to even). A finite double is a
  real number \<open>m * 2 ^ e\<close> with an integer \<open>m\<close>, \<open>\<bar>m\<bar> < 2 ^ 53\<close> and
  \<open>- 1074 \<le> e \<le> 971\<close>. Around a real \<open>r\<close> the doubles are the multiples of
  \<open>2\<close> to the power \<open>ulp_exponent r\<close> (52 below the binary exponent of \<open>r\<close>, and
  \<open>- 1074\<close> below the normal range); \<open>rnd r\<close> is the nearest of them, the even one
  of two that are equally near. \<open>fl r\<close> is the value of an operation whose exact result
  is \<open>r\<close>: \<open>rnd r\<close>, or \<open>None\<close> when \<open>rnd r\<close> is beyond the largest double
  \<open>max_double\<close>, where the operation overflows to an infinity. As for \<open>js_div\<close>,
  \<open>Some\<close> means that every number computed was finite.
\<close>

definition round_even :: "real \<Rightarrow> int" where
  "round_even q =
     (let f = \<lfloor>q\<rfloor> in
      if q - of_int f < 1 / 2 then f
      else if 1 / 2 < q - of_int f then f + 1
      else if even f then f else f + 1)"

definition ulp_exponent :: "real \<Rightarrow> int" where
  "ulp_exponent r = max (\<lfloor>log 2 \<bar>r\<bar>\<rfloor> - 52) (- 1074)"

definition rnd :: "real \<Rightarrow> real" where
  "rnd r =
     (if r = 0 then 0
      else let e = ulp_exponent r in of_int (round_even (r / 2 powi e)) * 2 powi e)"

definition max_double :: real where
  "max_double = (2 ^ 53 - 1) * 2 ^ 971"

definition fl :: "real \<Rightarrow> real option" where
  "fl r = (let c = rnd r in if \<bar>c\<bar> > max_double then None else Some c)"

text \<open>
  The operations of the step, one rounding each. A division by zero gives an infinity or
  \<^verbatim>\<open>NaN\<close>, the square root of a negative number \<^verbatim>\<open>NaN\<close>; \<^verbatim>\<open>Math.sqrt\<close> is the
  square root of IEEE 754, correctly rounded, as the engines compute it.
\<close>

definition d_add :: "real \<Rightarrow> real \<Rightarrow> real option" where
  "d_add a b = fl (a + b)"

definition d_sub :: "real \<Rightarrow> real \<Rightarrow> real option" where
  "d_sub a b = fl (a - b)"

definition d_mul :: "real \<Rightarrow> real \<Rightarrow> real option" where
  "d_mul a b = fl (a * b)"

definition d_div :: "real \<Rightarrow> real \<Rightarrow> real option" where
  "d_div a b = (if b = 0 then None else fl (a / b))"

definition d_sqrt :: "real \<Rightarrow> real option" where
  "d_sqrt a = (if a < 0 then None else fl (sqrt a))"

text \<open>
  \<^verbatim>\<open>applyForce\<close>, the speed limit, the part of \<^verbatim>\<open>update\<close> up to the position update
  and the boundary check, operation by operation in the order of the source. A literal is
  the double nearest to its decimal value: \<open>springStrength\<close> is \<open>rnd 0.0005\<close>, and
  100, 3 and 0.5 are doubles. The two \<^verbatim>\<open>if\<close> chains of the boundary check are
  \<open>bounce_x_d\<close> and \<open>bounce_y_d\<close>; \<^verbatim>\<open>width - margin\<close> is computed where the source
  computes it, when the first test has failed.
\<close>

definition applyForce_d :: "PhysicsEntity \<Rightarrow> real \<Rightarrow> real \<Rightarrow> PhysicsEntity option" where
  "applyForce_d e fx fy = do {
     qx \<leftarrow> d_div fx (mass e);
     ax1 \<leftarrow> d_add (ax e) qx;
     qy \<leftarrow> d_div fy (mass e);
     ay1 \<leftarrow> d_add (ay e) qy;
     Some (e\<lparr>ax := ax1, ay := ay1\<rparr>)
   }"

definition limitSpeed_d :: "PhysicsEntity \<Rightarrow> PhysicsEntity option" where
  "limitSpeed_d e = do {
     xx \<leftarrow> d_mul (vx e) (vx e);
     yy \<leftarrow> d_mul (vy e) (vy e);
     s2 \<leftarrow> d_add xx yy;
     speed \<leftarrow> d_sqrt s2;
     if speed > maxSpeed e then do {
       qx \<leftarrow> d_div (vx e) speed;
       vx1 \<leftarrow> d_mul qx (maxSpeed e);
       qy \<leftarrow> d_div (vy e) speed;
       vy1 \<leftarrow> d_mul qy (maxSpeed e);
       Some (e\<lparr>vx := vx1, vy := vy1\<rparr>)
     } else Some e
   }"

definition integrate_d :: "PhysicsEntity \<Rightarrow> real \<Rightarrow> PhysicsEntity option" where
  "integrate_d e dt =
     (let springStrength = rnd 0.0005 in do {
        dx \<leftarrow> d_sub (originalX e) (x e);
        dy \<leftarrow> d_sub (originalY e) (y e);
        fx \<leftarrow> d_mul dx springStrength;
        fy \<leftarrow> d_mul dy springStrength;
        e1 \<leftarrow> applyForce_d e fx fy;
        ix \<leftarrow> d_mul (ax e1) dt;
        vx2 \<leftarrow> d_add (vx e1) ix;
        iy \<leftarrow> d_mul (ay e1) dt;
        vy2 \<leftarrow> d_add (vy e1) iy;
        vx3 \<leftarrow> d_mul vx2 (damping e1);
        vy3 \<leftarrow> d_mul vy2 (damping e1);
        e4 \<leftarrow> limitSpeed_d (e1\<lparr>vx := vx3, vy := vy3\<rparr>);
        sx \<leftarrow> d_mul (vx e4) dt;
        x5 \<leftarrow> d_add (x e4) sx;
        sy \<leftarrow> d_mul (vy e4) dt;
        y5 \<leftarrow> d_add (y e4) sy;
        Some (e4\<lparr>x := x5, y := y5\<rparr>)
      })"

definition bounce_x_d :: "PhysicsEntity \<Rightarrow> real \<Rightarrow> PhysicsEntity option" where
  "bounce_x_d e innerWidth =
     (let margin = 100 in
      if x e < margin then do {
        v \<leftarrow> d_mul (vx e) (- 0.5);
        Some (e\<lparr>x := margin, vx := v\<rparr>)
      } else do {
        right \<leftarrow> d_sub innerWidth margin;
        if x e > right then do {
          v \<leftarrow> d_mul (vx e) (- 0.5);
          Some (e\<lparr>x := right, vx := v\<rparr>)
        } else Some e
      })"

definition bounce_y_d :: "PhysicsEntity \<Rightarrow> real \<Rightarrow> PhysicsEntity option" where
  "bounce_y_d e innerHeight =
     (let margin = 100 in
      if y e < margin then do {
        v \<leftarrow> d_mul (vy e) (- 0.5);
        Some (e\<lparr>y := margin, vy := v\<rparr>)
      } else do {
        bottom \<leftarrow> d_sub innerHeight margin;
        if y e > bottom then do {
          v \<leftarrow> d_mul (vy e) (- 0.5);
          Some (e\<lparr>y := bottom, vy := v\<rparr>)
        } else Some e
      })"

definition boundaryBounce_d :: "PhysicsEntity \<Rightarrow> real \<Rightarrow> real \<Rightarrow> PhysicsEntity option" where
  "boundaryBounce_d e innerWidth innerHeight = do {
     e1 \<leftarrow> bounce_x_d e innerWidth;
     bounce_y_d e1 innerHeight
   }"

definition update_d :: "PhysicsEntity \<Rightarrow> real \<Rightarrow> real \<Rightarrow> real \<Rightarrow> PhysicsEntity option" where
  "update_d e dt innerWidth innerHeight = do {
     e5 \<leftarrow> integrate_d e dt;
     e6 \<leftarrow> boundaryBounce_d e5 innerWidth innerHeight;
     Some (e6\<lparr>ax := 0, ay := 0\<rparr>)
   }"

section \<open>The field and the pairwise pass: class PhysicsWorld\<close>

record PhysicsWorld =
  entities :: "PhysicsEntity list"
  mouse :: point
  gravity :: real
  gravityRadius :: real
  repulsionRadius :: real
  lastTime :: real

text \<open>
  The constructor; \<open>now\<close> is what \<^verbatim>\<open>performance.now()\<close> returns. (It ends with a
  first \<^verbatim>\<open>animate()\<close>, which finds no entity yet.)
\<close>

definition new_PhysicsWorld :: "real \<Rightarrow> real \<Rightarrow> real \<Rightarrow> PhysicsWorld" where
  "new_PhysicsWorld innerWidth innerHeight now =
     \<lparr>entities = [],
      mouse = \<lparr>x = innerWidth / 2, y = innerHeight / 2\<rparr>,
      gravity = 0.3,
      gravityRadius = 300,
      repulsionRadius = 100,
      lastTime = now\<rparr>"

text \<open>The \<^verbatim>\<open>mousemove\<close> listener of \<^verbatim>\<open>initMouseTracking\<close>.\<close>

definition onMouseMove :: "PhysicsWorld \<Rightarrow> real \<Rightarrow> real \<Rightarrow> PhysicsWorld" where
  "onMouseMove w clientX clientY = w\<lparr>mouse := \<lparr>x = clientX, y = clientY\<rparr>\<rparr>"

definition addEntity :: "PhysicsWorld \<Rightarrow> rect \<Rightarrow> real \<Rightarrow> real \<Rightarrow> real \<Rightarrow> PhysicsWorld" where
  "addEntity w r m r1 r2 = w\<lparr>entities := entities w @ [new_PhysicsEntity r m r1 r2]\<rparr>"

definition applyGravity :: "PhysicsWorld \<Rightarrow> PhysicsEntity \<Rightarrow> PhysicsEntity option" where
  "applyGravity w e =
     (let dx = x (mouse w) - x e;
          dy = y (mouse w) - y e;
          distance = sqrt (dx * dx + dy * dy)
      in if distance < gravityRadius w \<and> distance > repulsionRadius w then do {
           force \<leftarrow> js_div (gravity w * mass e) (distance * 0.01);
           ux \<leftarrow> js_div dx distance;
           uy \<leftarrow> js_div dy distance;
           applyForce e (ux * force) (uy * force)
         } else if distance \<le> repulsionRadius w \<and> distance > 10 then do {
           force \<leftarrow> js_div (2 * mass e) (distance * 0.01);
           ux \<leftarrow> js_div dx distance;
           uy \<leftarrow> js_div dy distance;
           applyForce e (- ux * force) (- uy * force)
         } else Some e)"

text \<open>
  The body of the two loops of \<^verbatim>\<open>applyEntityRepulsion\<close>, for the indices \<open>i\<close> and
  \<open>j\<close>. The entities are objects changed in place; here the list is returned with
  both entries replaced.
\<close>

definition repulsionPair :: "PhysicsEntity list \<Rightarrow> nat \<Rightarrow> nat \<Rightarrow> PhysicsEntity list option" where
  "repulsionPair es i j =
     (let e1 = es ! i;
          e2 = es ! j;
          dx = x e2 - x e1;
          dy = y e2 - y e1;
          distance = sqrt (dx * dx + dy * dy);
          minDistance = 150
      in if distance < minDistance \<and> distance > 0 then do {
           let force = 0.5;
           ux \<leftarrow> js_div dx distance;
           uy \<leftarrow> js_div dy distance;
           let fx = - ux * force;
           let fy = - uy * force;
           e1' \<leftarrow> applyForce e1 fx fy;
           e2' \<leftarrow> applyForce e2 (- fx) (- fy);
           Some (es[i := e1', j := e2'])
         } else Some es)"

text \<open>The inner loop over \<open>j\<close> and the outer loop over \<open>i\<close>, as recursion over the indices left.\<close>

fun repulsionInner :: "PhysicsEntity list \<Rightarrow> nat \<Rightarrow> nat list \<Rightarrow> PhysicsEntity list option" where
  "repulsionInner es i [] = Some es"
| "repulsionInner es i (j # js) =
     (case repulsionPair es i j of
        None \<Rightarrow> None
      | Some es' \<Rightarrow> repulsionInner es' i js)"

fun repulsionOuter :: "PhysicsEntity list \<Rightarrow> nat list \<Rightarrow> PhysicsEntity list option" where
  "repulsionOuter es [] = Some es"
| "repulsionOuter es (i # is) =
     (case repulsionInner es i [i + 1 ..< length es] of
        None \<Rightarrow> None
      | Some es' \<Rightarrow> repulsionOuter es' is)"

definition applyEntityRepulsion :: "PhysicsEntity list \<Rightarrow> PhysicsEntity list option" where
  "applyEntityRepulsion es = repulsionOuter es [0 ..< length es]"

text \<open>A \<^verbatim>\<open>for ... of\<close> or \<^verbatim>\<open>forEach\<close> loop whose body changes the element it visits.\<close>

fun forEach :: "('a \<Rightarrow> 'a option) \<Rightarrow> 'a list \<Rightarrow> 'a list option" where
  "forEach f [] = Some []"
| "forEach f (a # as) =
     (case f a of
        None \<Rightarrow> None
      | Some a' \<Rightarrow> (case forEach f as of None \<Rightarrow> None | Some as' \<Rightarrow> Some (a' # as')))"

text \<open>\<^verbatim>\<open>PhysicsWorld.update\<close>; \<open>currentTime\<close> is \<^verbatim>\<open>performance.now()\<close>.\<close>

definition world_update :: "PhysicsWorld \<Rightarrow> real \<Rightarrow> real \<Rightarrow> real \<Rightarrow> PhysicsWorld option" where
  "world_update w currentTime innerWidth innerHeight =
     (let dt = min ((currentTime - lastTime w) / 16) 2 in do {
        es1 \<leftarrow> forEach (applyGravity w) (entities w);
        es2 \<leftarrow> applyEntityRepulsion es1;
        es3 \<leftarrow> forEach (\<lambda>e. update e dt innerWidth innerHeight) es2;
        Some (w\<lparr>lastTime := currentTime, entities := es3\<rparr>)
      })"

section \<open>Click, scatter and reset: class GravityBlog\<close>

text \<open>The body of the loop of \<^verbatim>\<open>applyClickForce(x, y)\<close>, and the loop.\<close>

definition clickForce :: "real \<Rightarrow> real \<Rightarrow> PhysicsEntity \<Rightarrow> PhysicsEntity option" where
  "clickForce cx cy e =
     (let dx = x e - cx;
          dy = y e - cy;
          distance = sqrt (dx * dx + dy * dy)
      in if distance < 300 \<and> distance > 0 then do {
           let force = 10;
           ux \<leftarrow> js_div dx distance;
           uy \<leftarrow> js_div dy distance;
           applyForce e (ux * force) (uy * force)
         } else Some e)"

definition applyClickForce :: "PhysicsWorld \<Rightarrow> real \<Rightarrow> real \<Rightarrow> PhysicsWorld option" where
  "applyClickForce w cx cy = do {
     es \<leftarrow> forEach (clickForce cx cy) (entities w);
     Some (w\<lparr>entities := es\<rparr>)
   }"

text \<open>
  The body of the loop of \<^verbatim>\<open>scatterElements\<close>; \<open>r1\<close> and \<open>r2\<close> are the two
  values \<^verbatim>\<open>Math.random()\<close> returns.
\<close>

definition scatterEntity :: "real \<Rightarrow> real \<Rightarrow> PhysicsEntity \<Rightarrow> PhysicsEntity option" where
  "scatterEntity r1 r2 e =
     (let angle = r1 * pi * 2;
          force = 5 + r2 * 10
      in applyForce e (cos angle * force) (sin angle * force))"

text \<open>
  The body of the loop of \<^verbatim>\<open>resetPositions\<close>: the velocity is zeroed and a spring
  force of strength 0.1 applied.
\<close>

definition resetEntity :: "PhysicsEntity \<Rightarrow> PhysicsEntity option" where
  "resetEntity e =
     (let e1 = e\<lparr>vx := 0, vy := 0\<rparr>;
          dx = originalX e1 - x e1;
          dy = originalY e1 - y e1
      in applyForce e1 (dx * 0.1) (dy * 0.1))"

section \<open>The star field: particles.js\<close>

text \<open>
  A star of \<^verbatim>\<open>ParticleSystem.particles\<close>. The field \<^verbatim>\<open>size\<close> is named \<open>size0\<close>
  here.
\<close>

record Particle = point +
  z :: real
  size0 :: real
  baseSize :: real
  speedX :: real
  speedY :: real
  brightness :: real
  twinkleSpeed :: real
  twinkleOffset :: real

text \<open>
  \<^verbatim>\<open>updateParticle(p)\<close>. \<open>canvasWidth\<close> and \<open>canvasHeight\<close> are
  \<^verbatim>\<open>this.canvas.width\<close> and \<^verbatim>\<open>this.canvas.height\<close>, \<open>pointer\<close> is
  \<^verbatim>\<open>this.mouse\<close>. The condition of the nudge has no lower bound on the distance.
\<close>

definition updateParticle :: "real \<Rightarrow> real \<Rightarrow> point \<Rightarrow> Particle \<Rightarrow> Particle option" where
  "updateParticle canvasWidth canvasHeight pointer p =
     (let p1 = p\<lparr>x := x p + speedX p, y := y p + speedY p\<rparr>;
          dx = x pointer - x p1;
          dy = y pointer - y p1;
          distance = sqrt (dx * dx + dy * dy);
          influenceRadius = 200
      in do {
        p2 \<leftarrow> (if distance < influenceRadius then do {
                 let force = (influenceRadius - distance) / influenceRadius;
                 ux \<leftarrow> js_div dx distance;
                 uy \<leftarrow> js_div dy distance;
                 Some (p1\<lparr>x := x p1 - ux * force * 0.5, y := y p1 - uy * force * 0.5\<rparr>)
               } else Some p1);
        let p3 = (if x p2 < 0 then p2\<lparr>x := canvasWidth\<rparr> else p2);
        let p4 = (if x p3 > canvasWidth then p3\<lparr>x := 0\<rparr> else p3);
        let p5 = (if y p4 < 0 then p4\<lparr>y := canvasHeight\<rparr> else p4);
        let p6 = (if y p5 > canvasHeight then p5\<lparr>y := 0\<rparr> else p5);
        Some p6
      })"

section \<open>The document\<close>

text \<open>
  What the initialisation code asks of the DOM: \<^verbatim>\<open>getElementById\<close> gives an element
  or \<^verbatim>\<open>null\<close>; \<^verbatim>\<open>getContext('2d')\<close> exists on a canvas only, and gives a
  context or \<^verbatim>\<open>null\<close>. Reading a property of \<^verbatim>\<open>null\<close>, or calling what is not a
  function, throws a \<^verbatim>\<open>TypeError\<close>.
\<close>

datatype element = Canvas bool | Other

type_synonym document = "string \<rightharpoonup> element"

datatype error = TypeError

text \<open>
  The fields of \<^verbatim>\<open>ParticleSystem\<close> that hold numbers: the size of the canvas, the
  stars and the pointer (\<^verbatim>\<open>this.particles\<close> and \<^verbatim>\<open>this.mouse\<close>).
\<close>

record ParticleSystem =
  ps_width :: real
  ps_height :: real
  ps_particles :: "Particle list"
  ps_mouse :: point

text \<open>
  \<^verbatim>\<open>animate()\<close>: every star is updated (and drawn; the drawing changes no state and
  is left out). Its first statement writes \<^verbatim>\<open>this.ctx.fillStyle\<close>.
\<close>

definition ps_animate :: "ParticleSystem \<Rightarrow> ParticleSystem option" where
  "ps_animate ps = do {
     stars \<leftarrow> forEach (updateParticle (ps_width ps) (ps_height ps) (ps_mouse ps)) (ps_particles ps);
     Some (ps\<lparr>ps_particles := stars\<rparr>)
   }"

text \<open>
  The constructor: \<^verbatim>\<open>canvas.getContext('2d')\<close> is its second statement, with no test
  of \<^verbatim>\<open>canvas\<close> before it, and the first \<^verbatim>\<open>animate()\<close> its last.
  \<open>init_stars\<close> are the 200 stars that \<^verbatim>\<open>init()\<close> draws with
  \<^verbatim>\<open>Math.random()\<close>. \<open>Inl\<close> is an exception thrown; \<open>Inr None\<close> is a system
  that holds a non-finite number.
\<close>

definition new_ParticleSystem ::
  "element option \<Rightarrow> real \<Rightarrow> real \<Rightarrow> Particle list \<Rightarrow> error + ParticleSystem option" where
  "new_ParticleSystem canvas innerWidth innerHeight init_stars =
     (case canvas of
        None \<Rightarrow> Inl TypeError
      | Some Other \<Rightarrow> Inl TypeError
      | Some (Canvas has_ctx) \<Rightarrow>
          if \<not> has_ctx then Inl TypeError
          else Inr (ps_animate
                 \<lparr>ps_width = innerWidth, ps_height = innerHeight,
                  ps_particles = init_stars, ps_mouse = \<lparr>x = 0, y = 0\<rparr>\<rparr>))"

text \<open>The \<^verbatim>\<open>DOMContentLoaded\<close> listener at the end of particles.js.\<close>

definition particles_onload ::
  "document \<Rightarrow> real \<Rightarrow> real \<Rightarrow> Particle list \<Rightarrow> error + ParticleSystem option" where
  "particles_onload doc innerWidth innerHeight init_stars =
     new_ParticleSystem (doc ''particles'') innerWidth innerHeight init_stars"

section \<open>The pointer on the canvas: mouse-tracker.js\<close>

text \<open>
  The module state, and with it which listeners \<^verbatim>\<open>initMouseTracker\<close> has registered
  and what it wrote to the console.
\<close>

record tracker =
  mousePosition :: point
  isTracking :: bool
  listening :: bool
  touchListening :: bool
  tracker_console :: "string list"

definition tracker_init :: tracker where
  "tracker_init =
     \<lparr>mousePosition = \<lparr>x = 0, y = 0\<rparr>, isTracking = False,
      listening = False, touchListening = False, tracker_console = []\<rparr>"

text \<open>\<open>touch\<close> is the value of \<^verbatim>\<open>isTouchDevice()\<close>.\<close>

definition initMouseTracker :: "element option \<Rightarrow> bool \<Rightarrow> tracker \<Rightarrow> tracker" where
  "initMouseTracker canvas touch t =
     (case canvas of
        None \<Rightarrow> t\<lparr>tracker_console := tracker_console t @ [''Canvas element required for mouse tracking'']\<rparr>
      | Some c \<Rightarrow>
          t\<lparr>listening := True,
            touchListening := (if touch then True else touchListening t),
            tracker_console := tracker_console t @ [''Mouse tracker initialized'']\<rparr>)"

text \<open>
  The events of the canvas. A mouse move carries \<^verbatim>\<open>clientX\<close>, \<^verbatim>\<open>clientY\<close> and the
  bounding rectangle of the target, a touch event the client coordinates of its touches
  and the rectangle.
\<close>

datatype pointer_event =
    MouseMove real real rect
  | MouseEnter
  | MouseLeave
  | TouchStart "(real \<times> real) list" rect
  | TouchMove "(real \<times> real) list" rect
  | TouchEnd

definition handleMouseMove :: "real \<Rightarrow> real \<Rightarrow> rect \<Rightarrow> tracker \<Rightarrow> tracker" where
  "handleMouseMove clientX clientY r t =
     t\<lparr>mousePosition := \<lparr>x = clientX - rect_left r, y = clientY - rect_top r\<rparr>,
       isTracking := True\<rparr>"

definition handleTouch :: "(real \<times> real) list \<Rightarrow> rect \<Rightarrow> tracker \<Rightarrow> tracker" where
  "handleTouch touches r t =
     (case touches of
        [] \<Rightarrow> t
      | (clientX, clientY) # _ \<Rightarrow>
          t\<lparr>mousePosition := \<lparr>x = clientX - rect_left r, y = clientY - rect_top r\<rparr>,
            isTracking := True\<rparr>)"

text \<open>An event runs the listener registered for it, if there is one.\<close>

fun deliver :: "pointer_event \<Rightarrow> tracker \<Rightarrow> tracker" where
  "deliver (MouseMove clientX clientY r) t =
     (if listening t then handleMouseMove clientX clientY r t else t)"
| "deliver MouseEnter t = (if listening t then t\<lparr>isTracking := True\<rparr> else t)"
| "deliver MouseLeave t = (if listening t then t\<lparr>isTracking := False\<rparr> else t)"
| "deliver (TouchStart touches r) t = (if touchListening t then handleTouch touches r t else t)"
| "deliver (TouchMove touches r) t = (if touchListening t then handleTouch touches r t else t)"
| "deliver TouchEnd t = (if touchListening t then t\<lparr>isTracking := False\<rparr> else t)"

fun deliver_all :: "pointer_event list \<Rightarrow> tracker \<Rightarrow> tracker" where
  "deliver_all [] t = t"
| "deliver_all (ev # evs) t = deliver_all evs (deliver ev t)"

definition getMousePosition :: "tracker \<Rightarrow> point option" where
  "getMousePosition t = (if isTracking t then Some (mousePosition t) else None)"

definition isMouseTracking :: "tracker \<Rightarrow> bool" where
  "isMouseTracking t = isTracking t"

section \<open>The rigid-body overlay: physics-engine.js\<close>

record config =
  particleCount :: nat
  targetFPS :: real
  interactionRadius :: real
  forceMagnitude :: real

definition CONFIG :: "bool \<Rightarrow> config" where
  "CONFIG touch =
     \<lparr>particleCount = (if touch then 15 else 50),
      targetFPS = (if touch then 30 else 60),
      interactionRadius = (if touch then 150 else 250),
      forceMagnitude = 0.0005\<rparr>"

text \<open>
  A body of the external solver: its position is all this module reads of it for the
  steering force. \<open>'b\<close> stands for the rest of the body. The solver's
  \<^verbatim>\<open>Matter.Body.applyForce(body, position, force)\<close> is a parameter of the model.
\<close>

record 'b body =
  position :: point
  solver_part :: 'b

type_synonym 'b apply_force = "'b body \<Rightarrow> point \<Rightarrow> point \<Rightarrow> 'b body"

text \<open>
  The module state (\<^verbatim>\<open>particles\<close>, \<^verbatim>\<open>animationId\<close>, \<^verbatim>\<open>isPaused\<close>; the engine,
  the world and the canvas are held in \<open>running_engine\<close>), with the parts of the page the
  module reads and writes: local storage, the console, whether the toggle button's
  listeners are registered, and the next identifier \<^verbatim>\<open>requestAnimationFrame\<close> will
  return (a positive number).
\<close>

record 'b overlay =
  particles :: "'b body list option"
  animationId :: "nat option"
  isPaused :: bool
  running_engine :: bool
  localStorage :: "string \<rightharpoonup> string"
  console :: "string list"
  toggle_listening :: bool
  next_frame_id :: nat

definition overlay_init :: "(string \<rightharpoonup> string) \<Rightarrow> 'b overlay" where
  "overlay_init storage =
     \<lparr>particles = None, animationId = None, isPaused = False, running_engine = False,
      localStorage = storage, console = [], toggle_listening = False, next_frame_id = 0\<rparr>"

text \<open>
  \<^verbatim>\<open>requestAnimationFrame(animate)\<close>: the identifier returned is stored in
  \<^verbatim>\<open>animationId\<close>. A frame is scheduled exactly when \<^verbatim>\<open>animationId\<close> is not
  \<^verbatim>\<open>null\<close>.
\<close>

definition requestFrame :: "'b overlay \<Rightarrow> 'b overlay" where
  "requestFrame s =
     s\<lparr>animationId := Some (Suc (next_frame_id s)), next_frame_id := Suc (next_frame_id s)\<rparr>"

definition startSimulation :: "'b overlay \<Rightarrow> 'b overlay" where
  "startSimulation s = (case animationId s of Some _ \<Rightarrow> s | None \<Rightarrow> requestFrame s)"

definition pauseSimulation :: "'b overlay \<Rightarrow> 'b overlay" where
  "pauseSimulation s =
     s\<lparr>isPaused := True, animationId := None,
       localStorage := (localStorage s)(''physics-paused'' \<mapsto> ''true'')\<rparr>"

definition resumeSimulation :: "'b overlay \<Rightarrow> 'b overlay" where
  "resumeSimulation s =
     (let s1 = startSimulation (s\<lparr>isPaused := False\<rparr>)
      in s1\<lparr>localStorage := (localStorage s1)(''physics-paused'' \<mapsto> ''false'')\<rparr>)"

text \<open>The click listener of the toggle button (the keyboard shortcut clicks the button).\<close>

definition toggle_click :: "'b overlay \<Rightarrow> 'b overlay" where
  "toggle_click s =
     (if \<not> toggle_listening s then s
      else if isPaused s then resumeSimulation s else pauseSimulation s)"

definition setupPauseToggle :: "document \<Rightarrow> 'b overlay \<Rightarrow> 'b overlay" where
  "setupPauseToggle doc s =
     (case doc ''physics-toggle'' of
        None \<Rightarrow> s
      | Some toggleBtn \<Rightarrow>
          (let s1 = (if localStorage s ''physics-paused'' = Some ''true''
                     then pauseSimulation s else s)
           in s1\<lparr>toggle_listening := True\<rparr>))"

text \<open>
  \<^verbatim>\<open>initPhysicsEngine\<close>. \<open>reduced\<close> is the result of the media query
  \<^verbatim>\<open>prefers-reduced-motion: reduce\<close>, \<open>created\<close> are the bodies
  \<^verbatim>\<open>createParticles\<close> returns. The tracker is initialised with the canvas found.
  (The last message ends with the number of particles in the source.)
\<close>

definition initPhysicsEngine ::
  "bool \<Rightarrow> document \<Rightarrow> bool \<Rightarrow> 'b body list \<Rightarrow> 'b overlay \<times> tracker
     \<Rightarrow> error + 'b overlay \<times> tracker" where
  "initPhysicsEngine reduced doc touch created st =
     (let (s, t) = st in
      if reduced
      then Inr (s\<lparr>console := console s @ [''Reduced motion preferred - skipping physics'']\<rparr>, t)
      else case doc ''physics-canvas'' of
        None \<Rightarrow> Inr (s\<lparr>console := console s @ [''Canvas element not found'']\<rparr>, t)
      | Some Other \<Rightarrow> Inl TypeError
      | Some (Canvas has_ctx) \<Rightarrow>
          if \<not> has_ctx
          then Inr (s\<lparr>console := console s @ [''Could not get canvas context'']\<rparr>, t)
          else
            (let s1 = s\<lparr>running_engine := True, particles := Some created\<rparr>;
                 t1 = initMouseTracker (Some (Canvas has_ctx)) touch t;
                 s2 = setupPauseToggle doc s1;
                 s3 = startSimulation s2
             in Inr (s3\<lparr>console := console s3 @ [''Physics engine initialized'']\<rparr>, t1)))"

text \<open>
  The callback \<^verbatim>\<open>animate\<close>, run by the browser for a scheduled frame only: it
  schedules the next frame first. (The throttled solver step, the steering force and the
  drawing that follow do not touch \<^verbatim>\<open>animationId\<close>, \<^verbatim>\<open>isPaused\<close> or the storage.)
\<close>

definition animate :: "'b overlay \<Rightarrow> 'b overlay" where
  "animate s = (case animationId s of None \<Rightarrow> s | Some _ \<Rightarrow> requestFrame s)"

text \<open>The \<^verbatim>\<open>visibilitychange\<close> listener; \<open>hidden\<close> is \<^verbatim>\<open>document.hidden\<close>.\<close>

definition visibilitychange :: "bool \<Rightarrow> 'b overlay \<Rightarrow> 'b overlay" where
  "visibilitychange hidden s =
     (if hidden \<and> \<not> isPaused s then pauseSimulation s
      else if \<not> hidden \<and> isPaused s then
        (if localStorage s ''physics-paused'' \<noteq> Some ''true'' then resumeSimulation s else s)
      else s)"

text \<open>
  The body of the loop of \<^verbatim>\<open>applyMouseForce\<close>, and the function: nothing is done
  when \<^verbatim>\<open>getMousePosition()\<close> is \<^verbatim>\<open>null\<close> or there are no particles yet.
\<close>

definition steer :: "'b apply_force \<Rightarrow> config \<Rightarrow> point \<Rightarrow> 'b body \<Rightarrow> 'b body option" where
  "steer Body_applyForce cfg pointer particle =
     (let dx = x pointer - x (position particle);
          dy = y pointer - y (position particle);
          distance = sqrt (dx * dx + dy * dy)
      in if distance < interactionRadius cfg \<and> distance > 0 then do {
           ux \<leftarrow> js_div dx distance;
           uy \<leftarrow> js_div dy distance;
           let force = \<lparr>x = ux * forceMagnitude cfg, y = uy * forceMagnitude cfg\<rparr>;
           Some (Body_applyForce particle (position particle) force)
         } else Some particle)"

definition applyMouseForce ::
  "'b apply_force \<Rightarrow> config \<Rightarrow> tracker \<Rightarrow> 'b overlay \<Rightarrow> 'b overlay option" where
  "applyMouseForce Body_applyForce cfg t s =
     (case (getMousePosition t, particles s) of
        (Some pointer, Some ps) \<Rightarrow> do {
          ps' \<leftarrow> forEach (steer Body_applyForce cfg pointer) ps;
          Some (s\<lparr>particles := Some ps'\<rparr>)
        }
      | _ \<Rightarrow> Some s)"

section \<open>Notions used to state the properties\<close>

text \<open>The length of a force or velocity vector.\<close>

definition magnitude :: "real \<Rightarrow> real \<Rightarrow> real" where
  "magnitude fx fy = sqrt (fx * fx + fy * fy)"

text \<open>
  Sample data: a point mass as the constructor makes it for an element 60 wide and 40 high
  whose centre is at \<open>(px, py)\<close>, and a world whose pointer is at \<open>(500, 400)\<close>.
\<close>

definition sample_entity :: "real \<Rightarrow> real \<Rightarrow> real \<Rightarrow> real \<Rightarrow> real \<Rightarrow> PhysicsEntity" where
  "sample_entity px py m r1 r2 =
     new_PhysicsEntity
       \<lparr>rect_left = px - 30, rect_top = py - 20, rect_width = 60, rect_height = 40\<rparr> m r1 r2"

definition entity_at :: "real \<Rightarrow> real \<Rightarrow> real \<Rightarrow> PhysicsEntity" where
  "entity_at px py m = sample_entity px py m 0.5 0.5"

definition sample_world :: PhysicsWorld where
  "sample_world = onMouseMove (new_PhysicsWorld 1000 800 0) 500 400"

text \<open>
  Sample data in doubles. \<open>entity_d px py m\<close> is the point mass of \<open>entity_at\<close> with
  the damping the constructor stores, the double nearest to 0.98. \<open>pushed_entity\<close> is
  such a point mass of mass 2, at rest at its rest position \<open>(500, 400)\<close>, that has
  accumulated the acceleration \<open>(4, 1)\<close>; \<open>pushed_entity_after\<close> is what one step
  with the time delta 1 makes of it in a viewport 1000 wide and 800 high.
\<close>

definition entity_d :: "real \<Rightarrow> real \<Rightarrow> real \<Rightarrow> PhysicsEntity" where
  "entity_d px py m = (entity_at px py m)\<lparr>damping := rnd 0.98\<rparr>"

definition pushed_entity :: PhysicsEntity where
  "pushed_entity = (entity_d 500 400 2)\<lparr>ax := 4, ay := 1\<rparr>"

definition pushed_entity_after :: PhysicsEntity where
  "pushed_entity_after =
     (entity_d 500 400 2)\<lparr>x := 8847293804264455 / 2 ^ 44, y := 7049674613280514 / 2 ^ 44,
        vx := 6553700103226198 / 2 ^ 51, vy := 6553700103226198 / 2 ^ 53\<rparr>"

text \<open>
  A step with moderate numbers: every number that enters it (the fields of the point mass,
  the time delta, the size of the viewport) is at most \<open>2 ^ 100\<close> in absolute value,
  and the mass at least \<open>1 / 2 ^ 100\<close>.
\<close>

definition moderate :: "PhysicsEntity \<Rightarrow> real \<Rightarrow> real \<Rightarrow> real \<Rightarrow> bool" where
  "moderate e dt innerWidth innerHeight \<longleftrightarrow>
     \<bar>x e\<bar> \<le> 2 ^ 100 \<and> \<bar>y e\<bar> \<le> 2 ^ 100 \<and> \<bar>vx e\<bar> \<le> 2 ^ 100 \<and> \<bar>vy e\<bar> \<le> 2 ^ 100
     \<and> \<bar>ax e\<bar> \<le> 2 ^ 100 \<and> \<bar>ay e\<bar> \<le> 2 ^ 100 \<and> \<bar>damping e\<bar> \<le> 2 ^ 100
     \<and> \<bar>originalX e\<bar> \<le> 2 ^ 100 \<and> \<bar>originalY e\<bar> \<le> 2 ^ 100
     \<and> 1 / 2 ^ 100 \<le> \<bar>mass e\<bar>
     \<and> \<bar>dt\<bar> \<le> 2 ^ 100 \<and> \<bar>innerWidth\<bar> \<le> 2 ^ 100 \<and> \<bar>innerHeight\<bar> \<le> 2 ^ 100"

text \<open>
  What a trace of canvas events, most recent first, says about the pointer: whether it is
  tracked (not before the first event, not after a \<^verbatim>\<open>mouseleave\<close> or a
  \<^verbatim>\<open>touchend\<close>), and the last position recorded (the initial \<open>(0, 0)\<close> if there is
  none). A touch event without touches records nothing.
\<close>

fun recorded :: "pointer_event \<Rightarrow> point option" where
  "recorded (MouseMove clientX clientY r) =
     Some \<lparr>x = clientX - rect_left r, y = clientY - rect_top r\<rparr>"
| "recorded (TouchStart ((clientX, clientY) # _) r) =
     Some \<lparr>x = clientX - rect_left r, y = clientY - rect_top r\<rparr>"
| "recorded (TouchMove ((clientX, clientY) # _) r) =
     Some \<lparr>x = clientX - rect_left r, y = clientY - rect_top r\<rparr>"
| "recorded _ = None"

fun tracked :: "pointer_event list \<Rightarrow> bool" where
  "tracked [] = False"
| "tracked (MouseLeave # _) = False"
| "tracked (TouchEnd # _) = False"
| "tracked (MouseEnter # _) = True"
| "tracked (ev # earlier) = (case recorded ev of Some _ \<Rightarrow> True | None \<Rightarrow> tracked earlier)"

fun last_recorded :: "pointer_event list \<Rightarrow> point" where
  "last_recorded [] = \<lparr>x = 0, y = 0\<rparr>"
| "last_recorded (ev # earlier) =
     (case recorded ev of Some p \<Rightarrow> p | None \<Rightarrow> last_recorded earlier)"

fun is_touch :: "pointer_event \<Rightarrow> bool" where
  "is_touch (TouchStart _ _) = True"
| "is_touch (TouchMove _ _) = True"
| "is_touch TouchEnd = True"
| "is_touch _ = False"

text \<open>Sample pages and stars.\<close>

definition overlay_page :: document where
  "overlay_page = [''physics-canvas'' \<mapsto> Canvas True, ''physics-toggle'' \<mapsto> Other]"

definition star_at :: "real \<Rightarrow> real \<Rightarrow> real \<Rightarrow> real \<Rightarrow> Particle" where
  "star_at px py sx sy =
     \<lparr>x = px, y = py, z = 500, size0 = 1, baseSize = 1, speedX = sx, speedY = sy,
      brightness = 0.75, twinkleSpeed = 0.02, twinkleOffset = 0\<rparr>"

text \<open>
  The overlay after \<^verbatim>\<open>initPhysicsEngine\<close> on a page with the canvas and the toggle
  button, when the storage holds \<^verbatim>\<open>'true'\<close> under \<^verbatim>\<open>'physics-paused'\<close>.
\<close>

definition restored_overlay :: "point overlay" where
  "restored_overlay =
     \<lparr>particles = Some [], animationId = Some 1, isPaused = True, running_engine = True,
      localStorage = [''physics-paused'' \<mapsto> ''true''],
      console = [''Physics engine initialized''],
      toggle_listening = True, next_frame_id = 1\<rparr>"

text \<open>A solver whose bodies hold the force accumulated, and one such body.\<close>

definition add_force :: "point apply_force" where
  "add_force b pos f =
     b\<lparr>solver_part := \<lparr>x = x (solver_part b) + x f, y = y (solver_part b) + y f\<rparr>\<rparr>"

definition body_at :: "real \<Rightarrow> real \<Rightarrow> point body" where
  "body_at px py = \<lparr>position = \<lparr>x = px, y = py\<rparr>, solver_part = \<lparr>x = 0, y = 0\<rparr>\<rparr>"

definition canvas_rect :: rect where
  "canvas_rect = \<lparr>rect_left = 20, rect_top = 30, rect_width = 1000, rect_height = 800\<rparr>"

text \<open>
  The pairwise pass as the specification words it. \<open>spec_pair_force a b\<close> is the force
  on \<open>a\<close> from \<open>b\<close>: of length 0.5 along the line through both, away from \<open>b\<close>,
  when their distance is below 150 and not 0, and none otherwise. \<open>push e f\<close> is
  \<open>e\<close> with the force \<open>f\<close> accumulated into its acceleration (force over mass), and
  \<open>repulsion_total es k\<close> the sum of the forces on the entity \<open>k\<close> from all the others.
\<close>

definition spec_pair_force :: "PhysicsEntity \<Rightarrow> PhysicsEntity \<Rightarrow> real \<times> real" where
  "spec_pair_force a b =
     (let dx = x b - x a; dy = y b - y a; d = sqrt (dx * dx + dy * dy)
      in if 0 < d \<and> d < 150 then (- 0.5 * (dx / d), - 0.5 * (dy / d)) else (0, 0))"

definition push :: "PhysicsEntity \<Rightarrow> real \<times> real \<Rightarrow> PhysicsEntity" where
  "push e f = e\<lparr>ax := ax e + fst f / mass e, ay := ay e + snd f / mass e\<rparr>"

definition repulsion_total :: "PhysicsEntity list \<Rightarrow> nat \<Rightarrow> real \<times> real" where
  "repulsion_total es k =
     (\<Sum>j\<in>{..<length es} - {k}. fst (spec_pair_force (es ! k) (es ! j)),
      \<Sum>j\<in>{..<length es} - {k}. snd (spec_pair_force (es ! k) (es ! j)))"

text \<open>
  For the proofs about the loops: a list with accelerations added, the share of one pair
  in the force on the entity \<open>k\<close>, sums of vectors, the pairs of a row of the pass, and
  entities that differ in the accumulated acceleration only.
\<close>

definition accelerated :: "PhysicsEntity list \<Rightarrow> (nat \<Rightarrow> real \<times> real) \<Rightarrow> PhysicsEntity list" where
  "accelerated es A = map (\<lambda>k. push (es ! k) (A k)) [0 ..< length es]"

definition pair_share :: "PhysicsEntity list \<Rightarrow> nat \<Rightarrow> nat \<times> nat \<Rightarrow> real \<times> real" where
  "pair_share es k p =
     (if k = fst p then spec_pair_force (es ! k) (es ! snd p)
      else if k = snd p then spec_pair_force (es ! k) (es ! fst p)
      else (0, 0))"

definition vadd :: "real \<times> real \<Rightarrow> real \<times> real \<Rightarrow> real \<times> real" where
  "vadd f g = (fst f + fst g, snd f + snd g)"

definition vsum :: "(real \<times> real) list \<Rightarrow> real \<times> real" where
  "vsum fs = (sum_list (map fst fs), sum_list (map snd fs))"

definition row_pairs :: "nat \<Rightarrow> nat \<Rightarrow> (nat \<times> nat) list" where
  "row_pairs n i = map (Pair i) [i + 1 ..< n]"

definition same_but_acceleration :: "PhysicsEntity \<Rightarrow> PhysicsEntity \<Rightarrow> bool" where
  "same_but_acceleration e e' \<longleftrightarrow> e' = e\<lparr>ax := ax e', ay := ay e'\<rparr>"

section \<open>Properties of the point-mass integrator\<close>

subsection \<open>Auxiliary facts\<close>

lemma applyForce_Some:
  "mass e \<noteq> 0 \<Longrightarrow>
   applyForce e fx fy = Some (e\<lparr>ax := ax e + fx / mass e, ay := ay e + fy / mass e\<rparr>)"
  by (simp add: applyForce_def js_div_def)

lemma magnitude_scale:
  fixes a b k :: real
  shows "magnitude (k * a) (k * b) = \<bar>k\<bar> * magnitude a b"
proof -
  have "(k * a) * (k * a) + (k * b) * (k * b) = (k * k) * (a * a + b * b)"
    by (simp add: algebra_simps)
  then have "magnitude (k * a) (k * b) = sqrt ((k * k) * (a * a + b * b))"
    by (simp only: magnitude_def)
  also have "\<dots> = sqrt (k * k) * sqrt (a * a + b * b)" by (rule real_sqrt_mult)
  also have "\<dots> = \<bar>k\<bar> * magnitude a b" by (simp add: magnitude_def)
  finally show ?thesis .
qed

lemma magnitude_unit:
  fixes a b :: real
  assumes "0 < sqrt (a * a + b * b)"
  shows "magnitude (a / sqrt (a * a + b * b)) (b / sqrt (a * a + b * b)) = 1"
proof -
  define s where "s = sqrt (a * a + b * b)"
  have spos: "0 < s" using assms by (simp only: s_def)
  have ms: "magnitude a b = s" by (simp only: s_def magnitude_def)
  have "magnitude ((1 / s) * a) ((1 / s) * b) = \<bar>1 / s\<bar> * magnitude a b"
    by (rule magnitude_scale)
  also have "\<dots> = (1 / s) * s" using spos by (simp add: ms)
  also have "\<dots> = 1" using spos by simp
  finally have "magnitude (a / s) (b / s) = 1" by simp
  then show ?thesis by (simp only: s_def)
qed

lemma sqrt_of_square: "0 \<le> a \<Longrightarrow> b = a * a \<Longrightarrow> sqrt b = a"
  by simp

lemma sample_entity_fields:
  "x (sample_entity px py m r1 r2) = px" "y (sample_entity px py m r1 r2) = py"
  "mass (sample_entity px py m r1 r2) = m" "maxSpeed (sample_entity px py m r1 r2) = 3"
  "vx (sample_entity px py m r1 r2) = (r1 - 0.5) * 0.5" "vy (sample_entity px py m r1 r2) = (r2 - 0.5) * 0.5"
  "ax (sample_entity px py m r1 r2) = 0" "ay (sample_entity px py m r1 r2) = 0"
  "originalX (sample_entity px py m r1 r2) = px" "originalY (sample_entity px py m r1 r2) = py"
  by (simp_all add: sample_entity_def new_PhysicsEntity_def)

lemma sample_world_fields:
  "gravity sample_world = 0.3" "gravityRadius sample_world = 300"
  "repulsionRadius sample_world = 100" "mouse sample_world = \<lparr>x = 500, y = 400\<rparr>"
  by (simp_all add: sample_world_def new_PhysicsWorld_def onMouseMove_def)

text \<open>The clamp leaves a velocity of length \<open>maxSpeed\<close>.\<close>

lemma clamped_norm:
  fixes a b M :: real
  assumes "0 \<le> M" "M < sqrt (a * a + b * b)"
  shows "magnitude (a / sqrt (a * a + b * b) * M) (b / sqrt (a * a + b * b) * M) = M"
proof -
  have pos: "0 < sqrt (a * a + b * b)" using assms by linarith
  have "magnitude (M * (a / sqrt (a * a + b * b))) (M * (b / sqrt (a * a + b * b))) = \<bar>M\<bar> * 1"
    using magnitude_scale[of M "a / sqrt (a * a + b * b)" "b / sqrt (a * a + b * b)"]
      magnitude_unit[OF pos] by simp
  then show ?thesis using assms(1) by (simp add: mult.commute)
qed

lemma limitSpeed_bounded:
  assumes "0 \<le> maxSpeed e"
  shows "\<exists>e'. limitSpeed e = Some e' \<and> magnitude (vx e') (vy e') \<le> maxSpeed e
     \<and> maxSpeed e' = maxSpeed e"
proof (cases "sqrt (vx e * vx e + vy e * vy e) > maxSpeed e")
  case True
  then have nz: "sqrt (vx e * vx e + vy e * vy e) \<noteq> 0" using assms by linarith
  show ?thesis using True nz clamped_norm[OF assms True]
    by (simp add: limitSpeed_def Let_def js_div_def)
next
  case False
  then show ?thesis by (simp add: limitSpeed_def Let_def magnitude_def)
qed

lemma limitSpeed_slow:
  assumes "0 \<le> maxSpeed e" and "vx e * vx e + vy e * vy e \<le> maxSpeed e * maxSpeed e"
  shows "limitSpeed e = Some e"
proof -
  have "sqrt (vx e * vx e + vy e * vy e) \<le> sqrt (maxSpeed e * maxSpeed e)"
    using assms(2) by (simp only: real_sqrt_le_iff)
  then have "sqrt (vx e * vx e + vy e * vy e) \<le> maxSpeed e"
    using assms(1) by simp
  then show ?thesis by (simp add: limitSpeed_def)
qed

lemma half_magnitude_le:
  fixes a b :: real
  shows "magnitude (a * (- 0.5)) b \<le> magnitude a b"
    and "magnitude a (b * (- 0.5)) \<le> magnitude a b"
proof -
  have "(a * (- 0.5)) * (a * (- 0.5)) = (a * a) / 4" "(b * (- 0.5)) * (b * (- 0.5)) = (b * b) / 4"
    by simp_all
  moreover have "(a * a) / 4 \<le> a * a" "(b * b) / 4 \<le> b * b" by simp_all
  ultimately show "magnitude (a * (- 0.5)) b \<le> magnitude a b"
    and "magnitude a (b * (- 0.5)) \<le> magnitude a b"
    by (simp_all add: magnitude_def)
qed

lemma boundaryBounce_x:
  "x (boundaryBounce e w h) = (if x e < 100 then 100 else if x e > w - 100 then w - 100 else x e)"
  by (simp add: boundaryBounce_def Let_def)

lemma boundaryBounce_y:
  "y (boundaryBounce e w h) = (if y e < 100 then 100 else if y e > h - 100 then h - 100 else y e)"
  by (simp add: boundaryBounce_def Let_def)

lemma boundaryBounce_vx:
  "vx (boundaryBounce e w h) = (if x e < 100 \<or> x e > w - 100 then vx e * (- 0.5) else vx e)"
  by (simp add: boundaryBounce_def Let_def)

lemma boundaryBounce_vy:
  "vy (boundaryBounce e w h) = (if y e < 100 \<or> y e > h - 100 then vy e * (- 0.5) else vy e)"
  by (simp add: boundaryBounce_def Let_def)

lemma boundaryBounce_maxSpeed: "maxSpeed (boundaryBounce e w h) = maxSpeed e"
  by (simp add: boundaryBounce_def Let_def)

lemma boundaryBounce_speed:
  "magnitude (vx (boundaryBounce e w h)) (vy (boundaryBounce e w h)) \<le> magnitude (vx e) (vy e)"
proof -
  have 1: "magnitude (vx (boundaryBounce e w h)) (vy e) \<le> magnitude (vx e) (vy e)"
    using half_magnitude_le(1)[of "vx e" "vy e"] by (simp add: boundaryBounce_vx)
  have 2: "magnitude (vx (boundaryBounce e w h)) (vy (boundaryBounce e w h))
             \<le> magnitude (vx (boundaryBounce e w h)) (vy e)"
    using half_magnitude_le(2)[of "vx (boundaryBounce e w h)" "vy e"]
    by (simp add: boundaryBounce_vy)
  from 1 2 show ?thesis by linarith
qed

lemma integrate_bounded:
  assumes "mass e \<noteq> 0" "0 \<le> maxSpeed e"
  shows "\<exists>e'. integrate e dt = Some e' \<and> magnitude (vx e') (vy e') \<le> maxSpeed e
     \<and> maxSpeed e' = maxSpeed e"
proof -
  define e3 where "e3 = e\<lparr>ax := ax e + (originalX e - x e) * 0.0005 / mass e,
       ay := ay e + (originalY e - y e) * 0.0005 / mass e,
       vx := (vx e + (ax e + (originalX e - x e) * 0.0005 / mass e) * dt) * damping e,
       vy := (vy e + (ay e + (originalY e - y e) * 0.0005 / mass e) * dt) * damping e\<rparr>"
  have m: "0 \<le> maxSpeed e3" using assms by (simp add: e3_def)
  obtain e4 where e4: "limitSpeed e3 = Some e4" "magnitude (vx e4) (vy e4) \<le> maxSpeed e3"
     "maxSpeed e4 = maxSpeed e3"
    using limitSpeed_bounded[OF m] by blast
  have "integrate e dt = Some (e4\<lparr>x := x e4 + vx e4 * dt, y := y e4 + vy e4 * dt\<rparr>)"
    using assms(1) e4(1) by (simp add: integrate_def Let_def applyForce_Some e3_def)
  then show ?thesis using e4 by (simp add: e3_def)
qed

lemma update_rest:
  assumes "vx e = 0" "vy e = 0" "ax e = 0" "ay e = 0"
    "x e = originalX e" "y e = originalY e" "mass e \<noteq> 0" "0 \<le> maxSpeed e"
    "100 \<le> x e" "x e \<le> w - 100" "100 \<le> y e" "y e \<le> h - 100"
  shows "update e dt w h = Some e"
proof -
  have 1: "applyForce e 0 0 = Some e" using assms by (simp add: applyForce_Some)
  have 2: "limitSpeed e = Some e" using assms by (simp add: limitSpeed_def)
  have r: "e\<lparr>vx := 0, vy := 0\<rparr> = e" "e\<lparr>x := originalX e, y := originalY e\<rparr> = e"
    using assms(1,2,5,6) by (cases e, simp)+
  have 3: "integrate e dt = Some e"
    by (simp add: integrate_def 1 2 r assms(1-6))
  have 4: "boundaryBounce e w h = e" using assms by (simp add: boundaryBounce_def)
  show ?thesis using 3 4 assms by (simp add: update_def)
qed

subsection \<open>The speed limit\<close>

text \<open>
  In exact arithmetic (the numbers as reals, no operation rounded) the length of the
  velocity after one full integration step is at most \<open>maxSpeed\<close> (3 for every entity
  the constructor makes), for every accumulated acceleration, time delta and viewport. The
  step is made by a point mass whose mass is not zero (the callers of the constructor pass
  2, 3 or a parsed number that \<^verbatim>\<open>||\<close> replaces when it is 0), and it returns: no
  division of the step is by zero. The doubles of the program are the subject of the next
  subsection.
\<close>

lemma update_speed_le_maxSpeed:
  assumes "mass e \<noteq> 0" and "0 \<le> maxSpeed e"
  shows "\<exists>e'. update e dt innerWidth innerHeight = Some e'
           \<and> maxSpeed e' = maxSpeed e
           \<and> magnitude (vx e') (vy e') \<le> maxSpeed e'"
proof -
  obtain e5 where e5: "integrate e dt = Some e5" "magnitude (vx e5) (vy e5) \<le> maxSpeed e"
     "maxSpeed e5 = maxSpeed e"
    using integrate_bounded[OF assms] by blast
  have "update e dt innerWidth innerHeight
          = Some ((boundaryBounce e5 innerWidth innerHeight)\<lparr>ax := 0, ay := 0\<rparr>)"
    using e5(1) by (simp add: update_def)
  moreover have "magnitude (vx (boundaryBounce e5 innerWidth innerHeight))
       (vy (boundaryBounce e5 innerWidth innerHeight)) \<le> maxSpeed e"
    using boundaryBounce_speed[of e5 innerWidth innerHeight] e5(2) by linarith
  ultimately show ?thesis using e5(3) by (simp add: boundaryBounce_maxSpeed)
qed

text \<open>A point mass of mass 2 with the accumulated acceleration \<open>(200, - 150)\<close>.\<close>

lemma update_speed_le_maxSpeed_witness:
  "mass ((entity_at 350 225 2)\<lparr>ax := 200, ay := - 150\<rparr>) \<noteq> 0
   \<and> 0 \<le> maxSpeed ((entity_at 350 225 2)\<lparr>ax := 200, ay := - 150\<rparr>)
   \<and> (\<exists>e'. update ((entity_at 350 225 2)\<lparr>ax := 200, ay := - 150\<rparr>) 1 1000 800 = Some e'
           \<and> maxSpeed e' = 3
           \<and> magnitude (vx e') (vy e') \<le> 3)"
proof -
  have h: "mass ((entity_at 350 225 2)\<lparr>ax := 200, ay := - 150\<rparr>) \<noteq> 0"
       "0 \<le> maxSpeed ((entity_at 350 225 2)\<lparr>ax := 200, ay := - 150\<rparr>)"
       "maxSpeed ((entity_at 350 225 2)\<lparr>ax := 200, ay := - 150\<rparr>) = 3"
    by (simp_all add: entity_at_def sample_entity_fields)
  obtain e' where "update ((entity_at 350 225 2)\<lparr>ax := 200, ay := - 150\<rparr>) 1 1000 800 = Some e'"
    "maxSpeed e' = maxSpeed ((entity_at 350 225 2)\<lparr>ax := 200, ay := - 150\<rparr>)"
    "magnitude (vx e') (vy e') \<le> maxSpeed e'"
    using update_speed_le_maxSpeed[OF h(1,2), of 1 1000 800] by blast
  then show ?thesis using h by simp
qed

subsection \<open>Rounding to a double\<close>

text \<open>
  The error of a rounding is half a unit in the last place, at most \<open>\<bar>r\<bar> / 2 ^ 53\<close>
  in the normal range and \<open>1 / 2 ^ 1075\<close> below it; a rounding is evaluated by giving
  the double \<open>m / 2 ^ k\<close> nearest to \<open>r\<close>.
\<close>

lemma round_even_error: "\<bar>of_int (round_even q) - q\<bar> \<le> 1 / 2"
  unfolding round_even_def Let_def by (auto; linarith)

lemma round_even_unique:
  assumes "\<bar>q - of_int m\<bar> < 1 / 2"
  shows "round_even q = m"
proof -
  have e: "\<bar>of_int (round_even q) - q\<bar> \<le> 1 / 2" by (rule round_even_error)
  have "\<bar>(of_int (round_even q) :: real) - of_int m\<bar> < 1" using assms e by linarith
  then have "\<bar>of_int (round_even q - m) :: real\<bar> < 1" by simp
  then have "\<bar>round_even q - m\<bar> < 1" by linarith
  then show ?thesis by linarith
qed

lemma pow2_floor_log_le:
  assumes "r \<noteq> 0"
  shows "2 powi \<lfloor>log 2 \<bar>r\<bar>\<rfloor> \<le> \<bar>r\<bar>"
proof -
  have p: "0 < \<bar>r\<bar>" using assms by simp
  have "2 powr (of_int \<lfloor>log 2 \<bar>r\<bar>\<rfloor>) \<le> \<bar>r\<bar>"
    using floor_log_eq_powr_iff[OF p, of 2 "\<lfloor>log 2 \<bar>r\<bar>\<rfloor>"] by simp
  then show ?thesis by (simp add: powr_real_of_int')
qed

lemma floor_log_pow2:
  assumes "2 powi k \<le> r" and "r < 2 powi (k + 1)"
  shows "\<lfloor>log 2 \<bar>r\<bar>\<rfloor> = k"
proof -
  have "(0::real) < 2 powi k" by simp
  then have p: "0 < r" using assms(1) by linarith
  have "2 powr (of_int k) \<le> r \<and> r < 2 powr (of_int k + 1)"
    using assms powr_real_of_int'[of 2 k] powr_real_of_int'[of 2 "k + 1"] by simp
  then show ?thesis using floor_log_eq_powr_iff[OF p, of 2 k] p by simp
qed

text \<open>The rounding error: half a unit in the last place.\<close>

lemma rnd_error: "\<bar>rnd r - r\<bar> \<le> \<bar>r\<bar> / 2 ^ 53 + 1 / 2 ^ 1075"
proof (cases "r = 0")
  case True
  then show ?thesis by (simp add: rnd_def)
next
  case False
  define e where "e = ulp_exponent r"
  define k where "k = round_even (r / 2 powi e)"
  have c: "rnd r = of_int k * 2 powi e"
    using False by (simp add: rnd_def Let_def e_def k_def)
  have pos: "(0::real) < 2 powi e" by simp
  have "\<bar>of_int k - r / 2 powi e\<bar> \<le> 1 / 2" unfolding k_def by (rule round_even_error)
  then have "\<bar>of_int k - r / 2 powi e\<bar> * 2 powi e \<le> 1 / 2 * 2 powi e"
    using pos by (simp add: mult_right_mono)
  moreover have "\<bar>of_int k - r / 2 powi e\<bar> * 2 powi e = \<bar>of_int k * 2 powi e - r\<bar>"
  proof -
    have "\<bar>of_int k - r / 2 powi e\<bar> * 2 powi e = \<bar>(of_int k - r / 2 powi e) * 2 powi e\<bar>"
      using pos by (simp add: abs_mult)
    also have "(of_int k - r / 2 powi e) * 2 powi e = of_int k * 2 powi e - r"
      using pos by (simp add: field_simps)
    finally show ?thesis .
  qed
  ultimately have err: "\<bar>rnd r - r\<bar> \<le> 2 powi e / 2" by (simp add: c)
  show ?thesis
  proof (cases "\<lfloor>log 2 \<bar>r\<bar>\<rfloor> - 52 \<ge> - 1074")
    case True
    then have e: "e = \<lfloor>log 2 \<bar>r\<bar>\<rfloor> - 52" by (simp add: e_def ulp_exponent_def)
    have "(2::real) powi e = 2 powi \<lfloor>log 2 \<bar>r\<bar>\<rfloor> / 2 powi 52"
      unfolding e by (rule power_int_diff) simp
    moreover have "(2::real) powi 52 = 2 ^ 52" by simp
    ultimately have "(2::real) powi e = 2 powi \<lfloor>log 2 \<bar>r\<bar>\<rfloor> / 2 ^ 52" by simp
    then have "2 powi e / 2 \<le> \<bar>r\<bar> / 2 ^ 53"
      using pow2_floor_log_le[OF False] by (simp add: field_simps)
    moreover have "(0::real) \<le> 1 / 2 ^ 1075" by simp
    ultimately show ?thesis using err by linarith
  next
    case False
    then have e: "e = - 1074" by (simp add: e_def ulp_exponent_def)
    have "(2::real) powi e / 2 = 1 / 2 ^ 1075"
      by (simp add: e power_int_minus field_simps)
    moreover have "0 \<le> \<bar>r\<bar> / 2 ^ 53" by simp
    ultimately show ?thesis using err by linarith
  qed
qed

lemma fl_rnd: "fl r = Some c \<Longrightarrow> c = rnd r"
  by (simp add: fl_def Let_def split: if_splits)

lemma fl_error:
  assumes "fl r = Some c"
  shows "\<bar>c - r\<bar> \<le> \<bar>r\<bar> / 2 ^ 53 + 1 / 2 ^ 1075"
  using rnd_error[of r] fl_rnd[OF assms] by simp

text \<open>Evaluation of a rounding: the double \<open>m / 2 ^ k\<close> nearest to \<open>r\<close>.\<close>

lemma rnd_eval:
  fixes m :: int and k :: nat
  assumes "2 ^ 52 \<le> r * 2 ^ k" and "r * 2 ^ k < 2 ^ 53" and "k \<le> 1074"
    and "of_int m - 1 / 2 < r * 2 ^ k" and "r * 2 ^ k < of_int m + 1 / 2"
  shows "rnd r = of_int m / 2 ^ k"
proof -
  define e :: int where "e = - int k"
  have pe: "(2::real) powi e = 1 / 2 ^ k"
    by (simp add: e_def power_int_minus field_simps)
  have pk: "(0::real) < 2 ^ k" by simp
  have lo: "2 ^ 52 / 2 ^ k \<le> r" using assms(1) pk by (simp add: field_simps)
  have hi: "r < 2 ^ 53 / 2 ^ k" using assms(2) pk by (simp add: field_simps)
  have "(0::real) < 2 ^ 52 / 2 ^ k" by simp
  then have rpos: "0 < r" using lo by linarith
  have "(2::real) powi (e + 52) = 2 ^ 52 / 2 ^ k" "(2::real) powi (e + 52 + 1) = 2 ^ 53 / 2 ^ k"
    by (simp_all add: power_int_add pe)
  then have "\<lfloor>log 2 \<bar>r\<bar>\<rfloor> = e + 52"
    using floor_log_pow2[of "e + 52" r] lo hi by simp
  then have ue: "ulp_exponent r = e"
    using assms(3) by (simp add: ulp_exponent_def e_def)
  have q: "r / 2 powi e = r * 2 ^ k" by (simp add: pe)
  have "\<bar>r * 2 ^ k - of_int m\<bar> < 1 / 2" using assms(4,5) by linarith
  then have re: "round_even (r / 2 powi e) = m" using q round_even_unique by simp
  have c: "(of_int m :: real) * 2 powi e = of_int m / 2 ^ k" by (simp add: pe)
  show ?thesis using rpos ue re c by (simp add: rnd_def Let_def)
qed

lemma fl_eval:
  fixes m :: int and k :: nat
  assumes "2 ^ 52 \<le> r * 2 ^ k" and "r * 2 ^ k < 2 ^ 53" and "k \<le> 1074"
    and "of_int m - 1 / 2 < r * 2 ^ k" and "r * 2 ^ k < of_int m + 1 / 2"
  shows "fl r = Some (of_int m / 2 ^ k)"
proof -
  have pk: "(0::real) < 2 ^ k" by simp
  have "(0::real) < 2 ^ 52" "(0::real) < 2 ^ 53" by simp_all
  then have "\<bar>of_int m :: real\<bar> \<le> 2 ^ 53 + 1" using assms(1,2,4,5) by linarith
  then have "\<bar>of_int m / 2 ^ k :: real\<bar> \<le> (2 ^ 53 + 1) / 2 ^ k"
    using pk by (simp add: divide_right_mono)
  also have "\<dots> \<le> 2 ^ 53 + 1" using pk by (simp add: field_simps)
  also have "\<dots> \<le> max_double" by (simp add: max_double_def)
  finally have "\<bar>of_int m / 2 ^ k :: real\<bar> \<le> max_double" .
  then show ?thesis using rnd_eval[OF assms] by (simp add: fl_def)
qed

lemma fl_zero: "fl 0 = Some 0"
  by (simp add: fl_def rnd_def max_double_def)

lemma rnd_098: "rnd 0.98 = 8827055269646172 / 2 ^ 53"
  using rnd_eval[of "0.98" 53 8827055269646172] by simp

lemma rnd_00005: "rnd 0.0005 = 4611686018427388 / 2 ^ 63"
  using rnd_eval[of "0.0005" 63 4611686018427388] by simp

lemma fl_4: "fl 4 = Some 4"
  using fl_eval[of 4 50 4503599627370496] by simp

lemma round_even_nonneg: "0 \<le> q \<Longrightarrow> 0 \<le> round_even q"
  unfolding round_even_def Let_def by (auto; linarith)

lemma fl_nonneg:
  assumes "fl r = Some c" and "0 \<le> r"
  shows "0 \<le> c"
proof (cases "r = 0")
  case True
  then show ?thesis using assms fl_rnd[OF assms(1)] by (simp add: rnd_def)
next
  case False
  have "0 \<le> r / 2 powi ulp_exponent r" using assms(2) by simp
  then have "0 \<le> round_even (r / 2 powi ulp_exponent r)" by (rule round_even_nonneg)
  moreover have "c = of_int (round_even (r / 2 powi ulp_exponent r)) * 2 powi ulp_exponent r"
    using fl_rnd[OF assms(1)] False by (simp add: rnd_def Let_def)
  ultimately show ?thesis by simp
qed

subsection \<open>One step in doubles, evaluated\<close>

text \<open>The roundings of the step of \<open>pushed_entity\<close>, in the order of the program.\<close>

lemma fl_1: "fl 1 = Some 1"
  using fl_eval[of 1 52 4503599627370496] by simp

lemma fl_900: "fl 900 = Some 900"
  using fl_eval[of 900 43 7916483719987200] by simp

lemma fl_700: "fl 700 = Some 700"
  using fl_eval[of 700 43 6157265115545600] by simp

lemma step_vx_damped: "fl (8827055269646172 / 2 ^ 51) = Some (8827055269646172 / 2 ^ 51)"
  using fl_eval[of "8827055269646172 / 2 ^ 51" 51 8827055269646172] by simp

lemma step_vy_damped: "fl (8827055269646172 / 2 ^ 53) = Some (8827055269646172 / 2 ^ 53)"
  using fl_eval[of "8827055269646172 / 2 ^ 53" 53 8827055269646172] by simp

lemma step_vx_squared:
  "fl (8827055269646172 / 2 ^ 51 * (8827055269646172 / 2 ^ 51)) = Some (8650514164253248 / 2 ^ 49)"
  using fl_eval[of "8827055269646172 / 2 ^ 51 * (8827055269646172 / 2 ^ 51)" 49 8650514164253248]
  by simp

lemma step_vy_squared:
  "fl (8827055269646172 / 2 ^ 53 * (8827055269646172 / 2 ^ 53)) = Some (8650514164253248 / 2 ^ 53)"
  using fl_eval[of "8827055269646172 / 2 ^ 53 * (8827055269646172 / 2 ^ 53)" 53 8650514164253248]
  by simp

lemma step_sum:
  "fl (8650514164253248 / 2 ^ 49 + 8650514164253248 / 2 ^ 53) = Some (4595585649759538 / 2 ^ 48)"
  using fl_eval[of "8650514164253248 / 2 ^ 49 + 8650514164253248 / 2 ^ 53" 48 4595585649759538]
  by simp

lemma step_speed:
  "fl (sqrt (4595585649759538 / 2 ^ 48)) = Some (4549360154989518 / 2 ^ 50)"
proof -
  define s where "s = sqrt (4595585649759538 / 2 ^ 48)"
  have lo: "(4549360154989518 - 1 / 2) / 2 ^ 50 < s"
    unfolding s_def by (rule real_less_rsqrt) (simp add: power2_eq_square)
  have hi: "s < (4549360154989518 + 1 / 2) / 2 ^ 50"
    unfolding s_def by (rule real_less_lsqrt) (simp_all add: power2_eq_square)
  have "2 ^ 52 \<le> s * 2 ^ 50" "s * 2 ^ 50 < 2 ^ 53"
    "of_int 4549360154989518 - 1 / 2 < s * 2 ^ 50" "s * 2 ^ 50 < of_int 4549360154989518 + 1 / 2"
    using lo hi by simp_all
  then have "fl s = Some (of_int 4549360154989518 / 2 ^ 50)"
    using fl_eval[of s 50 4549360154989518] by simp
  then show ?thesis by (simp add: s_def)
qed

lemma step_qx:
  "fl (8827055269646172 / 2 ^ 51 / (4549360154989518 / 2 ^ 50)) = Some (8738266804301597 / 2 ^ 53)"
  using fl_eval[of "8827055269646172 / 2 ^ 51 / (4549360154989518 / 2 ^ 50)" 53 8738266804301597]
  by simp

lemma step_vx_clamped:
  "fl (8738266804301597 / 2 ^ 53 * 3) = Some (6553700103226198 / 2 ^ 51)"
  using fl_eval[of "8738266804301597 / 2 ^ 53 * 3" 51 6553700103226198]
  by simp

lemma step_qy:
  "fl (8827055269646172 / 2 ^ 53 / (4549360154989518 / 2 ^ 50)) = Some (8738266804301597 / 2 ^ 55)"
  using fl_eval[of "8827055269646172 / 2 ^ 53 / (4549360154989518 / 2 ^ 50)" 55 8738266804301597]
  by simp

lemma step_vy_clamped:
  "fl (8738266804301597 / 2 ^ 55 * 3) = Some (6553700103226198 / 2 ^ 53)"
  using fl_eval[of "8738266804301597 / 2 ^ 55 * 3" 53 6553700103226198]
  by simp

lemma step_vx_exact:
  "fl (6553700103226198 / 2 ^ 51) = Some (6553700103226198 / 2 ^ 51)"
  using fl_eval[of "6553700103226198 / 2 ^ 51" 51 6553700103226198]
  by simp

lemma step_vy_exact:
  "fl (6553700103226198 / 2 ^ 53) = Some (6553700103226198 / 2 ^ 53)"
  using fl_eval[of "6553700103226198 / 2 ^ 53" 53 6553700103226198]
  by simp

lemma step_x:
  "fl (500 + 6553700103226198 / 2 ^ 51) = Some (8847293804264455 / 2 ^ 44)"
  using fl_eval[of "500 + 6553700103226198 / 2 ^ 51" 44 8847293804264455]
  by simp

lemma step_y:
  "fl (400 + 6553700103226198 / 2 ^ 53) = Some (7049674613280514 / 2 ^ 44)"
  using fl_eval[of "400 + 6553700103226198 / 2 ^ 53" 44 7049674613280514]
  by simp

lemma entity_d_fields:
  "x (entity_d px py m) = px" "y (entity_d px py m) = py"
  "vx (entity_d px py m) = 0" "vy (entity_d px py m) = 0"
  "ax (entity_d px py m) = 0" "ay (entity_d px py m) = 0"
  "mass (entity_d px py m) = m" "maxSpeed (entity_d px py m) = 3"
  "originalX (entity_d px py m) = px" "originalY (entity_d px py m) = py"
  by (simp_all add: entity_d_def entity_at_def sample_entity_fields)

lemma entity_d_damping: "damping (entity_d px py m) = 8827055269646172 / 2 ^ 53"
  using rnd_098 by (simp add: entity_d_def)

lemma pushed_entity_step: "update_d pushed_entity 1 1000 800 = Some pushed_entity_after"
proof -
  have l: "limitSpeed_d (pushed_entity\<lparr>vx := 8827055269646172 / 2 ^ 51, vy := 8827055269646172 / 2 ^ 53\<rparr>)
      = Some (pushed_entity\<lparr>vx := 6553700103226198 / 2 ^ 51, vy := 6553700103226198 / 2 ^ 53\<rparr>)"
    using step_vx_squared step_vy_squared step_sum step_speed step_qx step_qy
      step_vx_clamped step_vy_clamped
    by (simp add: limitSpeed_d_def d_mul_def d_add_def d_sqrt_def d_div_def pushed_entity_def
        entity_d_fields)
  have i: "integrate_d pushed_entity 1
      = Some (pushed_entity\<lparr>x := 8847293804264455 / 2 ^ 44, y := 7049674613280514 / 2 ^ 44,
        vx := 6553700103226198 / 2 ^ 51, vy := 6553700103226198 / 2 ^ 53\<rparr>)"
    using fl_zero fl_1 fl_4 step_vx_damped step_vy_damped l step_vx_exact step_vy_exact
      step_x step_y
    by (simp add: integrate_d_def applyForce_d_def d_mul_def d_add_def d_sub_def d_div_def
        pushed_entity_def entity_d_fields entity_d_damping)
  have u: "update_d pushed_entity 1 1000 800 = Some pushed_entity_after"
    using i fl_900 fl_700
    by (simp add: update_d_def boundaryBounce_d_def bounce_x_d_def bounce_y_d_def d_sub_def
        pushed_entity_def pushed_entity_after_def entity_d_fields)
  show ?thesis by (rule u)
qed

text \<open>
  C2, as stated, fails of the numbers the program computes. The point mass of mass 2 at
  rest at its rest position \<open>(500, 400)\<close>, with the accumulated acceleration
  \<open>(4, 1)\<close>, makes one step with the time delta 1 in a viewport 1000 wide and 800 high.
  Its damped velocity \<open>(3.92, 0.98)\<close> has the computed length 4.04 > 3, so the speed
  limit applies: each component is divided by the speed and multiplied by 3, with a
  rounding after each operation. The step returns with the velocity
  \<open>(6553700103226198 / 2 ^ 51, 6553700103226198 / 2 ^ 53)\<close>, about
  \<open>(2.9104, 0.7276)\<close>, whose length is greater than \<open>maxSpeed = 3\<close>: the squared
  length exceeds 9 by about \<open>2.4e-15\<close>.
\<close>

theorem clamp_rounds_above_maxSpeed:
  "update_d pushed_entity 1 1000 800 = Some pushed_entity_after
   \<and> maxSpeed pushed_entity_after = 3
   \<and> 3 < magnitude (vx pushed_entity_after) (vy pushed_entity_after)"
proof -
  have u: "update_d pushed_entity 1 1000 800 = Some pushed_entity_after"
    by (rule pushed_entity_step)
  have m: "maxSpeed pushed_entity_after = 3"
    by (simp add: pushed_entity_after_def entity_d_fields)
  have s: "3 < magnitude (vx pushed_entity_after) (vy pushed_entity_after)"
    unfolding magnitude_def
    by (rule real_less_rsqrt) (simp add: pushed_entity_after_def power2_eq_square)
  show ?thesis using u m s by simp
qed

subsection \<open>The speed limit in doubles\<close>

text \<open>
  The rounding error once more, with the constants \<open>1.2e-16\<close> (above \<open>1 / 2 ^ 53\<close>)
  and \<open>1e-30\<close> written as fractions of numerals, and the arithmetic of the speed limit.
\<close>

lemma fl_err:
  assumes "fl r = Some c"
  shows "\<bar>c - r\<bar> \<le> \<bar>r\<bar> * (12 / 100000000000000000) + (1 / 1000000000000000000000000000000)"
proof -
  have "\<bar>r\<bar> / 2 ^ 53 \<le> \<bar>r\<bar> * (12 / 100000000000000000)" by simp
  moreover have "(1::real) / 2 ^ 1075 \<le> (1 / 1000000000000000000000000000000)" by simp
  ultimately show ?thesis using fl_error[OF assms] by linarith
qed

lemma square_le:
  fixes r s c d :: real
  assumes "0 \<le> r" and "r \<le> s * c" and "c * c \<le> d" and "0 \<le> s"
  shows "r * r \<le> (s * s) * d"
proof -
  have "r * r \<le> (s * c) * (s * c)" using assms(1,2) by (intro mult_mono) linarith+
  also have "\<dots> = (s * s) * (c * c)" by (simp add: mult_ac)
  also have "\<dots> \<le> (s * s) * d" using assms(3) by (intro mult_left_mono) simp_all
  finally show ?thesis .
qed

text \<open>
  The arithmetic of the speed limit. \<open>A\<close> and \<open>B\<close> are the exact squares of the two
  components, \<open>p\<close> and \<open>q\<close> the rounded ones, \<open>t\<close> their rounded sum, \<open>r\<close> its
  exact square root and \<open>s\<close> the rounded one, the speed the code compares.
\<close>

lemma speed_not_clamped:
  fixes A B p q z t r s :: real
  assumes ep: "\<bar>p - A\<bar> \<le> \<bar>A\<bar> * (12 / 100000000000000000) + (1 / 1000000000000000000000000000000)"
    and eq: "\<bar>q - B\<bar> \<le> \<bar>B\<bar> * (12 / 100000000000000000) + (1 / 1000000000000000000000000000000)"
    and et: "\<bar>t - z\<bar> \<le> \<bar>z\<bar> * (12 / 100000000000000000) + (1 / 1000000000000000000000000000000)"
    and es: "\<bar>s - r\<bar> \<le> \<bar>r\<bar> * (12 / 100000000000000000) + (1 / 1000000000000000000000000000000)"
    and z: "z = p + q" and rr: "r * r = t"
    and A0: "0 \<le> A" and B0: "0 \<le> B" and p0: "0 \<le> p" and q0: "0 \<le> q" and r0: "0 \<le> r"
    and s3: "s \<le> 3"
  shows "A + B \<le> (900000000000000441 / 100000000000000000)"
proof -
  have g1: "r \<le> 3 * (1000000000000000123 / 1000000000000000000)" using es r0 s3 by linarith
  have "r * r \<le> (3 * 3) * (1000000000000000247 / 1000000000000000000)"
    by (rule square_le[OF r0 g1]) simp_all
  then have g2: "t \<le> (900000000000000223 / 100000000000000000)" using rr by simp
  have g3: "z \<le> (900000000000000332 / 100000000000000000)" using et p0 q0 z g2 by linarith
  show ?thesis using ep eq A0 B0 g3 z by linarith
qed

lemma speed_clamped:
  fixes A B p q z t r s :: real
  assumes ep: "\<bar>p - A\<bar> \<le> \<bar>A\<bar> * (12 / 100000000000000000) + (1 / 1000000000000000000000000000000)"
    and eq: "\<bar>q - B\<bar> \<le> \<bar>B\<bar> * (12 / 100000000000000000) + (1 / 1000000000000000000000000000000)"
    and et: "\<bar>t - z\<bar> \<le> \<bar>z\<bar> * (12 / 100000000000000000) + (1 / 1000000000000000000000000000000)"
    and es: "\<bar>s - r\<bar> \<le> \<bar>r\<bar> * (12 / 100000000000000000) + (1 / 1000000000000000000000000000000)"
    and z: "z = p + q" and rr: "r * r = t"
    and A0: "0 \<le> A" and B0: "0 \<le> B" and p0: "0 \<le> p" and q0: "0 \<le> q" and r0: "0 \<le> r"
    and s3: "3 < s"
  shows "A + B \<le> (s * s) * (1000000000000000485 / 1000000000000000000)"
proof -
  define S where "S = s * s"
  have "3 * 3 < s * s" using s3 by (intro mult_strict_mono) simp_all
  then have S9: "9 < S" by (simp add: S_def)
  have f1: "r \<le> s * (1000000000000000121 / 1000000000000000000)" using es r0 s3 by linarith
  have "r * r \<le> (s * s) * (1000000000000000243 / 1000000000000000000)"
    by (rule square_le[OF r0 f1]) (use s3 in simp_all)
  then have f2: "t \<le> S * (1000000000000000243 / 1000000000000000000)" using rr by (simp add: S_def)
  have f3: "z \<le> S * (1000000000000000364 / 1000000000000000000)" using et p0 q0 z f2 S9 by linarith
  have "A + B \<le> S * (1000000000000000485 / 1000000000000000000)" using ep eq A0 B0 f3 z S9 by linarith
  then show ?thesis by (simp only: S_def)
qed

lemma abs_le_of_square:
  fixes v g :: real
  assumes "v * v \<le> g * g" and "0 \<le> g"
  shows "\<bar>v\<bar> \<le> g"
proof -
  have "v\<^sup>2 \<le> g\<^sup>2" using assms(1) by (simp add: power2_eq_square)
  then show ?thesis using assms(2) by (simp add: abs_le_square_iff[symmetric])
qed

lemma square_of_abs_le:
  fixes v g :: real
  assumes "\<bar>v\<bar> \<le> g"
  shows "v * v \<le> g * g"
proof -
  have "\<bar>v\<bar> * \<bar>v\<bar> \<le> g * g" using assms by (intro mult_mono) simp_all
  then show ?thesis by simp
qed

text \<open>
  One component of the clamped velocity: \<open>w\<close> is the exact quotient of the component by
  the speed, \<open>qx\<close> the rounded one, \<open>v\<close> the rounded product with 3.
\<close>

lemma clamp_component:
  fixes w qx y v k :: real
  assumes eq: "\<bar>qx - w\<bar> \<le> \<bar>w\<bar> * (12 / 100000000000000000) + (1 / 1000000000000000000000000000000)"
    and ev: "\<bar>v - y\<bar> \<le> \<bar>y\<bar> * (12 / 100000000000000000) + (1 / 1000000000000000000000000000000)"
    and y: "y = qx * 3" and w: "\<bar>w\<bar> = k" and k2: "k \<le> 2"
  shows "v * v \<le> (k * k) * (900000000000000433 / 100000000000000000) + 61 * (1 / 1000000000000000000000000000000)"
proof -
  define K where "K = k * k"
  have k0: "0 \<le> k" using w by linarith
  have K0: "0 \<le> K" by (simp add: K_def)
  have 1: "\<bar>v\<bar> \<le> k * (3000000000000000721 / 1000000000000000000) + 5 * (1 / 1000000000000000000000000000000)"
    using eq ev y w by linarith
  have "v * v \<le> (k * (3000000000000000721 / 1000000000000000000) + 5 * (1 / 1000000000000000000000000000000)) * (k * (3000000000000000721 / 1000000000000000000) + 5 * (1 / 1000000000000000000000000000000))"
    by (rule square_of_abs_le[OF 1])
  also have "\<dots> = K * ((3000000000000000721 / 1000000000000000000) * (3000000000000000721 / 1000000000000000000))
       + k * (10 * (1 / 1000000000000000000000000000000) * (3000000000000000721 / 1000000000000000000)) + 25 * (1 / 1000000000000000000000000000000) * (1 / 1000000000000000000000000000000)"
    by (simp add: K_def algebra_simps)
  also have "\<dots> \<le> K * (900000000000000433 / 100000000000000000) + 61 * (1 / 1000000000000000000000000000000)"
  proof -
    have "K * ((3000000000000000721 / 1000000000000000000) * (3000000000000000721 / 1000000000000000000)) \<le> K * (900000000000000433 / 100000000000000000)"
      using K0 by (intro mult_left_mono) simp_all
    moreover have "k * (10 * (1 / 1000000000000000000000000000000) * (3000000000000000721 / 1000000000000000000)) \<le> 2 * (10 * (1 / 1000000000000000000000000000000) * (3000000000000000721 / 1000000000000000000))"
      using k2 by (intro mult_right_mono) simp_all
    ultimately show ?thesis by simp
  qed
  finally show ?thesis by (simp only: K_def)
qed

text \<open>The clamped velocity, from the bound on the exact squares by the computed speed.\<close>

lemma clamped_velocity:
  fixes a b s qx qy yx yy va vb wx wy :: real
  assumes s3: "3 < s"
    and AB: "a * a + b * b \<le> (s * s) * (1000000000000000485 / 1000000000000000000)"
    and wx: "wx = a / s" and wy: "wy = b / s"
    and eqx: "\<bar>qx - wx\<bar> \<le> \<bar>wx\<bar> * (12 / 100000000000000000) + (1 / 1000000000000000000000000000000)"
    and eva: "\<bar>va - yx\<bar> \<le> \<bar>yx\<bar> * (12 / 100000000000000000) + (1 / 1000000000000000000000000000000)"
    and yx: "yx = qx * 3"
    and eqy: "\<bar>qy - wy\<bar> \<le> \<bar>wy\<bar> * (12 / 100000000000000000) + (1 / 1000000000000000000000000000000)"
    and evb: "\<bar>vb - yy\<bar> \<le> \<bar>yy\<bar> * (12 / 100000000000000000) + (1 / 1000000000000000000000000000000)"
    and yy: "yy = qy * 3"
  shows "va * va + vb * vb \<le> (90000000000000087 / 10000000000000000)"
proof -
  define k where "k = \<bar>a\<bar> / s"
  define l where "l = \<bar>b\<bar> / s"
  have s0: "0 < s" using s3 by linarith
  have ss: "0 < s * s" using s0 by simp
  have k0: "0 \<le> k" and l0: "0 \<le> l" using s0 by (simp_all add: k_def l_def)
  have kw: "\<bar>wx\<bar> = k" and lw: "\<bar>wy\<bar> = l" using s0 by (simp_all add: wx wy k_def l_def)
  have kk: "k * k = (a * a) / (s * s)" and ll: "l * l = (b * b) / (s * s)"
    by (simp_all add: k_def l_def)
  have "k * k + l * l = (a * a + b * b) / (s * s)"
    by (simp only: kk ll add_divide_distrib)
  also have "\<dots> \<le> (1000000000000000485 / 1000000000000000000)"
    using AB ss by (simp add: pos_divide_le_eq mult.commute)
  finally have sum: "k * k + l * l \<le> (1000000000000000485 / 1000000000000000000)" .
  have "0 \<le> k * k" "0 \<le> l * l" by simp_all
  then have "k * k \<le> 2 * 2" "l * l \<le> 2 * 2" using sum by linarith+
  then have k2: "k \<le> 2" and l2: "l \<le> 2"
    using abs_le_of_square[of k 2] abs_le_of_square[of l 2] by linarith+
  define K where "K = k * k"
  define L where "L = l * l"
  have a: "va * va \<le> K * (900000000000000433 / 100000000000000000) + 61 * (1 / 1000000000000000000000000000000)"
    unfolding K_def by (rule clamp_component[OF eqx eva yx kw k2])
  have b: "vb * vb \<le> L * (900000000000000433 / 100000000000000000) + 61 * (1 / 1000000000000000000000000000000)"
    unfolding L_def by (rule clamp_component[OF eqy evb yy lw l2])
  have "K + L \<le> (1000000000000000485 / 1000000000000000000)" using sum by (simp only: K_def L_def)
  then show ?thesis using a b by linarith
qed

text \<open>A bounce: the component is halved and rounded, so it is not longer, up to \<open>1e-30\<close>.\<close>

lemma bounce_component:
  fixes v h w :: real
  assumes ew: "\<bar>w - h\<bar> \<le> \<bar>h\<bar> * (12 / 100000000000000000) + (1 / 1000000000000000000000000000000)"
    and h: "h = v * (- 1 / 2)" and v: "v * v \<le> 4 * 4"
  shows "w * w \<le> v * v + 9 * (1 / 1000000000000000000000000000000)"
proof -
  define m where "m = \<bar>v\<bar>"
  have m4: "m \<le> 4" unfolding m_def by (rule abs_le_of_square[OF v]) simp
  have m0: "0 \<le> m" by (simp add: m_def)
  have mm: "m * m = v * v" by (simp add: m_def)
  have 1: "\<bar>w\<bar> \<le> m + (1 / 1000000000000000000000000000000)" using ew h m_def by linarith
  have "w * w \<le> (m + (1 / 1000000000000000000000000000000)) * (m + (1 / 1000000000000000000000000000000))" by (rule square_of_abs_le[OF 1])
  also have "\<dots> = m * m + m * (2 * (1 / 1000000000000000000000000000000)) + (1 / 1000000000000000000000000000000) * (1 / 1000000000000000000000000000000)" by (simp add: algebra_simps)
  also have "\<dots> \<le> m * m + 9 * (1 / 1000000000000000000000000000000)"
  proof -
    have "m * (2 * (1 / 1000000000000000000000000000000)) \<le> 4 * (2 * (1 / 1000000000000000000000000000000))" using m4 by (intro mult_right_mono) simp_all
    then show ?thesis by simp
  qed
  finally show ?thesis by (simp only: mm)
qed

text \<open>The speed limit, the step up to the position update, the boundary check, the step.\<close>

lemma limitSpeed_d_speed:
  assumes m: "maxSpeed e = 3" and l: "limitSpeed_d e = Some e'"
  shows "vx e' * vx e' + vy e' * vy e' \<le> (90000000000000087 / 10000000000000000) \<and> maxSpeed e' = 3"
proof -
  obtain p q t s where p: "fl (vx e * vx e) = Some p" and q: "fl (vy e * vy e) = Some q"
    and t: "fl (p + q) = Some t" and s: "fl (sqrt t) = Some s"
    and rest: "(if s > 3 then do {
         qx \<leftarrow> d_div (vx e) s;
         vx1 \<leftarrow> d_mul qx 3;
         qy \<leftarrow> d_div (vy e) s;
         vy1 \<leftarrow> d_mul qy 3;
         Some (e\<lparr>vx := vx1, vy := vy1\<rparr>)
       } else Some e) = Some e'"
    using l m
    by (auto simp add: limitSpeed_d_def d_mul_def d_add_def d_sqrt_def bind_eq_Some_conv
        split: if_splits)
  define A where "A = vx e * vx e"
  define B where "B = vy e * vy e"
  define z where "z = p + q"
  define r where "r = sqrt t"
  have A0: "0 \<le> A" and B0: "0 \<le> B" by (simp_all add: A_def B_def)
  have p0: "0 \<le> p" using fl_nonneg[OF p] by simp
  have q0: "0 \<le> q" using fl_nonneg[OF q] by simp
  have t0: "0 \<le> t" using fl_nonneg[OF t] p0 q0 by simp
  have r0: "0 \<le> r" and rr: "r * r = t" using t0 by (simp_all add: r_def)
  have ep: "\<bar>p - A\<bar> \<le> \<bar>A\<bar> * (12 / 100000000000000000) + (1 / 1000000000000000000000000000000)" unfolding A_def by (rule fl_err[OF p])
  have eq: "\<bar>q - B\<bar> \<le> \<bar>B\<bar> * (12 / 100000000000000000) + (1 / 1000000000000000000000000000000)" unfolding B_def by (rule fl_err[OF q])
  have et: "\<bar>t - z\<bar> \<le> \<bar>z\<bar> * (12 / 100000000000000000) + (1 / 1000000000000000000000000000000)" unfolding z_def by (rule fl_err[OF t])
  have es: "\<bar>s - r\<bar> \<le> \<bar>r\<bar> * (12 / 100000000000000000) + (1 / 1000000000000000000000000000000)" unfolding r_def by (rule fl_err[OF s])
  show ?thesis
  proof (cases "s > 3")
    case False
    then have e': "e' = e" using rest by simp
    have "A + B \<le> (900000000000000441 / 100000000000000000)"
      using False by (intro speed_not_clamped[OF ep eq et es z_def rr A0 B0 p0 q0 r0]) simp
    then show ?thesis using m by (simp add: e' A_def B_def)
  next
    case True
    then obtain qx va qy vb where qx: "fl (vx e / s) = Some qx" and va: "fl (qx * 3) = Some va"
      and qy: "fl (vy e / s) = Some qy" and vb: "fl (qy * 3) = Some vb"
      and e': "e' = e\<lparr>vx := va, vy := vb\<rparr>"
      using rest
      by (auto simp add: d_div_def d_mul_def bind_eq_Some_conv split: if_splits)
    define wx where "wx = vx e / s"
    define wy where "wy = vy e / s"
    define yx where "yx = qx * 3"
    define yy where "yy = qy * 3"
    have AB: "vx e * vx e + vy e * vy e \<le> (s * s) * (1000000000000000485 / 1000000000000000000)"
      unfolding A_def[symmetric] B_def[symmetric]
      by (rule speed_clamped[OF ep eq et es z_def rr A0 B0 p0 q0 r0 True])
    have eqx: "\<bar>qx - wx\<bar> \<le> \<bar>wx\<bar> * (12 / 100000000000000000) + (1 / 1000000000000000000000000000000)" unfolding wx_def by (rule fl_err[OF qx])
    have eva: "\<bar>va - yx\<bar> \<le> \<bar>yx\<bar> * (12 / 100000000000000000) + (1 / 1000000000000000000000000000000)" unfolding yx_def by (rule fl_err[OF va])
    have eqy: "\<bar>qy - wy\<bar> \<le> \<bar>wy\<bar> * (12 / 100000000000000000) + (1 / 1000000000000000000000000000000)" unfolding wy_def by (rule fl_err[OF qy])
    have evb: "\<bar>vb - yy\<bar> \<le> \<bar>yy\<bar> * (12 / 100000000000000000) + (1 / 1000000000000000000000000000000)" unfolding yy_def by (rule fl_err[OF vb])
    have "va * va + vb * vb \<le> (90000000000000087 / 10000000000000000)"
      by (rule clamped_velocity[OF True AB wx_def wy_def eqx eva yx_def eqy evb yy_def])
    then show ?thesis using m by (simp add: e')
  qed
qed

lemma applyForce_d_fields:
  assumes "applyForce_d e fx fy = Some e'"
  shows "maxSpeed e' = maxSpeed e"
  using assms by (auto simp add: applyForce_d_def bind_eq_Some_conv)

lemma integrate_d_speed:
  assumes m: "maxSpeed e = 3" and i: "integrate_d e dt = Some e'"
  shows "vx e' * vx e' + vy e' * vy e' \<le> (90000000000000087 / 10000000000000000) \<and> maxSpeed e' = 3"
proof -
  obtain fx fy e1 vx3 vy3 e4 x5 y5 where e1: "applyForce_d e fx fy = Some e1"
    and e4: "limitSpeed_d (e1\<lparr>vx := vx3, vy := vy3\<rparr>) = Some e4"
    and e': "e' = e4\<lparr>x := x5, y := y5\<rparr>"
    using i by (auto simp add: integrate_d_def Let_def bind_eq_Some_conv)
  have "maxSpeed (e1\<lparr>vx := vx3, vy := vy3\<rparr>) = 3"
    using m applyForce_d_fields[OF e1] by simp
  then show ?thesis using limitSpeed_d_speed[OF _ e4] by (simp add: e')
qed

lemma bounced_speed:
  assumes v: "fl (v * (- 0.5)) = Some w" and b: "v * v \<le> 4 * 4"
  shows "w * w \<le> v * v + 9 * (1 / 1000000000000000000000000000000)"
proof -
  define h where "h = v * (- 0.5)"
  have h: "h = v * (- 1 / 2)" by (simp add: h_def)
  have ew: "\<bar>w - h\<bar> \<le> \<bar>h\<bar> * (12 / 100000000000000000) + (1 / 1000000000000000000000000000000)" unfolding h_def by (rule fl_err[OF v])
  show ?thesis by (rule bounce_component[OF ew h b])
qed

lemma bounce_x_d_speed:
  assumes b: "bounce_x_d e innerWidth = Some e'" and v: "vx e * vx e \<le> 4 * 4"
  shows "vx e' * vx e' \<le> vx e * vx e + 9 * (1 / 1000000000000000000000000000000)
         \<and> vy e' = vy e \<and> maxSpeed e' = maxSpeed e"
proof -
  consider (bounced) w where "fl (vx e * (- 0.5)) = Some w" "vx e' = w" "vy e' = vy e"
      "maxSpeed e' = maxSpeed e"
    | (kept) "e' = e"
    using b
    by (auto simp add: bounce_x_d_def Let_def d_mul_def d_sub_def bind_eq_Some_conv
        split: if_splits)
  then show ?thesis
  proof cases
    case bounced
    then show ?thesis using bounced_speed[OF bounced(1) v] by simp
  next
    case kept
    then show ?thesis by simp
  qed
qed

lemma bounce_y_d_speed:
  assumes b: "bounce_y_d e innerHeight = Some e'" and v: "vy e * vy e \<le> 4 * 4"
  shows "vy e' * vy e' \<le> vy e * vy e + 9 * (1 / 1000000000000000000000000000000)
         \<and> vx e' = vx e \<and> maxSpeed e' = maxSpeed e"
proof -
  consider (bounced) w where "fl (vy e * (- 0.5)) = Some w" "vy e' = w" "vx e' = vx e"
      "maxSpeed e' = maxSpeed e"
    | (kept) "e' = e"
    using b
    by (auto simp add: bounce_y_d_def Let_def d_mul_def d_sub_def bind_eq_Some_conv
        split: if_splits)
  then show ?thesis
  proof cases
    case bounced
    then show ?thesis using bounced_speed[OF bounced(1) v] by simp
  next
    case kept
    then show ?thesis by simp
  qed
qed

lemma update_d_speed:
  assumes m: "maxSpeed e = 3" and u: "update_d e dt innerWidth innerHeight = Some e'"
  shows "maxSpeed e' = 3 \<and> magnitude (vx e') (vy e') \<le> 3.0000000000000015"
proof -
  obtain e5 e6 e7 where e5: "integrate_d e dt = Some e5"
    and e6: "bounce_x_d e5 innerWidth = Some e6"
    and e7: "bounce_y_d e6 innerHeight = Some e7"
    and e': "e' = e7\<lparr>ax := 0, ay := 0\<rparr>"
    using u by (auto simp add: update_d_def boundaryBounce_d_def bind_eq_Some_conv)
  define X5 where "X5 = vx e5 * vx e5"
  define Y5 where "Y5 = vy e5 * vy e5"
  define X6 where "X6 = vx e6 * vx e6"
  define Y7 where "Y7 = vy e7 * vy e7"
  have X0: "0 \<le> X5" and Y0: "0 \<le> Y5" by (simp_all add: X5_def Y5_def)
  have 5: "X5 + Y5 \<le> (90000000000000087 / 10000000000000000)" "maxSpeed e5 = 3"
    using integrate_d_speed[OF m e5] by (simp_all add: X5_def Y5_def)
  have "vx e5 * vx e5 \<le> 4 * 4" using 5(1) X0 Y0 unfolding X5_def Y5_def by linarith
  then have 6: "X6 \<le> X5 + 9 * (1 / 1000000000000000000000000000000)" "vy e6 = vy e5" "maxSpeed e6 = 3"
    using bounce_x_d_speed[OF e6] 5(2) by (simp_all add: X5_def X6_def)
  have "vy e5 * vy e5 \<le> 4 * 4" using 5(1) X0 Y0 unfolding X5_def Y5_def by linarith
  then have "vy e6 * vy e6 \<le> 4 * 4" by (simp only: 6(2))
  then have 7: "Y7 \<le> Y5 + 9 * (1 / 1000000000000000000000000000000)" "vx e7 = vx e6" "maxSpeed e7 = 3"
    using bounce_y_d_speed[OF e7] 6(2,3) by (simp_all add: Y5_def Y7_def)
  have "X6 + Y7 \<le> (9000000000000009 / 1000000000000000)" using 5(1) 6(1) 7(1) by linarith
  then have "vx e' * vx e' + vy e' * vy e' \<le> 3.0000000000000015\<^sup>2"
    using 7(2) by (simp add: e' X6_def Y7_def power2_eq_square)
  then have "sqrt (vx e' * vx e' + vy e' * vy e') \<le> 3.0000000000000015"
    by (intro real_le_lsqrt) simp_all
  then show ?thesis using 7(3) by (simp add: magnitude_def e')
qed

subsection \<open>The step returns\<close>

text \<open>
  No operation of a step with moderate numbers overflows: the absolute values stay below
  \<open>2 ^ 1000\<close>.
\<close>

lemma pow2_mono:
  fixes a :: real
  assumes "\<bar>a\<bar> \<le> 2 ^ i" and "i \<le> j"
  shows "\<bar>a\<bar> \<le> 2 ^ j"
proof -
  have "(2::real) ^ i \<le> 2 ^ j" using assms(2) by (simp add: power_increasing)
  then show ?thesis using assms(1) by linarith
qed

lemma fl_total:
  assumes r: "\<bar>r\<bar> \<le> 2 ^ j" and j: "j \<le> 1000"
  shows "\<exists>c. fl r = Some c \<and> \<bar>c\<bar> \<le> 2 ^ (j + 1)"
proof -
  define G :: real where "G = 2 ^ j"
  have G1: "1 \<le> G" by (simp add: G_def)
  have "\<bar>r\<bar> / 2 ^ 53 \<le> \<bar>r\<bar> / 2" by (simp add: field_simps)
  moreover have "(1::real) / 2 ^ 1075 \<le> 1 / 2" by simp
  ultimately have "\<bar>rnd r\<bar> \<le> 2 * G" using rnd_error[of r] r G1 unfolding G_def by linarith
  then have c: "\<bar>rnd r\<bar> \<le> 2 ^ (j + 1)" by (simp add: G_def)
  have "(2::real) ^ (j + 1) \<le> 2 ^ 1001" using j by (intro power_increasing) simp_all
  also have "\<dots> \<le> max_double" by (simp add: max_double_def)
  finally have "\<bar>rnd r\<bar> \<le> max_double" using c by linarith
  then show ?thesis using c by (simp add: fl_def)
qed

lemma d_add_total:
  assumes "\<bar>a\<bar> \<le> 2 ^ i" and "\<bar>b\<bar> \<le> 2 ^ i" and "i < 1000"
  shows "\<exists>c. d_add a b = Some c \<and> \<bar>c\<bar> \<le> 2 ^ (i + 2)"
proof -
  have "\<bar>a + b\<bar> \<le> 2 ^ (i + 1)" using assms(1,2) by simp
  then show ?thesis using fl_total[of "a + b" "i + 1"] assms(3) by (simp add: d_add_def)
qed

lemma d_sub_total:
  assumes "\<bar>a\<bar> \<le> 2 ^ i" and "\<bar>b\<bar> \<le> 2 ^ i" and "i < 1000"
  shows "\<exists>c. d_sub a b = Some c \<and> \<bar>c\<bar> \<le> 2 ^ (i + 2)"
proof -
  have "\<bar>a - b\<bar> \<le> 2 ^ (i + 1)" using assms(1,2) by simp
  then show ?thesis using fl_total[of "a - b" "i + 1"] assms(3) by (simp add: d_sub_def)
qed

lemma d_mul_total:
  assumes "\<bar>a\<bar> \<le> 2 ^ i" and "\<bar>b\<bar> \<le> 2 ^ j" and "i + j \<le> 1000"
  shows "\<exists>c. d_mul a b = Some c \<and> \<bar>c\<bar> \<le> 2 ^ (i + j + 1)"
proof -
  have "\<bar>a\<bar> * \<bar>b\<bar> \<le> 2 ^ i * 2 ^ j" using assms(1,2) by (intro mult_mono) simp_all
  then have "\<bar>a * b\<bar> \<le> 2 ^ (i + j)" by (simp add: abs_mult power_add)
  then show ?thesis using fl_total[of "a * b" "i + j"] assms(3) by (simp add: d_mul_def)
qed

lemma d_div_total:
  assumes "\<bar>a\<bar> \<le> 2 ^ i" and "1 / 2 ^ j \<le> \<bar>b\<bar>" and "i + j \<le> 1000"
  shows "\<exists>c. d_div a b = Some c \<and> \<bar>c\<bar> \<le> 2 ^ (i + j + 1)"
proof -
  have "(0::real) < 1 / 2 ^ j" by simp
  then have b0: "0 < \<bar>b\<bar>" using assms(2) by linarith
  have "1 / \<bar>b\<bar> \<le> 2 ^ j" using assms(2) b0 by (simp add: field_simps)
  then have "\<bar>a\<bar> * (1 / \<bar>b\<bar>) \<le> 2 ^ i * 2 ^ j" using assms(1) b0 by (intro mult_mono) simp_all
  then have "\<bar>a / b\<bar> \<le> 2 ^ (i + j)" by (simp add: power_add)
  then show ?thesis using fl_total[of "a / b" "i + j"] assms(3) b0 by (simp add: d_div_def)
qed

lemma d_sqrt_total:
  assumes "0 \<le> a" and "a \<le> 2 ^ i" and "i \<le> 1000"
  shows "\<exists>c. d_sqrt a = Some c \<and> \<bar>c\<bar> \<le> 2 ^ (i + 1)"
proof -
  have "sqrt a \<le> 2 ^ i"
  proof (cases "a \<le> 1")
    case True
    then have "sqrt a \<le> 1" using assms(1) by simp
    moreover have "(1::real) \<le> 2 ^ i" by simp
    ultimately show ?thesis by linarith
  next
    case False
    then have "1 \<le> sqrt a" by simp
    then have "sqrt a * 1 \<le> sqrt a * sqrt a" by (intro mult_left_mono) simp_all
    then have "sqrt a \<le> a" using assms(1) by simp
    then show ?thesis using assms(2) by linarith
  qed
  then have "\<bar>sqrt a\<bar> \<le> 2 ^ i" using assms(1) by simp
  then show ?thesis using fl_total[of "sqrt a" i] assms(1,3) by (simp add: d_sqrt_def)
qed

lemma applyForce_d_total:
  assumes "\<bar>ax e\<bar> \<le> 2 ^ 100" and "\<bar>ay e\<bar> \<le> 2 ^ 100"
    and "\<bar>fx\<bar> \<le> 2 ^ 103" and "\<bar>fy\<bar> \<le> 2 ^ 103" and "1 / 2 ^ 100 \<le> \<bar>mass e\<bar>"
  shows "\<exists>a1 a2. applyForce_d e fx fy = Some (e\<lparr>ax := a1, ay := a2\<rparr>)
           \<and> \<bar>a1\<bar> \<le> 2 ^ 206 \<and> \<bar>a2\<bar> \<le> 2 ^ 206"
proof -
  obtain qx where qx: "d_div fx (mass e) = Some qx" "\<bar>qx\<bar> \<le> 2 ^ 204"
    using d_div_total[OF assms(3) assms(5)] by auto
  obtain qy where qy: "d_div fy (mass e) = Some qy" "\<bar>qy\<bar> \<le> 2 ^ 204"
    using d_div_total[OF assms(4) assms(5)] by auto
  have "\<bar>ax e\<bar> \<le> 2 ^ 204" by (rule pow2_mono[OF assms(1)]) simp
  then obtain a1 where a1: "d_add (ax e) qx = Some a1" "\<bar>a1\<bar> \<le> 2 ^ 206"
    using d_add_total[of "ax e" 204 qx] qx(2) by auto
  have "\<bar>ay e\<bar> \<le> 2 ^ 204" by (rule pow2_mono[OF assms(2)]) simp
  then obtain a2 where a2: "d_add (ay e) qy = Some a2" "\<bar>a2\<bar> \<le> 2 ^ 206"
    using d_add_total[of "ay e" 204 qy] qy(2) by auto
  have "applyForce_d e fx fy = Some (e\<lparr>ax := a1, ay := a2\<rparr>)"
    using qx(1) qy(1) a1(1) a2(1) by (simp add: applyForce_d_def)
  then show ?thesis using a1(2) a2(2) by blast
qed

lemma limitSpeed_d_total:
  assumes "\<bar>vx e\<bar> \<le> 2 ^ 410" and "\<bar>vy e\<bar> \<le> 2 ^ 410" and m: "maxSpeed e = 3"
  shows "\<exists>v1 v2. limitSpeed_d e = Some (e\<lparr>vx := v1, vy := v2\<rparr>)
           \<and> \<bar>v1\<bar> \<le> 2 ^ 414 \<and> \<bar>v2\<bar> \<le> 2 ^ 414"
proof -
  obtain p where p: "d_mul (vx e) (vx e) = Some p" "\<bar>p\<bar> \<le> 2 ^ 821"
    using d_mul_total[OF assms(1) assms(1)] by auto
  obtain q where q: "d_mul (vy e) (vy e) = Some q" "\<bar>q\<bar> \<le> 2 ^ 821"
    using d_mul_total[OF assms(2) assms(2)] by auto
  have p0: "0 \<le> p" using p(1) fl_nonneg[of "vx e * vx e" p] by (simp add: d_mul_def)
  have q0: "0 \<le> q" using q(1) fl_nonneg[of "vy e * vy e" q] by (simp add: d_mul_def)
  obtain t where t: "d_add p q = Some t" "\<bar>t\<bar> \<le> 2 ^ 823"
    using d_add_total[OF p(2) q(2)] by auto
  have t0: "0 \<le> t" using t(1) fl_nonneg[of "p + q" t] p0 q0 by (simp add: d_add_def)
  have "t \<le> 2 ^ 823" using t(2) by linarith
  then obtain s where s: "d_sqrt t = Some s" "\<bar>s\<bar> \<le> 2 ^ 824"
    using d_sqrt_total[OF t0, of 823] by auto
  show ?thesis
  proof (cases "s > 3")
    case False
    have "e\<lparr>vx := vx e, vy := vy e\<rparr> = e" by simp
    moreover have "\<bar>vx e\<bar> \<le> 2 ^ 414" by (rule pow2_mono[OF assms(1)]) simp
    moreover have "\<bar>vy e\<bar> \<le> 2 ^ 414" by (rule pow2_mono[OF assms(2)]) simp
    moreover have "limitSpeed_d e = Some e"
      using p(1) q(1) t(1) s(1) False m by (simp add: limitSpeed_d_def)
    ultimately show ?thesis by metis
  next
    case True
    then have s1: "1 / 2 ^ 0 \<le> \<bar>s\<bar>" by simp
    obtain qx where qx: "d_div (vx e) s = Some qx" "\<bar>qx\<bar> \<le> 2 ^ 411"
      using d_div_total[OF assms(1) s1] by auto
    obtain qy where qy: "d_div (vy e) s = Some qy" "\<bar>qy\<bar> \<le> 2 ^ 411"
      using d_div_total[OF assms(2) s1] by auto
    have 3: "\<bar>3::real\<bar> \<le> 2 ^ 2" by simp
    obtain v1 where v1: "d_mul qx 3 = Some v1" "\<bar>v1\<bar> \<le> 2 ^ 414"
      using d_mul_total[OF qx(2) 3] by auto
    obtain v2 where v2: "d_mul qy 3 = Some v2" "\<bar>v2\<bar> \<le> 2 ^ 414"
      using d_mul_total[OF qy(2) 3] by auto
    have "limitSpeed_d e = Some (e\<lparr>vx := v1, vy := v2\<rparr>)"
      using p(1) q(1) t(1) s(1) True m qx(1) qy(1) v1(1) v2(1) by (simp add: limitSpeed_d_def)
    then show ?thesis using v1(2) v2(2) by blast
  qed
qed

lemma rnd_00005_small: "\<bar>rnd 0.0005\<bar> \<le> 2 ^ 0"
  using rnd_00005 by simp

lemma integrate_d_total:
  assumes h: "moderate e dt innerWidth innerHeight" and m: "maxSpeed e = 3"
  shows "\<exists>e'. integrate_d e dt = Some e' \<and> \<bar>vx e'\<bar> \<le> 2 ^ 414 \<and> \<bar>vy e'\<bar> \<le> 2 ^ 414"
proof -
  have b: "\<bar>x e\<bar> \<le> 2 ^ 100" "\<bar>y e\<bar> \<le> 2 ^ 100" "\<bar>vx e\<bar> \<le> 2 ^ 100" "\<bar>vy e\<bar> \<le> 2 ^ 100"
    "\<bar>ax e\<bar> \<le> 2 ^ 100" "\<bar>ay e\<bar> \<le> 2 ^ 100" "\<bar>damping e\<bar> \<le> 2 ^ 100"
    "\<bar>originalX e\<bar> \<le> 2 ^ 100" "\<bar>originalY e\<bar> \<le> 2 ^ 100"
    "1 / 2 ^ 100 \<le> \<bar>mass e\<bar>" "\<bar>dt\<bar> \<le> 2 ^ 100"
    using h unfolding moderate_def by blast+
  obtain dx where dx: "d_sub (originalX e) (x e) = Some dx" "\<bar>dx\<bar> \<le> 2 ^ 102"
    using d_sub_total[OF b(8) b(1)] by auto
  obtain dy where dy: "d_sub (originalY e) (y e) = Some dy" "\<bar>dy\<bar> \<le> 2 ^ 102"
    using d_sub_total[OF b(9) b(2)] by auto
  obtain fx where fx: "d_mul dx (rnd 0.0005) = Some fx" "\<bar>fx\<bar> \<le> 2 ^ 103"
    using d_mul_total[OF dx(2) rnd_00005_small] by auto
  obtain fy where fy: "d_mul dy (rnd 0.0005) = Some fy" "\<bar>fy\<bar> \<le> 2 ^ 103"
    using d_mul_total[OF dy(2) rnd_00005_small] by auto
  obtain a1 a2 where e1: "applyForce_d e fx fy = Some (e\<lparr>ax := a1, ay := a2\<rparr>)"
    and a1: "\<bar>a1\<bar> \<le> 2 ^ 206" and a2: "\<bar>a2\<bar> \<le> 2 ^ 206"
    using applyForce_d_total[OF b(5) b(6) fx(2) fy(2) b(10)] by blast
  obtain ix where ix: "d_mul a1 dt = Some ix" "\<bar>ix\<bar> \<le> 2 ^ 307"
    using d_mul_total[OF a1 b(11)] by auto
  obtain iy where iy: "d_mul a2 dt = Some iy" "\<bar>iy\<bar> \<le> 2 ^ 307"
    using d_mul_total[OF a2 b(11)] by auto
  have "\<bar>vx e\<bar> \<le> 2 ^ 307" by (rule pow2_mono[OF b(3)]) simp
  then obtain vx2 where vx2: "d_add (vx e) ix = Some vx2" "\<bar>vx2\<bar> \<le> 2 ^ 309"
    using d_add_total[of "vx e" 307 ix] ix(2) by auto
  have "\<bar>vy e\<bar> \<le> 2 ^ 307" by (rule pow2_mono[OF b(4)]) simp
  then obtain vy2 where vy2: "d_add (vy e) iy = Some vy2" "\<bar>vy2\<bar> \<le> 2 ^ 309"
    using d_add_total[of "vy e" 307 iy] iy(2) by auto
  obtain vx3 where vx3: "d_mul vx2 (damping e) = Some vx3" "\<bar>vx3\<bar> \<le> 2 ^ 410"
    using d_mul_total[OF vx2(2) b(7)] by auto
  obtain vy3 where vy3: "d_mul vy2 (damping e) = Some vy3" "\<bar>vy3\<bar> \<le> 2 ^ 410"
    using d_mul_total[OF vy2(2) b(7)] by auto
  define e3 where "e3 = e\<lparr>ax := a1, ay := a2, vx := vx3, vy := vy3\<rparr>"
  have e3: "\<bar>vx e3\<bar> \<le> 2 ^ 410" "\<bar>vy e3\<bar> \<le> 2 ^ 410" "maxSpeed e3 = 3"
    using vx3(2) vy3(2) m by (simp_all add: e3_def)
  obtain v1 v2 where e4: "limitSpeed_d e3 = Some (e3\<lparr>vx := v1, vy := v2\<rparr>)"
    and v1: "\<bar>v1\<bar> \<le> 2 ^ 414" and v2: "\<bar>v2\<bar> \<le> 2 ^ 414"
    using limitSpeed_d_total[OF e3] by blast
  obtain sx where sx: "d_mul v1 dt = Some sx" "\<bar>sx\<bar> \<le> 2 ^ 515"
    using d_mul_total[OF v1 b(11)] by auto
  obtain sy where sy: "d_mul v2 dt = Some sy" "\<bar>sy\<bar> \<le> 2 ^ 515"
    using d_mul_total[OF v2 b(11)] by auto
  have "\<bar>x e\<bar> \<le> 2 ^ 515" by (rule pow2_mono[OF b(1)]) simp
  then obtain x5 where x5: "d_add (x e) sx = Some x5"
    using d_add_total[of "x e" 515 sx] sx(2) by auto
  have "\<bar>y e\<bar> \<le> 2 ^ 515" by (rule pow2_mono[OF b(2)]) simp
  then obtain y5 where y5: "d_add (y e) sy = Some y5"
    using d_add_total[of "y e" 515 sy] sy(2) by auto
  have "integrate_d e dt = Some (e3\<lparr>vx := v1, vy := v2, x := x5, y := y5\<rparr>)"
    using dx(1) dy(1) fx(1) fy(1) e1 ix(1) iy(1) vx2(1) vy2(1) vx3(1) vy3(1) e4 sx(1) sy(1) x5 y5
    by (simp add: integrate_d_def e3_def)
  then show ?thesis using v1 v2 by simp
qed

lemma bounce_x_d_total:
  assumes "\<bar>vx e\<bar> \<le> 2 ^ 414" and "\<bar>innerWidth\<bar> \<le> 2 ^ 100"
  shows "\<exists>e'. bounce_x_d e innerWidth = Some e' \<and> vy e' = vy e"
proof -
  have h: "\<bar>- 0.5 :: real\<bar> \<le> 2 ^ 0" by simp
  obtain v where v: "d_mul (vx e) (- 0.5) = Some v"
    using d_mul_total[OF assms(1) h] by auto
  have "\<bar>100::real\<bar> \<le> 2 ^ 100" by simp
  then obtain right where r: "d_sub innerWidth 100 = Some right"
    using d_sub_total[OF assms(2), of 100] by auto
  show ?thesis using v r by (simp add: bounce_x_d_def)
qed

lemma bounce_y_d_total:
  assumes "\<bar>vy e\<bar> \<le> 2 ^ 414" and "\<bar>innerHeight\<bar> \<le> 2 ^ 100"
  shows "\<exists>e'. bounce_y_d e innerHeight = Some e'"
proof -
  have h: "\<bar>- 0.5 :: real\<bar> \<le> 2 ^ 0" by simp
  obtain v where v: "d_mul (vy e) (- 0.5) = Some v"
    using d_mul_total[OF assms(1) h] by auto
  have "\<bar>100::real\<bar> \<le> 2 ^ 100" by simp
  then obtain bottom where r: "d_sub innerHeight 100 = Some bottom"
    using d_sub_total[OF assms(2), of 100] by auto
  show ?thesis using v r by (simp add: bounce_y_d_def)
qed

lemma update_d_total:
  assumes h: "moderate e dt innerWidth innerHeight" and m: "maxSpeed e = 3"
  shows "\<exists>e'. update_d e dt innerWidth innerHeight = Some e'"
proof -
  have b: "\<bar>innerWidth\<bar> \<le> 2 ^ 100" "\<bar>innerHeight\<bar> \<le> 2 ^ 100"
    using h unfolding moderate_def by blast+
  obtain e5 where e5: "integrate_d e dt = Some e5" "\<bar>vx e5\<bar> \<le> 2 ^ 414" "\<bar>vy e5\<bar> \<le> 2 ^ 414"
    using integrate_d_total[OF h m] by blast
  obtain e6 where e6: "bounce_x_d e5 innerWidth = Some e6" "vy e6 = vy e5"
    using bounce_x_d_total[OF e5(2) b(1)] by blast
  have "\<bar>vy e6\<bar> \<le> 2 ^ 414" using e5(3) by (simp only: e6(2))
  then obtain e7 where e7: "bounce_y_d e6 innerHeight = Some e7"
    using bounce_y_d_total[OF _ b(2)] by blast
  show ?thesis using e5(1) e6(1) e7 by (simp add: update_d_def boundaryBounce_d_def)
qed

text \<open>
  With numbers that are not moderate the step need not return: with the accumulated
  acceleration \<open>2 ^ 1023\<close> and the time delta 2 the product \<^verbatim>\<open>this.ax * dt\<close>
  overflows. The program stores \<^verbatim>\<open>Infinity\<close> in \<^verbatim>\<open>vx\<close>, the speed is
  \<^verbatim>\<open>Infinity\<close>, and the speed limit makes \<^verbatim>\<open>Infinity / Infinity\<close>, a
  \<^verbatim>\<open>NaN\<close>, of the velocity.
\<close>

lemma rnd_pow2:
  assumes "- 1022 \<le> k"
  shows "rnd (2 powi k) = 2 powi k"
proof -
  define r :: real where "r = 2 powi k"
  have r0: "0 < r" by (simp add: r_def)
  have "r < 2 powi (k + 1)" by (simp add: r_def power_int_add)
  then have "\<lfloor>log 2 \<bar>r\<bar>\<rfloor> = k" using floor_log_pow2[of k r] by (simp add: r_def)
  then have ue: "ulp_exponent r = k - 52" using assms by (simp add: ulp_exponent_def)
  have "(2::real) powi (k - 52) = 2 powi k / 2 powi 52" by (rule power_int_diff) simp
  then have p: "(2::real) powi (k - 52) = r / 2 ^ 52" by (simp add: r_def)
  have "r / 2 powi (k - 52) = of_int (2 ^ 52)" using r0 by (simp add: p)
  then have "round_even (r / 2 powi (k - 52)) = 2 ^ 52"
    using round_even_unique[of "r / 2 powi (k - 52)" "2 ^ 52"] by simp
  then have "rnd r = r" using r0 ue by (simp add: rnd_def Let_def p)
  then show ?thesis by (simp add: r_def)
qed

lemma fl_overflow: "fl (2 ^ 1024) = None"
proof -
  have "rnd (2 powi 1024) = 2 powi 1024" by (rule rnd_pow2) simp
  then have "rnd (2 ^ 1024) = 2 ^ 1024" by simp
  then show ?thesis by (simp add: fl_def max_double_def)
qed

lemma fl_2_1023: "fl (2 ^ 1023) = Some (2 ^ 1023)"
proof -
  have "rnd (2 powi 1023) = 2 powi 1023" by (rule rnd_pow2) simp
  then have "rnd (2 ^ 1023) = 2 ^ 1023" by simp
  then show ?thesis by (simp add: fl_def max_double_def)
qed

lemma update_d_overflow:
  "update_d ((entity_d 500 400 2)\<lparr>ax := 2 ^ 1023\<rparr>) 2 1000 800 = None"
  using fl_zero fl_2_1023 fl_overflow
  by (simp add: update_d_def integrate_d_def applyForce_d_def d_mul_def d_add_def d_sub_def
      d_div_def entity_d_fields)

text \<open>
  C2, amended. In the doubles the program computes, one full integration step of a point
  mass whose \<open>maxSpeed\<close> is 3 (as the constructor sets it), with moderate numbers (the
  fields of the point mass, the time delta and the size of the viewport at most
  \<open>2 ^ 100\<close> in absolute value, the mass at least \<open>1 / 2 ^ 100\<close>), returns with every
  number finite, and the length of the velocity after it is at most
  \<open>3.0000000000000015\<close>: \<open>maxSpeed\<close> up to the rounding of the speed limit, not
  \<open>maxSpeed\<close> exactly.
\<close>

theorem update_d_speed_bound:
  assumes "maxSpeed e = 3" and "moderate e dt innerWidth innerHeight"
  shows "\<exists>e'. update_d e dt innerWidth innerHeight = Some e'
           \<and> maxSpeed e' = 3
           \<and> magnitude (vx e') (vy e') \<le> 3.0000000000000015"
proof -
  obtain e' where e': "update_d e dt innerWidth innerHeight = Some e'"
    using update_d_total[OF assms(2) assms(1)] by blast
  then show ?thesis using update_d_speed[OF assms(1) e'] by simp
qed

text \<open>The step of \<open>pushed_entity\<close>, whose velocity ends longer than 3.\<close>

theorem update_d_speed_bound_witness:
  "maxSpeed pushed_entity = 3 \<and> moderate pushed_entity 1 1000 800
   \<and> update_d pushed_entity 1 1000 800 = Some pushed_entity_after
   \<and> maxSpeed pushed_entity_after = 3
   \<and> magnitude (vx pushed_entity_after) (vy pushed_entity_after) \<le> 3.0000000000000015"
proof -
  have m: "maxSpeed pushed_entity = 3" by (simp add: pushed_entity_def entity_d_fields)
  have h: "moderate pushed_entity 1 1000 800"
    by (simp add: moderate_def pushed_entity_def entity_d_fields entity_d_damping)
  obtain e' where "update_d pushed_entity 1 1000 800 = Some e'" "maxSpeed e' = 3"
    "magnitude (vx e') (vy e') \<le> 3.0000000000000015"
    using update_d_speed_bound[OF m h] by blast
  then show ?thesis using m h pushed_entity_step by simp
qed

subsection \<open>The rest position\<close>

text \<open>
  C6, as stated, fails: a point mass at rest at its rest position, 50 pixels from the left
  edge of a viewport 1000 wide, is moved to the margin by its first step. The boundary
  check moves every position outside the margin box, the rest position too.
\<close>

theorem rest_outside_margin_box_moves:
  "vx (entity_at 50 220 2) = 0 \<and> vy (entity_at 50 220 2) = 0
   \<and> ax (entity_at 50 220 2) = 0 \<and> ay (entity_at 50 220 2) = 0
   \<and> x (entity_at 50 220 2) = originalX (entity_at 50 220 2)
   \<and> y (entity_at 50 220 2) = originalY (entity_at 50 220 2)
   \<and> x (entity_at 50 220 2) = 50
   \<and> update (entity_at 50 220 2) 1 1000 800 = Some ((entity_at 50 220 2)\<lparr>x := 100\<rparr>)
   \<and> x ((entity_at 50 220 2)\<lparr>x := 100\<rparr>) \<noteq> x (entity_at 50 220 2)"
  by (simp add: entity_at_def sample_entity_def new_PhysicsEntity_def update_def integrate_def
      applyForce_def js_div_def limitSpeed_def boundaryBounce_def)

text \<open>
  C6, amended. A point mass with zero velocity, zero accumulated acceleration and its
  position at its rest position, whose rest position lies in the margin box of the
  viewport of every frame, is left unchanged by any number of integration steps
  (position, velocity and acceleration), whatever the time deltas.
\<close>

theorem rest_fixed_point:
  assumes "vx e = 0" and "vy e = 0" and "ax e = 0" and "ay e = 0"
    and "x e = originalX e" and "y e = originalY e"
    and "mass e \<noteq> 0" and "0 \<le> maxSpeed e"
    and "\<forall>(dt, innerWidth, innerHeight) \<in> set frames.
           100 \<le> x e \<and> x e \<le> innerWidth - 100 \<and> 100 \<le> y e \<and> y e \<le> innerHeight - 100"
  shows "updates e frames = Some e"
  using assms(9)
proof (induction frames)
  case Nil
  then show ?case by simp
next
  case (Cons f frames)
  obtain dt w h where f: "f = (dt, w, h)" by (cases f) auto
  have box: "100 \<le> x e \<and> x e \<le> w - 100 \<and> 100 \<le> y e \<and> y e \<le> h - 100"
    using Cons.prems f by simp
  have rest: "\<forall>(dt, w, h) \<in> set frames.
      100 \<le> x e \<and> x e \<le> w - 100 \<and> 100 \<le> y e \<and> y e \<le> h - 100"
    using Cons.prems by simp
  have "update e dt w h = Some e"
    using update_rest[OF assms(1-8)] box by simp
  then show ?case using Cons.IH[OF rest] f by simp
qed

theorem rest_fixed_point_witness:
  "updates (entity_at 500 400 2) [(1, 1000, 800), (2, 1000, 800), (0.5, 1200, 900)]
     = Some (entity_at 500 400 2)"
proof -
  have h: "vx (entity_at 500 400 2) = 0" "vy (entity_at 500 400 2) = 0"
    "ax (entity_at 500 400 2) = 0" "ay (entity_at 500 400 2) = 0"
    "x (entity_at 500 400 2) = originalX (entity_at 500 400 2)"
    "y (entity_at 500 400 2) = originalY (entity_at 500 400 2)"
    "mass (entity_at 500 400 2) \<noteq> 0" "0 \<le> maxSpeed (entity_at 500 400 2)"
    by (simp_all add: entity_at_def sample_entity_fields)
  have b: "\<forall>(dt, innerWidth, innerHeight) \<in> set [(1, 1000, 800), (2, 1000, 800), (0.5, 1200, 900)].
           100 \<le> x (entity_at 500 400 2) \<and> x (entity_at 500 400 2) \<le> innerWidth - 100
         \<and> 100 \<le> y (entity_at 500 400 2) \<and> y (entity_at 500 400 2) \<le> innerHeight - 100"
    by (simp add: entity_at_def sample_entity_fields)
  show ?thesis by (rule rest_fixed_point[OF h b])
qed

subsection \<open>The boundary\<close>

text \<open>
  C7, as stated, fails for the right edge (and the bottom edge alike): in a viewport 150
  wide a point mass that the position update leaves at \<open>x = 70.196\<close>, beyond
  \<open>innerWidth - margin = 50\<close>, is put at \<open>x = 100\<close>, not at 50. The test of the
  right edge is the \<^verbatim>\<open>else\<close> branch of the test of the left edge.
\<close>

theorem right_edge_after_left_edge:
  "integrate (sample_entity 70 300 2 0.9 0.5) 1
     = Some ((sample_entity 70 300 2 0.9 0.5)\<lparr>x := 70.196, vx := 0.196\<rparr>)
   \<and> (70.196 :: real) > 150 - 100
   \<and> update (sample_entity 70 300 2 0.9 0.5) 1 150 800
     = Some ((sample_entity 70 300 2 0.9 0.5)\<lparr>x := 100, vx := - 0.098\<rparr>)
   \<and> (100 :: real) \<noteq> 150 - 100"
  by (simp add: sample_entity_def new_PhysicsEntity_def update_def integrate_def applyForce_def
      js_div_def limitSpeed_slow boundaryBounce_def)

text \<open>
  C7, amended. Let \<open>p\<close> be the point mass after the position update of a step. If
  \<open>x p < 100\<close> the step ends with \<open>x = 100\<close> and the x-velocity of \<open>p\<close> times
  \<open>- 0.5\<close>, and likewise for \<open>y p < 100\<close>. If \<open>x p > innerWidth - 100\<close> and not
  \<open>x p < 100\<close>, the step ends with \<open>x = innerWidth - 100\<close> and the x-velocity times
  \<open>- 0.5\<close>, and likewise for \<open>y p > innerHeight - 100\<close> and not \<open>y p < 100\<close>.
  Inside the margins the coordinate and its velocity component are kept.
\<close>

theorem boundary_bounce:
  assumes "integrate e dt = Some p"
  shows "\<exists>e'. update e dt innerWidth innerHeight = Some e'
    \<and> (x p < 100 \<longrightarrow> x e' = 100 \<and> vx e' = vx p * (- 0.5))
    \<and> (y p < 100 \<longrightarrow> y e' = 100 \<and> vy e' = vy p * (- 0.5))
    \<and> (100 \<le> x p \<and> x p > innerWidth - 100
         \<longrightarrow> x e' = innerWidth - 100 \<and> vx e' = vx p * (- 0.5))
    \<and> (100 \<le> y p \<and> y p > innerHeight - 100
         \<longrightarrow> y e' = innerHeight - 100 \<and> vy e' = vy p * (- 0.5))
    \<and> (100 \<le> x p \<and> x p \<le> innerWidth - 100 \<longrightarrow> x e' = x p \<and> vx e' = vx p)
    \<and> (100 \<le> y p \<and> y p \<le> innerHeight - 100 \<longrightarrow> y e' = y p \<and> vy e' = vy p)"
proof -
  have "update e dt innerWidth innerHeight
          = Some ((boundaryBounce p innerWidth innerHeight)\<lparr>ax := 0, ay := 0\<rparr>)"
    using assms by (simp add: update_def)
  then show ?thesis
    by (simp add: boundaryBounce_x boundaryBounce_y boundaryBounce_vx boundaryBounce_vy)
qed

text \<open>
  One point mass drifting over the left and the top margin, one over the right and the
  bottom margin, in a viewport of 1000 by 800.
\<close>

theorem boundary_bounce_witness:
  "(\<exists>e'. update (sample_entity 100.1 100.1 2 0.1 0.1) 1 1000 800 = Some e'
      \<and> x e' = 100 \<and> vx e' = 0.098 \<and> y e' = 100 \<and> vy e' = 0.098)
   \<and> (\<exists>e'. update (sample_entity 899.9 699.9 2 0.9 0.9) 1 1000 800 = Some e'
      \<and> x e' = 900 \<and> vx e' = - 0.098 \<and> y e' = 700 \<and> vy e' = - 0.098)"
proof -
  have i1: "integrate (sample_entity 100.1 100.1 2 0.1 0.1) 1
      = Some ((sample_entity 100.1 100.1 2 0.1 0.1)\<lparr>x := 99.904, y := 99.904, vx := - 0.196, vy := - 0.196\<rparr>)"
    by (simp add: sample_entity_def new_PhysicsEntity_def integrate_def applyForce_def
        js_div_def limitSpeed_slow)
  have i2: "integrate (sample_entity 899.9 699.9 2 0.9 0.9) 1
      = Some ((sample_entity 899.9 699.9 2 0.9 0.9)\<lparr>x := 900.096, y := 700.096, vx := 0.196, vy := 0.196\<rparr>)"
    by (simp add: sample_entity_def new_PhysicsEntity_def integrate_def applyForce_def
        js_div_def limitSpeed_slow)
  show ?thesis
    using boundary_bounce[OF i1, of 1000 800] boundary_bounce[OF i2, of 1000 800]
    by (simp add: sample_entity_def new_PhysicsEntity_def)
qed



section \<open>Properties of the field and of the pairwise pass\<close>

text \<open>
  C1. Let \<open>d\<close> be the distance from the point mass to the pointer and \<open>(dx, dy)\<close> the
  vector from the point mass to the pointer, so that \<open>(dx / d, dy / d)\<close> is the unit
  vector towards the pointer. For \<open>100 < d < 300\<close> the force applied is
  \<open>F = (0.3 * mass) / (d * 0.01)\<close> times that unit vector, of length \<open>\<bar>F\<bar>\<close>; for
  \<open>10 < d \<le> 100\<close> it is \<open>R = (2 * mass) / (d * 0.01)\<close> times the opposite unit vector,
  of length \<open>\<bar>R\<bar>\<close>; for \<open>d \<le> 10\<close> or \<open>d \<ge> 300\<close> nothing is applied. For a
  positive mass \<open>F\<close> and \<open>R\<close> are positive: the first force points to the pointer
  and has the length \<open>F\<close>, the second points away from it and has the length \<open>R\<close>.
\<close>

theorem field_force:
  assumes "gravity w = 0.3" and "gravityRadius w = 300" and "repulsionRadius w = 100"
    and "dx = x (mouse w) - x e" and "dy = y (mouse w) - y e"
    and "d = distanceTo e (x (mouse w)) (y (mouse w))"
    and "F = (0.3 * mass e) / (d * 0.01)" and "R = (2 * mass e) / (d * 0.01)"
  shows "(100 < d \<and> d < 300 \<longrightarrow>
            applyGravity w e = applyForce e (F * (dx / d)) (F * (dy / d))
            \<and> magnitude (F * (dx / d)) (F * (dy / d)) = \<bar>F\<bar>
            \<and> magnitude (dx / d) (dy / d) = 1)
       \<and> (10 < d \<and> d \<le> 100 \<longrightarrow>
            applyGravity w e = applyForce e (- R * (dx / d)) (- R * (dy / d))
            \<and> magnitude (- R * (dx / d)) (- R * (dy / d)) = \<bar>R\<bar>
            \<and> magnitude (dx / d) (dy / d) = 1)
       \<and> (d \<le> 10 \<or> 300 \<le> d \<longrightarrow> applyGravity w e = Some e)
       \<and> (0 < mass e \<and> 0 < d \<longrightarrow> 0 < F \<and> 0 < R)"
proof -
  have d: "d = sqrt (dx * dx + dy * dy)"
    using assms(4-6) by (simp add: distanceTo_def Let_def)
  have unit: "magnitude (dx / d) (dy / d) = 1" if "0 < d"
    using that magnitude_unit[of dx dy] by (simp add: d)
  have mag: "magnitude (k * (dx / d)) (k * (dy / d)) = \<bar>k\<bar>" if "0 < d" for k
    using unit[OF that] magnitude_scale[of k "dx / d" "dy / d"] by (simp only: mult_1_right)
  have far: "applyGravity w e = applyForce e (F * (dx / d)) (F * (dy / d))"
    if "100 < d" "d < 300"
  proof -
    have "applyGravity w e = applyForce e (dx / d * (gravity w * mass e / (d * 0.01)))
            (dy / d * (gravity w * mass e / (d * 0.01)))"
      using that assms(2,3)
      by (simp add: applyGravity_def Let_def js_div_def assms(4,5)[symmetric] d[symmetric])
    then show ?thesis by (simp only: assms(1) assms(7) mult.commute)
  qed
  have near: "applyGravity w e = applyForce e (- R * (dx / d)) (- R * (dy / d))"
    if "10 < d" "d \<le> 100"
  proof -
    have "applyGravity w e = applyForce e (- (dx / d) * (2 * mass e / (d * 0.01)))
            (- (dy / d) * (2 * mass e / (d * 0.01)))"
      using that assms(2,3)
      by (simp add: applyGravity_def Let_def js_div_def assms(4,5)[symmetric] d[symmetric])
    then show ?thesis by (simp add: assms(8) mult.commute)
  qed
  have none: "applyGravity w e = Some e" if "d \<le> 10 \<or> 300 \<le> d"
    using that assms(2,3)
    by (auto simp add: applyGravity_def Let_def assms(4,5)[symmetric] d[symmetric])
  have 1: "applyGravity w e = applyForce e (F * (dx / d)) (F * (dy / d))
            \<and> magnitude (F * (dx / d)) (F * (dy / d)) = \<bar>F\<bar>
            \<and> magnitude (dx / d) (dy / d) = 1" if "100 < d \<and> d < 300"
  proof -
    have "0 < d" using that by simp
    then show ?thesis using far that mag[of F] unit by blast
  qed
  have 2: "applyGravity w e = applyForce e (- R * (dx / d)) (- R * (dy / d))
            \<and> magnitude (- R * (dx / d)) (- R * (dy / d)) = \<bar>R\<bar>
            \<and> magnitude (dx / d) (dy / d) = 1" if "10 < d \<and> d \<le> 100"
  proof -
    have "0 < d" using that by simp
    moreover have "\<bar>- R\<bar> = \<bar>R\<bar>" by simp
    ultimately show ?thesis using near that mag[of "- R"] unit by metis
  qed
  have pos: "0 < F \<and> 0 < R" if "0 < mass e \<and> 0 < d"
    using that by (simp add: assms(7,8))
  show ?thesis using 1 2 none pos by blast
qed

text \<open>
  Three point masses of mass 1 at the distances 200, 50 and 500 from the pointer at
  \<open>(500, 400)\<close>: a force of 0.15 towards the pointer, a force of 4 away from it, none.
\<close>

theorem field_force_witness:
  "applyGravity sample_world (entity_at 700 400 1) = Some ((entity_at 700 400 1)\<lparr>ax := - 0.15\<rparr>)
   \<and> magnitude (- 0.15) 0 = 0.15
   \<and> applyGravity sample_world (entity_at 450 400 1) = Some ((entity_at 450 400 1)\<lparr>ax := - 4\<rparr>)
   \<and> magnitude (- 4) 0 = 4
   \<and> applyGravity sample_world (entity_at 1000 400 1) = Some (entity_at 1000 400 1)"
proof -
  have s: "sqrt 40000 = 200" "sqrt 2500 = 50" "sqrt 250000 = 500"
    using sqrt_of_square[of 200 40000] sqrt_of_square[of 50 2500] sqrt_of_square[of 500 250000]
    by simp_all
  have g: "gravity sample_world = 0.3" "gravityRadius sample_world = 300"
    "repulsionRadius sample_world = 100"
    by (simp_all add: sample_world_fields)
  have a1: "- 200 = x (mouse sample_world) - x (entity_at 700 400 1)"
       "0 = y (mouse sample_world) - y (entity_at 700 400 1)"
       "200 = distanceTo (entity_at 700 400 1) (x (mouse sample_world)) (y (mouse sample_world))"
       "0.15 = (0.3 * mass (entity_at 700 400 1)) / (200 * 0.01)"
       "1 = (2 * mass (entity_at 700 400 1)) / (200 * 0.01)"
    by (simp_all add: sample_world_fields entity_at_def sample_entity_fields distanceTo_def s)
  have a: "applyGravity sample_world (entity_at 700 400 1)
           = applyForce (entity_at 700 400 1) (0.15 * (- 200 / 200)) (0.15 * (0 / 200))
      \<and> magnitude (0.15 * (- 200 / 200)) (0.15 * (0 / 200)) = \<bar>0.15\<bar>"
    using field_force[OF g a1] by simp
  have b1: "50 = x (mouse sample_world) - x (entity_at 450 400 1)"
       "0 = y (mouse sample_world) - y (entity_at 450 400 1)"
       "50 = distanceTo (entity_at 450 400 1) (x (mouse sample_world)) (y (mouse sample_world))"
       "0.6 = (0.3 * mass (entity_at 450 400 1)) / (50 * 0.01)"
       "4 = (2 * mass (entity_at 450 400 1)) / (50 * 0.01)"
    by (simp_all add: sample_world_fields entity_at_def sample_entity_fields distanceTo_def s)
  have b: "applyGravity sample_world (entity_at 450 400 1)
           = applyForce (entity_at 450 400 1) (- 4 * (50 / 50)) (- 4 * (0 / 50))
      \<and> magnitude (- 4 * (50 / 50)) (- 4 * (0 / 50)) = \<bar>4\<bar>"
    using field_force[OF g b1] by simp
  have c1: "- 500 = x (mouse sample_world) - x (entity_at 1000 400 1)"
       "0 = y (mouse sample_world) - y (entity_at 1000 400 1)"
       "500 = distanceTo (entity_at 1000 400 1) (x (mouse sample_world)) (y (mouse sample_world))"
       "0.06 = (0.3 * mass (entity_at 1000 400 1)) / (500 * 0.01)"
       "0.4 = (2 * mass (entity_at 1000 400 1)) / (500 * 0.01)"
    by (simp_all add: sample_world_fields entity_at_def sample_entity_fields distanceTo_def s)
  have c: "applyGravity sample_world (entity_at 1000 400 1) = Some (entity_at 1000 400 1)"
    using field_force[OF g c1] by simp
  have f: "applyForce (entity_at 700 400 1) (- 0.15) 0 = Some ((entity_at 700 400 1)\<lparr>ax := - 0.15\<rparr>)"
     "applyForce (entity_at 450 400 1) (- 4) 0 = Some ((entity_at 450 400 1)\<lparr>ax := - 4\<rparr>)"
    by (simp_all add: applyForce_def js_div_def entity_at_def sample_entity_def new_PhysicsEntity_def)
  show ?thesis using a b c f by simp
qed

subsection \<open>The pairwise pass\<close>

text \<open>
  The body of the loops, for two point masses \<open>i < j\<close> of nonzero mass at distance
  \<open>d\<close>: for \<open>0 < d < 150\<close> the first gets \<open>(fx, fy) = - 0.5 * (dx / d, dy / d)\<close>,
  of length 0.5, and the second the exact negation; otherwise the list is left as it is.
\<close>

lemma repulsionPair_forces:
  assumes "i < j" and "j < length es" and "mass (es ! i) \<noteq> 0" and "mass (es ! j) \<noteq> 0"
    and "dx = x (es ! j) - x (es ! i)" and "dy = y (es ! j) - y (es ! i)"
    and "d = sqrt (dx * dx + dy * dy)"
    and "fx = - (dx / d) * 0.5" and "fy = - (dy / d) * 0.5"
  shows "(0 < d \<and> d < 150 \<longrightarrow>
           (\<exists>a b. applyForce (es ! i) fx fy = Some a
                \<and> applyForce (es ! j) (- fx) (- fy) = Some b
                \<and> repulsionPair es i j = Some (es[i := a, j := b]))
           \<and> magnitude fx fy = 0.5)
       \<and> (d = 0 \<or> 150 \<le> d \<longrightarrow> repulsionPair es i j = Some es)"
proof -
  have near: "repulsionPair es i j =
      applyForce (es ! i) fx fy \<bind>
        (\<lambda>a. applyForce (es ! j) (- fx) (- fy) \<bind> (\<lambda>b. Some (es[i := a, j := b])))"
    if "0 < d" "d < 150"
    unfolding repulsionPair_def Let_def assms(5,6)[symmetric] assms(7)[symmetric] assms(8,9)
    using that by (simp add: js_div_def)
  have mag: "magnitude fx fy = 0.5" if "0 < d"
  proof -
    have "magnitude (dx / d) (dy / d) = 1"
      using that magnitude_unit[of dx dy] by (simp add: assms(7))
    then have "magnitude (- 0.5 * (dx / d)) (- 0.5 * (dy / d)) = \<bar>- 0.5\<bar>"
      using magnitude_scale[of "- 0.5" "dx / d" "dy / d"] by (simp only: mult_1_right)
    then show ?thesis by (simp add: assms(8,9) mult.commute)
  qed
  have far: "repulsionPair es i j = Some es" if "d = 0 \<or> 150 \<le> d"
    unfolding repulsionPair_def Let_def assms(5,6)[symmetric] assms(7)[symmetric]
    using that by auto
  have ex: "\<exists>a b. applyForce (es ! i) fx fy = Some a
                \<and> applyForce (es ! j) (- fx) (- fy) = Some b
                \<and> repulsionPair es i j = Some (es[i := a, j := b])" if "0 < d" "d < 150"
    using near[OF that] assms(3,4) by (simp add: applyForce_def js_div_def)
  show ?thesis using ex mag far by blast
qed

lemma same_refl: "same_but_acceleration e e"
  by (simp add: same_but_acceleration_def)

lemma same_fields:
  assumes "same_but_acceleration e e'"
  shows "x e' = x e" "y e' = y e" "mass e' = mass e" "maxSpeed e' = maxSpeed e"
    "vx e' = vx e" "vy e' = vy e"
proof -
  have e': "e' = e\<lparr>ax := ax e', ay := ay e'\<rparr>" using assms by (simp add: same_but_acceleration_def)
  show "x e' = x e" by (subst e') simp
  show "y e' = y e" by (subst e') simp
  show "mass e' = mass e" by (subst e') simp
  show "maxSpeed e' = maxSpeed e" by (subst e') simp
  show "vx e' = vx e" by (subst e') simp
  show "vy e' = vy e" by (subst e') simp
qed

lemma applyForce_same:
  assumes "applyForce e fx fy = Some e'"
  shows "same_but_acceleration e e'"
  using assms
  by (auto simp add: applyForce_def js_div_def same_but_acceleration_def split: if_splits)

lemma applyForce_push: "mass e \<noteq> 0 \<Longrightarrow> applyForce e fx fy = Some (push e (fx, fy))"
  by (simp add: applyForce_def js_div_def push_def)

lemma push_zero: "push e (0, 0) = e"
  by (simp add: push_def)

lemma push_push: "push (push e f) g = push e (fst f + fst g, snd f + snd g)"
  by (simp add: push_def add_divide_distrib)

lemma push_fields: "x (push e f) = x e" "y (push e f) = y e" "mass (push e f) = mass e"
  by (simp_all add: push_def)

lemma sq_diff_swap: "(a - b) * (a - b) = (b - a) * (b - (a::real))"
  by (simp add: algebra_simps)

lemma spec_pair_force_neg:
  "spec_pair_force b a = (- fst (spec_pair_force a b), - snd (spec_pair_force a b))"
proof -
  have d: "sqrt ((x a - x b) * (x a - x b) + (y a - y b) * (y a - y b))
         = sqrt ((x b - x a) * (x b - x a) + (y b - y a) * (y b - y a))"
    by (simp add: sq_diff_swap[of "x a" "x b"] sq_diff_swap[of "y a" "y b"])
  have m: "x a - x b = - (x b - x a)" "y a - y b = - (y b - y a)" by simp_all
  show ?thesis
    unfolding spec_pair_force_def Let_def d
    by (simp add: m del: minus_diff_eq)
qed

lemma repulsionPair_spec:
  assumes "i < j" and "j < length es" and "mass (es ! i) \<noteq> 0" and "mass (es ! j) \<noteq> 0"
  shows "repulsionPair es i j
     = Some (es[i := push (es ! i) (spec_pair_force (es ! i) (es ! j)),
                j := push (es ! j) (spec_pair_force (es ! j) (es ! i))])"
proof -
  define dx where "dx = x (es ! j) - x (es ! i)"
  define dy where "dy = y (es ! j) - y (es ! i)"
  define d where "d = sqrt (dx * dx + dy * dy)"
  have f: "spec_pair_force (es ! i) (es ! j)
     = (if 0 < d \<and> d < 150 then (- 0.5 * (dx / d), - 0.5 * (dy / d)) else (0, 0))"
    by (simp add: spec_pair_force_def Let_def dx_def dy_def d_def)
  have g: "spec_pair_force (es ! j) (es ! i)
     = (if 0 < d \<and> d < 150 then (0.5 * (dx / d), 0.5 * (dy / d)) else (0, 0))"
    by (subst spec_pair_force_neg) (simp add: f)
  show ?thesis
  proof (cases "0 < d \<and> d < 150")
    case True
    have "repulsionPair es i j =
      applyForce (es ! i) (- (dx / d) * 0.5) (- (dy / d) * 0.5) \<bind>
        (\<lambda>a. applyForce (es ! j) (- (- (dx / d) * 0.5)) (- (- (dy / d) * 0.5))
           \<bind> (\<lambda>b. Some (es[i := a, j := b])))"
      unfolding repulsionPair_def Let_def dx_def[symmetric] dy_def[symmetric] d_def[symmetric]
      using True by (simp add: js_div_def)
    then show ?thesis using True assms(3,4)
      by (simp add: applyForce_push f g mult.commute)
  next
    case False
    have "repulsionPair es i j = Some es"
      unfolding repulsionPair_def Let_def dx_def[symmetric] dy_def[symmetric] d_def[symmetric]
      using False by auto
    moreover have "spec_pair_force (es ! i) (es ! j) = (0, 0)"
      "spec_pair_force (es ! j) (es ! i) = (0, 0)"
      using False f g by auto
    ultimately show ?thesis by (simp add: push_zero)
  qed
qed

lemma accelerated_length: "length (accelerated es A) = length es"
  by (simp add: accelerated_def)

lemma accelerated_nth: "k < length es \<Longrightarrow> accelerated es A ! k = push (es ! k) (A k)"
  by (simp add: accelerated_def)

lemma accelerated_zero: "accelerated es (\<lambda>k. (0, 0)) = es"
  by (simp add: accelerated_def push_zero map_nth)

lemma repulsionPair_accelerated:
  assumes "i < j" and "j < length es" and "\<forall>e \<in> set es. mass e \<noteq> 0"
  shows "repulsionPair (accelerated es A) i j
     = Some (accelerated es (\<lambda>k. vadd (A k) (pair_share es k (i, j))))"
proof -
  let ?as = "accelerated es A"
  have i: "i < length es" using assms by simp
  have m: "mass (?as ! i) \<noteq> 0" "mass (?as ! j) \<noteq> 0"
    using assms i by (simp_all add: accelerated_nth push_fields)
  have l: "j < length ?as" using assms by (simp add: accelerated_length)
  have fi: "spec_pair_force (?as ! i) (?as ! j) = spec_pair_force (es ! i) (es ! j)"
    and fj: "spec_pair_force (?as ! j) (?as ! i) = spec_pair_force (es ! j) (es ! i)"
    using assms i by (simp_all add: accelerated_nth spec_pair_force_def push_fields)
  have "repulsionPair ?as i j
     = Some (?as[i := push (?as ! i) (spec_pair_force (es ! i) (es ! j)),
                 j := push (?as ! j) (spec_pair_force (es ! j) (es ! i))])"
    using repulsionPair_spec[OF assms(1) l m] by (simp add: fi fj)
  moreover have "?as[i := push (?as ! i) (spec_pair_force (es ! i) (es ! j)),
                 j := push (?as ! j) (spec_pair_force (es ! j) (es ! i))]
     = accelerated es (\<lambda>k. vadd (A k) (pair_share es k (i, j)))"
  proof (rule nth_equalityI)
    show "length (?as[i := push (?as ! i) (spec_pair_force (es ! i) (es ! j)),
                 j := push (?as ! j) (spec_pair_force (es ! j) (es ! i))])
      = length (accelerated es (\<lambda>k. vadd (A k) (pair_share es k (i, j))))"
      by (simp add: accelerated_length)
  next
    fix k
    assume "k < length (?as[i := push (?as ! i) (spec_pair_force (es ! i) (es ! j)),
                 j := push (?as ! j) (spec_pair_force (es ! j) (es ! i))])"
    then have k: "k < length es" by (simp add: accelerated_length)
    show "?as[i := push (?as ! i) (spec_pair_force (es ! i) (es ! j)),
                 j := push (?as ! j) (spec_pair_force (es ! j) (es ! i))] ! k
      = accelerated es (\<lambda>k. vadd (A k) (pair_share es k (i, j))) ! k"
      using k i assms(1,2)
      by (simp add: accelerated_nth accelerated_length nth_list_update pair_share_def
          push_push vadd_def push_zero)
  qed
  ultimately show ?thesis by simp
qed

lemma vadd_vsum_Cons: "vadd (vadd a f) (vsum fs) = vadd a (vsum (f # fs))"
  by (simp add: vadd_def vsum_def)

lemma vadd_vsum_append: "vadd (vadd a (vsum fs)) (vsum gs) = vadd a (vsum (fs @ gs))"
  by (simp add: vadd_def vsum_def)

lemma vadd_vsum_Nil: "vadd a (vsum []) = a"
  by (simp add: vadd_def vsum_def)

lemma repulsionInner_accelerated:
  assumes "\<forall>j \<in> set js. i < j \<and> j < length es" and "\<forall>e \<in> set es. mass e \<noteq> 0"
  shows "repulsionInner (accelerated es A) i js
     = Some (accelerated es (\<lambda>k. vadd (A k) (vsum (map (\<lambda>j. pair_share es k (i, j)) js))))"
  using assms(1)
proof (induction js arbitrary: A)
  case Nil
  then show ?case by (simp add: vadd_vsum_Nil)
next
  case (Cons j js)
  have j: "i < j" "j < length es" using Cons.prems by simp_all
  have rest: "\<forall>j \<in> set js. i < j \<and> j < length es" using Cons.prems by simp
  show ?case
    using repulsionPair_accelerated[OF j assms(2), of A]
      Cons.IH[OF rest, of "\<lambda>k. vadd (A k) (pair_share es k (i, j))"]
    by (simp add: vadd_vsum_Cons)
qed

lemma repulsionOuter_accelerated:
  assumes "\<forall>e \<in> set es. mass e \<noteq> 0"
  shows "repulsionOuter (accelerated es A) rows
     = Some (accelerated es
         (\<lambda>k. vadd (A k) (vsum (map (pair_share es k) (concat (map (row_pairs (length es)) rows))))))"
proof (induction rows arbitrary: A)
  case Nil
  then show ?case by (simp add: vadd_vsum_Nil)
next
  case (Cons i rows)
  have js: "\<forall>j \<in> set [i + 1 ..< length es]. i < j \<and> j < length es" by simp
  have inner: "repulsionInner (accelerated es A) i [i + 1 ..< length (accelerated es A)]
     = Some (accelerated es (\<lambda>k. vadd (A k) (vsum (map (pair_share es k) (row_pairs (length es) i)))))"
    using repulsionInner_accelerated[OF js assms, of A]
    by (simp add: accelerated_length row_pairs_def comp_def)
  show ?case
    using inner Cons.IH[of "\<lambda>k. vadd (A k) (vsum (map (pair_share es k) (row_pairs (length es) i)))"]
    by (simp add: vadd_vsum_append)
qed

lemma pairs_sum:
  fixes c :: "nat \<Rightarrow> real"
  assumes "k < n"
  shows "(\<Sum>i<n. \<Sum>j\<in>{Suc i..<n}. (if k = i then c j else if k = j then c i else 0))
     = sum c ({..<n} - {k})"
proof -
  have inner: "(\<Sum>j\<in>{Suc i..<n}. (if k = i then c j else if k = j then c i else 0))
      = (if i = k then sum c {Suc k..<n} else if i < k then c i else 0)" for i
  proof (cases "i = k")
    case True
    then show ?thesis by simp
  next
    case False
    then have "(\<Sum>j\<in>{Suc i..<n}. (if k = i then c j else if k = j then c i else 0))
       = (\<Sum>j\<in>{Suc i..<n}. (if k = j then c i else 0))"
      by (intro sum.cong) auto
    also have "\<dots> = (if k \<in> {Suc i..<n} then c i else 0)"
      by (simp add: sum.delta')
    also have "\<dots> = (if i < k then c i else 0)" using assms by auto
    finally show ?thesis using False by simp
  qed
  have "(\<Sum>i<n. \<Sum>j\<in>{Suc i..<n}. (if k = i then c j else if k = j then c i else 0))
      = (\<Sum>i<n. (if i = k then sum c {Suc k..<n} else if i < k then c i else 0))"
    by (simp only: inner)
  also have "\<dots> = sum c {Suc k..<n} + (\<Sum>i\<in>{..<n} - {k}. (if i < k then c i else 0))"
    using assms by (simp add: sum.remove[of "{..<n}" k])
  also have "(\<Sum>i\<in>{..<n} - {k}. (if i < k then c i else 0)) = sum c {..<k}"
  proof -
    have "(\<Sum>i\<in>{..<n} - {k}. (if i < k then c i else 0))
        = sum c {i \<in> {..<n} - {k}. i < k}"
      by (rule sum.inter_filter[symmetric]) simp
    moreover have "{i \<in> {..<n} - {k}. i < k} = {..<k}" using assms by auto
    ultimately show ?thesis by simp
  qed
  also have "sum c {Suc k..<n} + sum c {..<k} = sum c ({..<n} - {k})"
  proof -
    have "{..<n} - {k} = {..<k} \<union> {Suc k..<n}" using assms by auto
    moreover have "{..<k} \<inter> {Suc k..<n} = {}" by auto
    ultimately show ?thesis by (simp add: sum.union_disjoint)
  qed
  finally show ?thesis .
qed

lemma sum_list_concat_rows:
  fixes xss :: "real list list"
  shows "sum_list (concat xss) = sum_list (map sum_list xss)"
  by (induction xss) simp_all

lemma sum_list_row:
  fixes g :: "nat \<times> nat \<Rightarrow> real"
  shows "sum_list (map g (concat (map (row_pairs n) [0 ..< n])))
     = (\<Sum>i<n. \<Sum>j\<in>{Suc i..<n}. g (i, j))"
proof -
  have "sum_list (map g (concat (map (row_pairs n) [0 ..< n])))
      = sum_list (map (\<lambda>i. sum_list (map g (row_pairs n i))) [0 ..< n])"
    by (simp add: map_concat sum_list_concat_rows comp_def)
  also have "\<dots> = sum_list (map (\<lambda>i. \<Sum>j\<in>{Suc i..<n}. g (i, j)) [0 ..< n])"
    by (simp add: row_pairs_def comp_def interv_sum_list_conv_sum_set_nat)
  also have "\<dots> = (\<Sum>i<n. \<Sum>j\<in>{Suc i..<n}. g (i, j))"
    by (simp add: interv_sum_list_conv_sum_set_nat atLeast0LessThan)
  finally show ?thesis .
qed

lemma pair_share_sum:
  assumes "k < length es"
  shows "vsum (map (pair_share es k) (concat (map (row_pairs (length es)) [0 ..< length es])))
     = (\<Sum>j\<in>{..<length es} - {k}. fst (spec_pair_force (es ! k) (es ! j)),
        \<Sum>j\<in>{..<length es} - {k}. snd (spec_pair_force (es ! k) (es ! j)))"
proof -
  let ?n = "length es"
  have 1: "sum_list (map fst (map (pair_share es k) (concat (map (row_pairs ?n) [0 ..< ?n]))))
      = (\<Sum>j\<in>{..<?n} - {k}. fst (spec_pair_force (es ! k) (es ! j)))"
  proof -
    have "sum_list (map fst (map (pair_share es k) (concat (map (row_pairs ?n) [0 ..< ?n]))))
        = sum_list (map (\<lambda>p. fst (pair_share es k p)) (concat (map (row_pairs ?n) [0 ..< ?n])))"
      by (simp add: comp_def)
    also have "\<dots> = (\<Sum>i<?n. \<Sum>j\<in>{Suc i..<?n}. fst (pair_share es k (i, j)))"
      by (rule sum_list_row)
    also have "\<dots> = (\<Sum>i<?n. \<Sum>j\<in>{Suc i..<?n}.
         (if k = i then fst (spec_pair_force (es ! k) (es ! j))
          else if k = j then fst (spec_pair_force (es ! k) (es ! i)) else 0))"
      by (intro sum.cong refl) (simp add: pair_share_def)
    also have "\<dots> = (\<Sum>j\<in>{..<?n} - {k}. fst (spec_pair_force (es ! k) (es ! j)))"
      by (rule pairs_sum[OF assms])
    finally show ?thesis .
  qed
  have 2: "sum_list (map snd (map (pair_share es k) (concat (map (row_pairs ?n) [0 ..< ?n]))))
      = (\<Sum>j\<in>{..<?n} - {k}. snd (spec_pair_force (es ! k) (es ! j)))"
  proof -
    have "sum_list (map snd (map (pair_share es k) (concat (map (row_pairs ?n) [0 ..< ?n]))))
        = sum_list (map (\<lambda>p. snd (pair_share es k p)) (concat (map (row_pairs ?n) [0 ..< ?n])))"
      by (simp add: comp_def)
    also have "\<dots> = (\<Sum>i<?n. \<Sum>j\<in>{Suc i..<?n}. snd (pair_share es k (i, j)))"
      by (rule sum_list_row)
    also have "\<dots> = (\<Sum>i<?n. \<Sum>j\<in>{Suc i..<?n}.
         (if k = i then snd (spec_pair_force (es ! k) (es ! j))
          else if k = j then snd (spec_pair_force (es ! k) (es ! i)) else 0))"
      by (intro sum.cong refl) (simp add: pair_share_def)
    also have "\<dots> = (\<Sum>j\<in>{..<?n} - {k}. snd (spec_pair_force (es ! k) (es ! j)))"
      by (rule pairs_sum[OF assms])
    finally show ?thesis .
  qed
  show ?thesis using 1 2 by (simp add: vsum_def)
qed

lemma applyEntityRepulsion_sum:
  assumes "\<forall>e \<in> set es. mass e \<noteq> 0"
  shows "applyEntityRepulsion es
     = Some (map (\<lambda>k. push (es ! k) (repulsion_total es k)) [0 ..< length es])"
proof -
  have "applyEntityRepulsion es = repulsionOuter (accelerated es (\<lambda>k. (0, 0))) [0 ..< length es]"
    by (simp add: applyEntityRepulsion_def accelerated_zero)
  also have "\<dots> = Some (accelerated es
         (\<lambda>k. vadd (0, 0) (vsum (map (pair_share es k)
            (concat (map (row_pairs (length es)) [0 ..< length es]))))))"
    by (rule repulsionOuter_accelerated[OF assms])
  also have "accelerated es
         (\<lambda>k. vadd (0, 0) (vsum (map (pair_share es k)
            (concat (map (row_pairs (length es)) [0 ..< length es])))))
      = map (\<lambda>k. push (es ! k) (repulsion_total es k)) [0 ..< length es]"
    unfolding accelerated_def
    by (rule map_cong) (simp_all add: pair_share_sum repulsion_total_def vadd_def)
  finally show ?thesis .
qed

lemma spec_pair_force_cases:
  assumes "d = sqrt ((x b - x a) * (x b - x a) + (y b - y a) * (y b - y a))"
  shows "(0 < d \<and> d < 150 \<longrightarrow>
            spec_pair_force a b = (- 0.5 * ((x b - x a) / d), - 0.5 * ((y b - y a) / d))
            \<and> magnitude (fst (spec_pair_force a b)) (snd (spec_pair_force a b)) = 0.5)
       \<and> (d = 0 \<or> 150 \<le> d \<longrightarrow> spec_pair_force a b = (0, 0))"
proof -
  have f: "spec_pair_force a b
     = (if 0 < d \<and> d < 150 then (- 0.5 * ((x b - x a) / d), - 0.5 * ((y b - y a) / d)) else (0, 0))"
    by (simp add: spec_pair_force_def Let_def assms)
  have mag: "magnitude (- 0.5 * ((x b - x a) / d)) (- 0.5 * ((y b - y a) / d)) = 0.5" if "0 < d"
  proof -
    have "magnitude ((x b - x a) / d) ((y b - y a) / d) = 1"
      using that magnitude_unit[of "x b - x a" "y b - y a"] by (simp add: assms)
    then have "magnitude (- 0.5 * ((x b - x a) / d)) (- 0.5 * ((y b - y a) / d)) = \<bar>- 0.5\<bar>"
      using magnitude_scale[of "- 0.5" "(x b - x a) / d" "(y b - y a) / d"]
      by (simp only: mult_1_right)
    then show ?thesis by simp
  qed
  show ?thesis using f mag by auto
qed

text \<open>
  C8. For point masses of nonzero mass the pairwise pass returns, and gives every point
  mass the sum of the forces \<open>spec_pair_force\<close> from all the others, each pair being
  visited once. Between two point masses \<open>a\<close> and \<open>b\<close> at distance \<open>d\<close>: for
  \<open>0 < d < 150\<close> the force on \<open>a\<close> is 0.5 times the unit vector from \<open>b\<close> to
  \<open>a\<close> (length 0.5, pushing \<open>a\<close> away from \<open>b\<close>); the force on \<open>b\<close> is its exact
  negation; for \<open>d = 0\<close> or \<open>d \<ge> 150\<close> there is no force.
\<close>

theorem repulsion_pass:
  assumes "\<forall>e \<in> set es. mass e \<noteq> 0"
    and "d = sqrt ((x b - x a) * (x b - x a) + (y b - y a) * (y b - y a))"
  shows "applyEntityRepulsion es
           = Some (map (\<lambda>k. push (es ! k) (repulsion_total es k)) [0 ..< length es])
       \<and> spec_pair_force b a = (- fst (spec_pair_force a b), - snd (spec_pair_force a b))
       \<and> (0 < d \<and> d < 150 \<longrightarrow>
            spec_pair_force a b = (- 0.5 * ((x b - x a) / d), - 0.5 * ((y b - y a) / d))
            \<and> magnitude (fst (spec_pair_force a b)) (snd (spec_pair_force a b)) = 0.5)
       \<and> (d = 0 \<or> 150 \<le> d \<longrightarrow> spec_pair_force a b = (0, 0))"
  using applyEntityRepulsion_sum[OF assms(1)] spec_pair_force_neg[of b a]
    spec_pair_force_cases[OF assms(2)]
  by blast

text \<open>
  The pass over three point masses on a line, at 400, 500 and 700: the first two are 100
  apart and pushed apart by 0.5 each (accelerations \<open>- 0.5 / 2\<close> and \<open>0.5 / 4\<close>), the
  third is 200 or more from both and left alone.
\<close>

theorem repulsion_pass_witness:
  "applyEntityRepulsion [entity_at 400 400 2, entity_at 500 400 4, entity_at 700 400 1]
     = Some [(entity_at 400 400 2)\<lparr>ax := - 0.25\<rparr>, (entity_at 500 400 4)\<lparr>ax := 0.125\<rparr>,
             entity_at 700 400 1]
   \<and> spec_pair_force (entity_at 400 400 2) (entity_at 500 400 4) = (- 0.5, 0)
   \<and> spec_pair_force (entity_at 500 400 4) (entity_at 400 400 2) = (0.5, 0)
   \<and> magnitude (- 0.5) 0 = 0.5
   \<and> spec_pair_force (entity_at 500 400 4) (entity_at 700 400 1) = (0, 0)"
proof -
  let ?es = "[entity_at 400 400 2, entity_at 500 400 4, entity_at 700 400 1]"
  have m: "\<forall>e \<in> set ?es. mass e \<noteq> 0"
    by (simp add: entity_at_def sample_entity_fields)
  have d1: "100 = sqrt ((x (entity_at 500 400 4) - x (entity_at 400 400 2))
                     * (x (entity_at 500 400 4) - x (entity_at 400 400 2))
                   + (y (entity_at 500 400 4) - y (entity_at 400 400 2))
                     * (y (entity_at 500 400 4) - y (entity_at 400 400 2)))"
    by (simp add: entity_at_def sample_entity_fields)
  have d2: "200 = sqrt ((x (entity_at 700 400 1) - x (entity_at 500 400 4))
                     * (x (entity_at 700 400 1) - x (entity_at 500 400 4))
                   + (y (entity_at 700 400 1) - y (entity_at 500 400 4))
                     * (y (entity_at 700 400 1) - y (entity_at 500 400 4)))"
    by (simp add: entity_at_def sample_entity_fields)
  note p1 = repulsion_pass[OF m d1]
  note p2 = repulsion_pass[OF m d2]
  have c1: "0 < (100::real) \<and> (100::real) < 150" by simp
  have q1: "spec_pair_force (entity_at 400 400 2) (entity_at 500 400 4)
       = (- 0.5 * ((x (entity_at 500 400 4) - x (entity_at 400 400 2)) / 100),
          - 0.5 * ((y (entity_at 500 400 4) - y (entity_at 400 400 2)) / 100))"
    and q2: "magnitude (fst (spec_pair_force (entity_at 400 400 2) (entity_at 500 400 4)))
          (snd (spec_pair_force (entity_at 400 400 2) (entity_at 500 400 4))) = 0.5"
    using p1 c1 by blast+
  have f01: "spec_pair_force (entity_at 400 400 2) (entity_at 500 400 4) = (- 0.5, 0)"
    using q1 by (simp add: entity_at_def sample_entity_fields)
  have mg: "magnitude (- 0.5) 0 = 0.5"
    using q2 by (simp only: f01 fst_conv snd_conv)
  have f10: "spec_pair_force (entity_at 500 400 4) (entity_at 400 400 2) = (0.5, 0)"
    using p1 f01 by simp
  have f12: "spec_pair_force (entity_at 500 400 4) (entity_at 700 400 1) = (0, 0)"
    using p2 by simp
  have f21: "spec_pair_force (entity_at 700 400 1) (entity_at 500 400 4) = (0, 0)"
    using p2 f12 by simp
  have s: "sqrt 90000 = 300"
    using sqrt_of_square[of 300 90000] by simp
  have f02: "spec_pair_force (entity_at 400 400 2) (entity_at 700 400 1) = (0, 0)"
    "spec_pair_force (entity_at 700 400 1) (entity_at 400 400 2) = (0, 0)"
    by (simp_all add: spec_pair_force_def entity_at_def sample_entity_fields s)
  have sets: "{..<Suc (Suc (Suc 0))} - {0} = {Suc 0, 2}"
    "{..<Suc (Suc (Suc 0))} - {Suc 0} = {0, 2}" "{..<Suc (Suc (Suc 0))} - {2} = {0, Suc 0}"
    by auto
  have t: "repulsion_total ?es 0 = (- 0.5, 0)" "repulsion_total ?es 1 = (0.5, 0)"
    "repulsion_total ?es 2 = (0, 0)"
    by (simp_all add: repulsion_total_def sets f01 f10 f12 f21 f02)
  have t': "repulsion_total ?es (Suc (Suc 0)) = (0, 0)"
    using t(3) by (simp only: numeral_2_eq_2)
  have pu: "push (entity_at 400 400 2) (- 0.5, 0) = (entity_at 400 400 2)\<lparr>ax := - 0.25\<rparr>"
    "push (entity_at 500 400 4) (0.5, 0) = (entity_at 500 400 4)\<lparr>ax := 0.125\<rparr>"
    "push (entity_at 700 400 1) (0, 0) = entity_at 700 400 1"
    by (simp_all add: push_def entity_at_def sample_entity_def new_PhysicsEntity_def)
  have "map (\<lambda>k. push (?es ! k) (repulsion_total ?es k)) [0 ..< length ?es]
      = [(entity_at 400 400 2)\<lparr>ax := - 0.25\<rparr>, (entity_at 500 400 4)\<lparr>ax := 0.125\<rparr>,
             entity_at 700 400 1]"
    using t(1,2) t' pu by (simp add: upt_rec)
  then show ?thesis using p1 f01 f10 mg f12 by simp
qed

section \<open>Properties of the divisions by a distance\<close>

text \<open>
  Four of the five places that divide by a distance test it first, so that they return
  with finite numbers for every point mass of nonzero mass and every pointer position.
\<close>

lemma applyGravity_finite:
  assumes "mass e \<noteq> 0" and "0 \<le> repulsionRadius w"
  shows "\<exists>e'. applyGravity w e = Some e'"
  using assms by (auto simp add: applyGravity_def Let_def js_div_def applyForce_def)

lemma repulsionPair_finite:
  assumes "mass (es ! i) \<noteq> 0" and "mass (es ! j) \<noteq> 0"
  shows "\<exists>es'. repulsionPair es i j = Some es'"
  using assms by (auto simp add: repulsionPair_def Let_def js_div_def applyForce_def)

lemma clickForce_finite:
  assumes "mass e \<noteq> 0"
  shows "\<exists>e'. clickForce cx cy e = Some e'"
  using assms by (auto simp add: clickForce_def Let_def js_div_def applyForce_def)

lemma steer_finite: "\<exists>b'. steer Body_applyForce cfg pointer b = Some b'"
  by (auto simp add: steer_def Let_def js_div_def)

lemma updateParticle_off_pointer:
  assumes "x p + speedX p \<noteq> x pointer \<or> y p + speedY p \<noteq> y pointer"
  shows "\<exists>p'. updateParticle canvasWidth canvasHeight pointer p = Some p'"
proof -
  have "(x pointer - (x p + speedX p)) * (x pointer - (x p + speedX p))
        + (y pointer - (y p + speedY p)) * (y pointer - (y p + speedY p)) \<noteq> 0"
    using assms by (auto simp add: add_nonneg_eq_0_iff)
  then show ?thesis
    by (simp add: updateParticle_def Let_def js_div_def)
qed

text \<open>
  C3 holds of the field force, the pairwise repulsion, the click impulse and the steering
  force, and fails of the nudge of the star field, whose test is
  \<^verbatim>\<open>distance < influenceRadius\<close> alone: a star that its drift brings onto the pointer
  at \<open>(500, 400)\<close> is at distance 0, and \<^verbatim>\<open>dx / distance\<close> is \<open>0 / 0\<close>.
\<close>

theorem star_nudge_divides_by_zero:
  "updateParticle 1000 800 \<lparr>x = 500, y = 400\<rparr> (star_at 499.9375 400.0625 0.0625 (- 0.0625))
     = None"
  by (simp add: updateParticle_def star_at_def js_div_def)

section \<open>Properties of a whole frame\<close>

lemma forEach_Some:
  assumes "\<forall>a \<in> set as. \<exists>b. f a = Some b \<and> P a b"
  shows "\<exists>bs. forEach f as = Some bs \<and> list_all2 P as bs"
  using assms
proof (induction as)
  case Nil
  then show ?case by simp
next
  case (Cons a as)
  obtain b where b: "f a = Some b" "P a b" using Cons.prems by auto
  obtain bs where bs: "forEach f as = Some bs" "list_all2 P as bs"
    using Cons.IH Cons.prems by auto
  show ?case using b bs by simp
qed

lemma list_all2_set_right:
  assumes "list_all2 P as bs" and "b \<in> set bs"
  shows "\<exists>a \<in> set as. P a b"
proof -
  obtain i where i: "i < length bs" "b = bs ! i"
    using assms(2) by (auto simp add: in_set_conv_nth)
  have "length as = length bs" "P (as ! i) (bs ! i)"
    using assms(1) i(1) by (simp_all add: list_all2_conv_all_nth)
  then show ?thesis using i nth_mem[of i as] by auto
qed

lemma applyGravity_same:
  assumes "applyGravity w e = Some e'"
  shows "same_but_acceleration e e'"
  using assms
  by (auto simp add: applyGravity_def Let_def js_div_def same_refl
      split: if_splits intro: applyForce_same)

text \<open>
  The operations that apply a force, and the reset, leave the position as it is: only
  the integration step moves a point mass.
\<close>

lemma forces_keep_position:
  shows "applyForce e fx fy = Some e' \<Longrightarrow> x e' = x e \<and> y e' = y e"
    and "applyGravity w e = Some e' \<Longrightarrow> x e' = x e \<and> y e' = y e"
    and "clickForce cx cy e = Some e' \<Longrightarrow> x e' = x e \<and> y e' = y e"
    and "scatterEntity r1 r2 e = Some e' \<Longrightarrow> x e' = x e \<and> y e' = y e"
    and "resetEntity e = Some e' \<Longrightarrow> x e' = x e \<and> y e' = y e"
proof -
  show a: "applyForce e fx fy = Some e' \<Longrightarrow> x e' = x e \<and> y e' = y e" for e fx fy e'
    using same_fields(1,2)[OF applyForce_same] by blast
  show "applyGravity w e = Some e' \<Longrightarrow> x e' = x e \<and> y e' = y e"
    using same_fields(1,2)[OF applyGravity_same] by blast
  show "clickForce cx cy e = Some e' \<Longrightarrow> x e' = x e \<and> y e' = y e"
    using a by (auto simp add: clickForce_def Let_def js_div_def split: if_splits)
  show "scatterEntity r1 r2 e = Some e' \<Longrightarrow> x e' = x e \<and> y e' = y e"
    using a by (simp add: scatterEntity_def Let_def)
  show "resetEntity e = Some e' \<Longrightarrow> x e' = x e \<and> y e' = y e"
    using a[of "e\<lparr>vx := 0, vy := 0\<rparr>"] by (simp add: resetEntity_def Let_def)
qed

lemma push_maxSpeed: "maxSpeed (push e f) = maxSpeed e"
  by (simp add: push_def)

lemma update_step:
  assumes "mass e \<noteq> 0" and "0 \<le> maxSpeed e" and "200 \<le> innerWidth" and "200 \<le> innerHeight"
  shows "\<exists>e'. update e dt innerWidth innerHeight = Some e'
     \<and> (100 \<le> x e' \<and> x e' \<le> innerWidth - 100 \<and> 100 \<le> y e' \<and> y e' \<le> innerHeight - 100
        \<and> magnitude (vx e') (vy e') \<le> maxSpeed e' \<and> ax e' = 0 \<and> ay e' = 0)"
proof -
  obtain p where p: "integrate e dt = Some p" "magnitude (vx p) (vy p) \<le> maxSpeed e"
     "maxSpeed p = maxSpeed e"
    using integrate_bounded[OF assms(1,2)] by blast
  have u: "update e dt innerWidth innerHeight
          = Some ((boundaryBounce p innerWidth innerHeight)\<lparr>ax := 0, ay := 0\<rparr>)"
    using p(1) by (simp add: update_def)
  have s: "magnitude (vx (boundaryBounce p innerWidth innerHeight))
       (vy (boundaryBounce p innerWidth innerHeight)) \<le> maxSpeed e"
    using boundaryBounce_speed[of p innerWidth innerHeight] p(2) by linarith
  show ?thesis using u s p(3) assms(3,4)
    by (simp add: boundaryBounce_x boundaryBounce_y boundaryBounce_maxSpeed)
qed

text \<open>
  One frame of the world (field force on every point mass, pairwise pass, integration
  step of every point mass) returns when the masses are not zero, with every point mass
  inside the margin box and no faster than its \<open>maxSpeed\<close>.
\<close>

lemma world_update_frame:
  assumes "\<forall>e \<in> set (entities w). mass e \<noteq> 0 \<and> 0 \<le> maxSpeed e"
    and "0 \<le> repulsionRadius w" and "200 \<le> innerWidth" and "200 \<le> innerHeight"
  shows "\<exists>w'. world_update w currentTime innerWidth innerHeight = Some w'
     \<and> length (entities w') = length (entities w)
     \<and> (\<forall>e' \<in> set (entities w').
           100 \<le> x e' \<and> x e' \<le> innerWidth - 100 \<and> 100 \<le> y e' \<and> y e' \<le> innerHeight - 100
         \<and> magnitude (vx e') (vy e') \<le> maxSpeed e' \<and> ax e' = 0 \<and> ay e' = 0)"
proof -
  define dt where "dt = min ((currentTime - lastTime w) / 16) 2"
  let ?Q = "\<lambda>e e'. 100 \<le> x e' \<and> x e' \<le> innerWidth - 100 \<and> 100 \<le> y e' \<and> y e' \<le> innerHeight - 100
         \<and> magnitude (vx e') (vy e') \<le> maxSpeed e' \<and> ax e' = 0 \<and> ay e' = 0"
  have "\<forall>e \<in> set (entities w). \<exists>e'. applyGravity w e = Some e' \<and> same_but_acceleration e e'"
    using assms(1,2) applyGravity_finite applyGravity_same by blast
  then obtain es1 where es1: "forEach (applyGravity w) (entities w) = Some es1"
      "list_all2 same_but_acceleration (entities w) es1"
    using forEach_Some[of "entities w" "applyGravity w" same_but_acceleration] by blast
  have m1: "\<forall>e \<in> set es1. mass e \<noteq> 0 \<and> 0 \<le> maxSpeed e"
  proof
    fix e assume "e \<in> set es1"
    then obtain a where "a \<in> set (entities w)" "same_but_acceleration a e"
      using list_all2_set_right[OF es1(2)] by blast
    then show "mass e \<noteq> 0 \<and> 0 \<le> maxSpeed e"
      using assms(1) same_fields(3,4)[of a e] by auto
  qed
  define es2 where "es2 = map (\<lambda>k. push (es1 ! k) (repulsion_total es1 k)) [0 ..< length es1]"
  have es2: "applyEntityRepulsion es1 = Some es2"
    using applyEntityRepulsion_sum[of es1] m1 by (simp add: es2_def)
  have m2: "\<forall>e \<in> set es2. mass e \<noteq> 0 \<and> 0 \<le> maxSpeed e"
    using m1 by (auto simp add: es2_def push_fields push_maxSpeed)
  have "\<forall>e \<in> set es2. \<exists>e'. update e dt innerWidth innerHeight = Some e' \<and> ?Q e e'"
    using m2 update_step[OF _ _ assms(3,4)] by blast
  then obtain es3 where es3: "forEach (\<lambda>e. update e dt innerWidth innerHeight) es2 = Some es3"
      "list_all2 ?Q es2 es3"
    using forEach_Some[of es2 "\<lambda>e. update e dt innerWidth innerHeight" ?Q] by blast
  have q: "\<forall>e' \<in> set es3. 100 \<le> x e' \<and> x e' \<le> innerWidth - 100 \<and> 100 \<le> y e' \<and> y e' \<le> innerHeight - 100
         \<and> magnitude (vx e') (vy e') \<le> maxSpeed e' \<and> ax e' = 0 \<and> ay e' = 0"
    using list_all2_set_right[OF es3(2)] by blast
  have len: "length es3 = length (entities w)"
    using list_all2_lengthD[OF es1(2)] list_all2_lengthD[OF es3(2)] by (simp add: es2_def)
  have "world_update w currentTime innerWidth innerHeight
      = Some (w\<lparr>lastTime := currentTime, entities := es3\<rparr>)"
    using es1(1) es2 es3(1) by (simp add: world_update_def Let_def dt_def)
  then show ?thesis using q len by simp
qed

section \<open>Properties of the initialisation\<close>

lemma initPhysicsEngine_missing_canvas:
  assumes "\<not> reduced" and "doc ''physics-canvas'' = None"
  shows "initPhysicsEngine reduced doc touch created (s, t)
           = Inr (s\<lparr>console := console s @ [''Canvas element not found'']\<rparr>, t)"
  using assms by (simp add: initPhysicsEngine_def)

lemma initMouseTracker_missing_canvas:
  "initMouseTracker None touch t
     = t\<lparr>tracker_console := tracker_console t @ [''Canvas element required for mouse tracking'']\<rparr>"
  by (simp add: initMouseTracker_def)

text \<open>
  C4 holds of the overlay and of the mouse tracker, and fails of the star field: on a page
  without the element \<^verbatim>\<open>particles\<close> the listener passes \<^verbatim>\<open>null\<close> to the
  constructor, whose \<^verbatim>\<open>canvas.getContext('2d')\<close> throws; nothing is logged and the
  exception leaves the listener.
\<close>

theorem particles_onload_missing_canvas:
  "particles_onload Map.empty 1000 800 [star_at 10 20 0.0625 0.0625] = Inl TypeError"
  by (simp add: particles_onload_def new_ParticleSystem_def)

section \<open>Properties of the pause\<close>

lemma hide_stops_unpaused:
  assumes "\<not> isPaused s"
  shows "animationId (visibilitychange True s) = None"
    and "animate (visibilitychange True s) = visibilitychange True s"
    and "localStorage (visibilitychange True s) ''physics-paused'' = Some ''true''"
  using assms by (simp_all add: visibilitychange_def pauseSimulation_def animate_def)

lemma show_resumes:
  assumes "isPaused s" and "localStorage s ''physics-paused'' \<noteq> Some ''true''"
  shows "animationId (visibilitychange False s) \<noteq> None"
    and "\<not> isPaused (visibilitychange False s)"
  using assms
  by (simp_all add: visibilitychange_def resumeSimulation_def startSimulation_def requestFrame_def
      Let_def split: option.splits)

lemma hide_then_show_stays_paused:
  assumes "\<not> isPaused s"
  shows "visibilitychange False (visibilitychange True s) = visibilitychange True s"
  using assms by (simp add: visibilitychange_def pauseSimulation_def)

lemma toggle_click_writes:
  assumes "toggle_listening s"
  shows "localStorage (toggle_click s) ''physics-paused''
           = Some (if isPaused s then ''false'' else ''true'')"
  using assms
  by (simp add: toggle_click_def pauseSimulation_def resumeSimulation_def Let_def)

text \<open>
  C5 fails where the loop runs although \<^verbatim>\<open>isPaused\<close> is set. When the storage says
  \<^verbatim>\<open>'true'\<close> at startup, \<^verbatim>\<open>setupPauseToggle\<close> pauses, and
  \<^verbatim>\<open>startSimulation\<close>, called next, schedules the first frame all the same. In that
  state a \<^verbatim>\<open>visibilitychange\<close> to hidden changes nothing: the frame stays scheduled.
\<close>

theorem hidden_while_restored_keeps_running:
  "initPhysicsEngine False overlay_page False []
      (overlay_init [''physics-paused'' \<mapsto> ''true''], tracker_init)
     = Inr (restored_overlay, initMouseTracker (Some (Canvas True)) False tracker_init)
   \<and> animationId restored_overlay = Some 1
   \<and> visibilitychange True restored_overlay = restored_overlay
   \<and> animationId (animate (visibilitychange True restored_overlay)) = Some 2"
  by (simp add: initPhysicsEngine_def overlay_page_def overlay_init_def restored_overlay_def
      setupPauseToggle_def pauseSimulation_def startSimulation_def requestFrame_def
      visibilitychange_def animate_def)

section \<open>Properties of the tracked pointer\<close>

lemma deliver_all_snoc: "deliver_all (evs @ [ev]) t = deliver ev (deliver_all evs t)"
  by (induction evs arbitrary: t) simp_all

lemma tracker_after_trace:
  assumes "touch \<or> (\<forall>ev \<in> set evs. \<not> is_touch ev)"
  shows "isTracking (deliver_all evs (initMouseTracker (Some c) touch tracker_init)) = tracked (rev evs)
       \<and> mousePosition (deliver_all evs (initMouseTracker (Some c) touch tracker_init))
           = last_recorded (rev evs)
       \<and> listening (deliver_all evs (initMouseTracker (Some c) touch tracker_init))
       \<and> touchListening (deliver_all evs (initMouseTracker (Some c) touch tracker_init)) = touch"
  using assms
proof (induction evs rule: rev_induct)
  case Nil
  then show ?case by (simp add: initMouseTracker_def tracker_init_def)
next
  case (snoc ev evs)
  let ?t = "deliver_all evs (initMouseTracker (Some c) touch tracker_init)"
  have pre: "touch \<or> (\<forall>ev \<in> set evs. \<not> is_touch ev)" using snoc.prems by auto
  have ih: "isTracking ?t = tracked (rev evs)" "mousePosition ?t = last_recorded (rev evs)"
      "listening ?t" "touchListening ?t = touch"
    using snoc.IH[OF pre] by simp_all
  have tc: "touch \<or> \<not> is_touch ev" using snoc.prems by auto
  show ?case
  proof (cases ev)
    case (MouseMove cx cy r)
    then show ?thesis using ih by (simp add: deliver_all_snoc handleMouseMove_def)
  next
    case MouseEnter
    then show ?thesis using ih by (simp add: deliver_all_snoc)
  next
    case MouseLeave
    then show ?thesis using ih by (simp add: deliver_all_snoc)
  next
    case (TouchStart ts r)
    then show ?thesis using ih tc
      by (cases ts) (auto simp add: deliver_all_snoc handleTouch_def)
  next
    case (TouchMove ts r)
    then show ?thesis using ih tc
      by (cases ts) (auto simp add: deliver_all_snoc handleTouch_def)
  next
    case TouchEnd
    then show ?thesis using ih tc by (simp add: deliver_all_snoc)
  qed
qed

text \<open>
  C10. After any trace of canvas events (touch events on a touch device only),
  \<^verbatim>\<open>getMousePosition()\<close> is \<^verbatim>\<open>null\<close> when the pointer is not tracked (no event
  yet, or a \<^verbatim>\<open>mouseleave\<close> or \<^verbatim>\<open>touchend\<close> since the last event that turned
  tracking on) and the last position recorded otherwise, which is the initial \<open>(0, 0)\<close>
  while no event has recorded one. While it is \<^verbatim>\<open>null\<close>, \<^verbatim>\<open>applyMouseForce\<close>
  returns the overlay as it was: the solver's \<^verbatim>\<open>applyForce\<close> is called on no body.
\<close>

theorem getMousePosition_after_trace:
  assumes "touch \<or> (\<forall>ev \<in> set evs. \<not> is_touch ev)"
    and "t = deliver_all evs (initMouseTracker (Some c) touch tracker_init)"
  shows "getMousePosition t = (if tracked (rev evs) then Some (last_recorded (rev evs)) else None)
       \<and> (getMousePosition t = None \<longrightarrow> applyMouseForce Body_applyForce cfg t s = Some s)"
proof -
  have "getMousePosition t = (if tracked (rev evs) then Some (last_recorded (rev evs)) else None)"
    using tracker_after_trace[OF assms(1), of c] assms(2) by (simp add: getMousePosition_def)
  moreover have "getMousePosition t = None \<longrightarrow> applyMouseForce Body_applyForce cfg t s = Some s"
    by (simp add: applyMouseForce_def)
  ultimately show ?thesis by simp
qed

text \<open>
  On a touch device: nothing before the first event; \<open>(100, 50)\<close> after the pointer
  entered and moved; nothing after it left, and no force on a body 30 pixels from where
  it was; nothing after a touch ended. On a device without touch: \<open>(0, 0)\<close> after the
  pointer entered and before it moved.
\<close>

theorem getMousePosition_after_trace_witness:
  "getMousePosition (deliver_all [] (initMouseTracker (Some (Canvas True)) True tracker_init)) = None
   \<and> getMousePosition (deliver_all [MouseEnter, MouseMove 120 80 canvas_rect]
        (initMouseTracker (Some (Canvas True)) True tracker_init)) = Some \<lparr>x = 100, y = 50\<rparr>
   \<and> getMousePosition (deliver_all [MouseEnter, MouseMove 120 80 canvas_rect, MouseLeave]
        (initMouseTracker (Some (Canvas True)) True tracker_init)) = None
   \<and> applyMouseForce add_force (CONFIG True)
        (deliver_all [MouseEnter, MouseMove 120 80 canvas_rect, MouseLeave]
           (initMouseTracker (Some (Canvas True)) True tracker_init))
        ((overlay_init Map.empty)\<lparr>particles := Some [body_at 130 50]\<rparr>)
       = Some ((overlay_init Map.empty)\<lparr>particles := Some [body_at 130 50]\<rparr>)
   \<and> getMousePosition (deliver_all [TouchStart [(70, 90)] canvas_rect, TouchEnd]
        (initMouseTracker (Some (Canvas True)) True tracker_init)) = None
   \<and> getMousePosition (deliver_all [MouseEnter]
        (initMouseTracker (Some (Canvas True)) False tracker_init)) = Some \<lparr>x = 0, y = 0\<rparr>"
proof -
  have t: "True \<or> (\<forall>ev \<in> set evs. \<not> is_touch ev)" for evs by simp
  have m: "False \<or> (\<forall>ev \<in> set [MouseEnter]. \<not> is_touch ev)" by simp
  note a = getMousePosition_after_trace[OF t refl, of "[]" "Canvas True" add_force "CONFIG True"
      "(overlay_init Map.empty)\<lparr>particles := Some [body_at 130 50]\<rparr>"]
  note b = getMousePosition_after_trace[OF t refl, of "[MouseEnter, MouseMove 120 80 canvas_rect]"
      "Canvas True" add_force "CONFIG True" "(overlay_init Map.empty)\<lparr>particles := Some [body_at 130 50]\<rparr>"]
  note c = getMousePosition_after_trace[OF t refl,
      of "[MouseEnter, MouseMove 120 80 canvas_rect, MouseLeave]"
      "Canvas True" add_force "CONFIG True" "(overlay_init Map.empty)\<lparr>particles := Some [body_at 130 50]\<rparr>"]
  note d = getMousePosition_after_trace[OF t refl, of "[TouchStart [(70, 90)] canvas_rect, TouchEnd]"
      "Canvas True" add_force "CONFIG True" "(overlay_init Map.empty)\<lparr>particles := Some [body_at 130 50]\<rparr>"]
  note e = getMousePosition_after_trace[OF m refl, of "Canvas True" add_force "CONFIG True"
      "(overlay_init Map.empty)\<lparr>particles := Some [body_at 130 50]\<rparr>"]
  have a': "getMousePosition (deliver_all [] (initMouseTracker (Some (Canvas True)) True tracker_init)) = None"
    using a by simp
  have b': "getMousePosition (deliver_all [MouseEnter, MouseMove 120 80 canvas_rect]
        (initMouseTracker (Some (Canvas True)) True tracker_init)) = Some \<lparr>x = 100, y = 50\<rparr>"
    using b by (simp add: canvas_rect_def)
  have c': "getMousePosition (deliver_all [MouseEnter, MouseMove 120 80 canvas_rect, MouseLeave]
        (initMouseTracker (Some (Canvas True)) True tracker_init)) = None"
    using c by simp
  have c'': "applyMouseForce add_force (CONFIG True)
        (deliver_all [MouseEnter, MouseMove 120 80 canvas_rect, MouseLeave]
           (initMouseTracker (Some (Canvas True)) True tracker_init))
        ((overlay_init Map.empty)\<lparr>particles := Some [body_at 130 50]\<rparr>)
       = Some ((overlay_init Map.empty)\<lparr>particles := Some [body_at 130 50]\<rparr>)"
    using c c' by blast
  have d': "getMousePosition (deliver_all [TouchStart [(70, 90)] canvas_rect, TouchEnd]
        (initMouseTracker (Some (Canvas True)) True tracker_init)) = None"
    using d by simp
  have e': "getMousePosition (deliver_all [MouseEnter]
        (initMouseTracker (Some (Canvas True)) False tracker_init)) = Some \<lparr>x = 0, y = 0\<rparr>"
    using e by simp
  show ?thesis using a' b' c' c'' d' e' by blast
qed

end
